theory Spec2Isabelle
  imports Complex_Main "HOL-Library.Sublist"
begin

section \<open>Strings\<close>

text \<open>
  A Python \<open>str\<close> is modelled as a \<^typ>\<open>string\<close>: a list of characters whose code points
  lie below 256. Every token, selector and message of the programs below is ASCII.
\<close>

definition startswith :: "string \<Rightarrow> string \<Rightarrow> bool" where
  \<comment> \<open>\<open>s.startswith(p)\<close>\<close>
  "startswith s p = (take (length p) s = p)"

fun contains :: "string \<Rightarrow> string \<Rightarrow> bool" where
  \<comment> \<open>\<open>sub in s\<close>\<close>
  "contains [] sub = (sub = [])"
| "contains (c # cs) sub = (startswith (c # cs) sub \<or> contains cs sub)"

definition in_range :: "char \<Rightarrow> char \<Rightarrow> char \<Rightarrow> bool" where
  "in_range lo hi c = ((of_char lo :: nat) \<le> of_char c \<and> (of_char c :: nat) \<le> of_char hi)"

definition is_space :: "char \<Rightarrow> bool" where
  \<comment> \<open>the class \<open>\s\<close> of \<open>re\<close> on a \<open>str\<close> pattern, below code point 256\<close>
  "is_space c = (in_range (CHR 0x09) (CHR 0x0D) c \<or> in_range (CHR 0x1C) (CHR 0x20) c
                  \<or> c = CHR 0x85 \<or> c = CHR 0xA0)"

definition lower_char :: "char \<Rightarrow> char" where
  \<comment> \<open>\<open>str.lower\<close> on one character, below code point 256\<close>
  "lower_char c =
     (if in_range CHR ''A'' CHR ''Z'' c \<or> (in_range (CHR 0xC0) (CHR 0xDE) c \<and> c \<noteq> CHR 0xD7)
      then char_of (of_char c + (32::nat)) else c)"

definition lower :: "string \<Rightarrow> string" where
  "lower s = map lower_char s"

definition digit_char :: "nat \<Rightarrow> char" where
  "digit_char d = ''0123456789'' ! d"

fun str_of_nat :: "nat \<Rightarrow> string" where
  \<comment> \<open>\<open>str(n)\<close> of a non-negative \<open>int\<close>\<close>
  "str_of_nat n = (if n < 10 then [digit_char n] else str_of_nat (n div 10) @ [digit_char (n mod 10)])"

declare str_of_nat.simps [simp del]

definition str_of_int :: "int \<Rightarrow> string" where
  "str_of_int i = (if i < 0 then CHR ''-'' # str_of_nat (nat (- i)) else str_of_nat (nat i))"

definition newline :: char where
  "newline = CHR 0x0A"

definition quote :: char where
  "quote = CHR 0x27"

definition dquote :: char where
  "dquote = CHR 0x22"


section \<open>Token format: \<open>sparc_phase4_cli_integration.py\<close>\<close>

record TokenValidation =
  is_valid :: bool
  errors :: "string list"
  prefix_ok :: bool
  length_ok :: bool
  charset_ok :: bool
  pattern_match :: bool

definition TOKEN_PREFIX :: string where
  "TOKEN_PREFIX = ''ops_''"

definition MIN_TOKEN_LENGTH :: nat where
  "MIN_TOKEN_LENGTH = 100"

definition ALLOWED_CHARS :: "char set" where
  "ALLOWED_CHARS = set ''ABCDEFGHIJKLMNOPQRSTUVWXYZabcdefghijklmnopqrstuvwxyz0123456789_-''"

definition token_class :: "char \<Rightarrow> bool" where
  \<comment> \<open>the character class \<open>[A-Za-z0-9_-]\<close> of the regular expressions\<close>
  "token_class c = (in_range CHR ''A'' CHR ''Z'' c \<or> in_range CHR ''a'' CHR ''z'' c
                     \<or> in_range CHR ''0'' CHR ''9'' c \<or> c = CHR ''_'' \<or> c = CHR ''-'')"

definition TOKEN_PATTERN_match :: "string \<Rightarrow> bool" where
  \<comment> \<open>\<open>bool(TOKEN_PATTERN.match(token))\<close> for \<open>^ops_[A-Za-z0-9_-]{100,}$\<close>: the greedy run
      takes every class character after the prefix, and \<open>$\<close> holds at the end of the string
      or before a final newline\<close>
  "TOKEN_PATTERN_match token =
     (startswith token ''ops_'' \<and>
      (let rest = drop 4 token;
           run = takeWhile token_class rest;
           tail = dropWhile token_class rest
       in 100 \<le> length run \<and> (tail = [] \<or> tail = [newline])))"

fun first_invalid_char :: "string \<Rightarrow> nat \<Rightarrow> (char \<times> nat) option" where
  \<comment> \<open>the loop \<open>for i, char in enumerate(token)\<close> up to its \<open>break\<close>\<close>
  "first_invalid_char [] i = None"
| "first_invalid_char (c # cs) i =
     (if c \<notin> ALLOWED_CHARS then Some (c, i) else first_invalid_char cs (Suc i))"

definition prefix_error :: string where
  "prefix_error = ''Token must start with '' @ [quote] @ TOKEN_PREFIX @ [quote]"

definition length_error :: "nat \<Rightarrow> string" where
  "length_error actual_len =
     ''Token too short: '' @ str_of_nat actual_len @ '' < '' @ str_of_nat MIN_TOKEN_LENGTH"

definition charset_error :: "char \<Rightarrow> nat \<Rightarrow> string" where
  "charset_error c i =
     ''Invalid character '' @ [quote, c, quote] @ '' at position '' @ str_of_nat i"

definition validate_token_format :: "string \<Rightarrow> TokenValidation" where
  \<comment> \<open>an empty \<open>token\<close> stands for every falsy argument (\<open>''\<close> and \<open>None\<close>)\<close>
  "validate_token_format token =
     (let p_ok = (if token \<noteq> [] then startswith token TOKEN_PREFIX else False);
          errors1 = (if \<not> p_ok then [prefix_error] else []);
          l_ok = (if token \<noteq> [] then MIN_TOKEN_LENGTH \<le> length token else False);
          errors2 = (if \<not> l_ok
                     then errors1 @ [length_error (if token \<noteq> [] then length token else 0)]
                     else errors1);
          bad = (if token \<noteq> [] then first_invalid_char token 0 else None);
          c_ok = (token \<noteq> [] \<and> bad = None);
          errors3 = (if token \<noteq> []
                     then (case bad of None \<Rightarrow> errors2
                           | Some (c, i) \<Rightarrow> errors2 @ [charset_error c i])
                     else errors2 @ [''Token is empty or None'']);
          m_ok = (if token \<noteq> [] then TOKEN_PATTERN_match token else False);
          errors4 = (if \<not> m_ok \<and> errors3 = []
                     then errors3 @ [''Token does not match expected pattern'']
                     else errors3)
      in \<lparr> is_valid = (p_ok \<and> l_ok \<and> c_ok \<and> m_ok), errors = errors4, prefix_ok = p_ok,
           length_ok = l_ok, charset_ok = c_ok, pattern_match = m_ok \<rparr>)"

definition match_token_here :: "string \<Rightarrow> string option" where
  \<comment> \<open>\<open>ops_[A-Za-z0-9_-]{100,}\<close> matched at the start of \<open>s\<close>: the text of the match\<close>
  "match_token_here s =
     (if startswith s ''ops_''
      then (let run = takeWhile token_class (drop 4 s)
            in if 100 \<le> length run then Some (''ops_'' @ run) else None)
      else None)"

fun search_token :: "string \<Rightarrow> string option" where
  \<comment> \<open>\<open>re.search(r'(ops_[A-Za-z0-9_-]{100,})', s)\<close> and its \<open>group(1)\<close>: the leftmost match\<close>
  "search_token [] = None"
| "search_token (c # cs) =
     (case match_token_here (c # cs) of Some t \<Rightarrow> Some t | None \<Rightarrow> search_token cs)"

definition extract_token_from_output :: "string \<Rightarrow> string option" where
  "extract_token_from_output output =
     (if output = [] then None
      else (let cleaned = filter (\<lambda>c. \<not> is_space c) output
            in case search_token cleaned of
                 Some token \<Rightarrow> Some token
               | None \<Rightarrow> search_token output))"


section \<open>Python values\<close>

text \<open>
  The values of type \<open>Any\<close> that the decision engine reads (element attributes, intent and
  metadata entries, results) are \<open>None\<close>, booleans, integers, strings, lists and dicts with
  string keys. A dict is an association list in insertion order, with distinct keys.
\<close>

datatype pyval = PNone | PBool bool | PInt int | PStr string
  | PList "pyval list" | PDict "(string \<times> pyval) list"

type_synonym pydict = "(string \<times> pyval) list"

fun truthy :: "pyval \<Rightarrow> bool" where
  "truthy PNone = False"
| "truthy (PBool b) = b"
| "truthy (PInt i) = (i \<noteq> 0)"
| "truthy (PStr s) = (s \<noteq> [])"
| "truthy (PList xs) = (xs \<noteq> [])"
| "truthy (PDict d) = (d \<noteq> [])"

definition has_key :: "pydict \<Rightarrow> string \<Rightarrow> bool" where
  \<comment> \<open>\<open>k in d\<close>\<close>
  "has_key d k = (map_of d k \<noteq> None)"

definition dict_get :: "pydict \<Rightarrow> string \<Rightarrow> pyval" where
  \<comment> \<open>\<open>d.get(k)\<close>\<close>
  "dict_get d k = (case map_of d k of Some v \<Rightarrow> v | None \<Rightarrow> PNone)"

definition dict_get_default :: "pydict \<Rightarrow> string \<Rightarrow> pyval \<Rightarrow> pyval" where
  \<comment> \<open>\<open>d.get(k, default)\<close>\<close>
  "dict_get_default d k dflt = (case map_of d k of Some v \<Rightarrow> v | None \<Rightarrow> dflt)"

fun join :: "string \<Rightarrow> string list \<Rightarrow> string" where
  \<comment> \<open>\<open>sep.join(parts)\<close>\<close>
  "join sep [] = []"
| "join sep [x] = x"
| "join sep (x # y # ys) = x @ sep @ join sep (y # ys)"

definition hex_digit :: "nat \<Rightarrow> char" where
  "hex_digit d = ''0123456789abcdef'' ! d"

definition repr_char :: "char \<Rightarrow> char \<Rightarrow> string" where
  \<comment> \<open>one character inside \<open>repr\<close> of a string quoted with \<open>q\<close>\<close>
  "repr_char q c =
     (if c = CHR 0x5C then [CHR 0x5C, CHR 0x5C]
      else if c = q then [CHR 0x5C, q]
      else if c = CHR 0x0A then [CHR 0x5C, CHR ''n'']
      else if c = CHR 0x09 then [CHR 0x5C, CHR ''t'']
      else if c = CHR 0x0D then [CHR 0x5C, CHR ''r'']
      else if (of_char c :: nat) < 32 \<or> c = CHR 0x7F \<or> in_range (CHR 0x80) (CHR 0xA0) c
              \<or> c = CHR 0xAD
      then [CHR 0x5C, CHR ''x'', hex_digit ((of_char c :: nat) div 16),
            hex_digit ((of_char c :: nat) mod 16)]
      else [c])"

definition repr_str :: "string \<Rightarrow> string" where
  "repr_str s =
     (let q = (if quote \<in> set s \<and> dquote \<notin> set s then dquote else quote)
      in [q] @ concat (map (repr_char q) s) @ [q])"

fun py_repr :: "pyval \<Rightarrow> string" where
  "py_repr PNone = ''None''"
| "py_repr (PBool b) = (if b then ''True'' else ''False'')"
| "py_repr (PInt i) = str_of_int i"
| "py_repr (PStr s) = repr_str s"
| "py_repr (PList xs) = ''['' @ join '', '' (map py_repr xs) @ '']''"
| "py_repr (PDict kvs) =
     ''{'' @ join '', '' (map (\<lambda>(k, v). repr_str k @ '': '' @ py_repr v) kvs) @ ''}''"

definition py_str :: "pyval \<Rightarrow> string" where
  \<comment> \<open>\<open>str(v)\<close>\<close>
  "py_str v = (case v of PStr s \<Rightarrow> s | _ \<Rightarrow> py_repr v)"

definition strip :: "string \<Rightarrow> string" where
  \<comment> \<open>\<open>s.strip()\<close>\<close>
  "strip s = rev (dropWhile is_space (rev (dropWhile is_space s)))"

fun split_ws :: "string \<Rightarrow> string \<Rightarrow> string list" where
  \<comment> \<open>\<open>s.split()\<close>: \<open>split_ws [] s\<close>, the first argument holding the word being read\<close>
  "split_ws w [] = (if w = [] then [] else [w])"
| "split_ws w (c # cs) =
     (if is_space c then (if w = [] then split_ws [] cs else w # split_ws [] cs)
      else split_ws (w @ [c]) cs)"

definition is_digit :: "char \<Rightarrow> bool" where
  "is_digit c = in_range CHR ''0'' CHR ''9'' c"

fun digits_ok :: "string \<Rightarrow> bool" where
  \<comment> \<open>decimal digits, single underscores allowed between two digits\<close>
  "digits_ok [] = False"
| "digits_ok [c] = is_digit c"
| "digits_ok (c # d # cs) =
     (is_digit c \<and> (if d = CHR ''_'' then digits_ok cs else digits_ok (d # cs)))"

definition digits_value :: "string \<Rightarrow> int" where
  "digits_value s = foldl (\<lambda>a c. 10 * a + (int (of_char c) - 48)) 0 (filter is_digit s)"

definition int_of_str :: "string \<Rightarrow> int option" where
  \<comment> \<open>\<open>int(s)\<close> of a string; \<open>None\<close> where it raises \<open>ValueError\<close>\<close>
  "int_of_str s =
     (case strip s of
        [] \<Rightarrow> None
      | c # cs \<Rightarrow>
          (if c = CHR ''-'' then (if digits_ok cs then Some (- digits_value cs) else None)
           else if c = CHR ''+'' then (if digits_ok cs then Some (digits_value cs) else None)
           else (if digits_ok (c # cs) then Some (digits_value (c # cs)) else None)))"

definition py_int :: "pyval \<Rightarrow> int option" where
  \<comment> \<open>\<open>int(v)\<close>; \<open>None\<close> where it raises \<open>TypeError\<close> or \<open>ValueError\<close>\<close>
  "py_int v =
     (case v of PInt i \<Rightarrow> Some i
      | PBool b \<Rightarrow> Some (if b then 1 else 0)
      | PStr s \<Rightarrow> int_of_str s
      | _ \<Rightarrow> None)"


section \<open>Exceptions\<close>

text \<open>
  An exception is its class, as far as the handlers of the programs tell classes apart, its
  \<open>errno\<close> and its message \<open>str(e)\<close>. \<open>ConnectionError\<close> and \<open>PermissionError\<close> are
  subclasses of \<open>OSError\<close>.
\<close>

datatype exc_class = AsyncioTimeoutError | ConnectionError | PermissionError | OtherOSError
  | RuntimeError | TypeError | OtherException

datatype py_exception = Exc (exc_class: exc_class) (exc_errno: "int option") (exc_str: string)

definition is_OSError :: "exc_class \<Rightarrow> bool" where
  \<comment> \<open>\<open>isinstance(error, (ConnectionError, OSError))\<close>\<close>
  "is_OSError k = (k = ConnectionError \<or> k = PermissionError \<or> k = OtherOSError)"


section \<open>Retry strategies: \<open>sparc_phase4_decision_engine.py\<close>\<close>

text \<open>
  The \<open>float\<close> fields hold the decimal literals of the source, as rationals.
\<close>

record RetryStrategy =
  name :: string
  max_attempts :: int
  base_delay_sec :: rat
  max_delay_sec :: rat
  backoff_factor :: rat
  jitter :: rat
  retryable :: bool
  reason_rs :: string

definition RetryStrategy_default :: "string \<Rightarrow> int \<Rightarrow> RetryStrategy" where
  \<comment> \<open>the dataclass with the defaults of its other fields\<close>
  "RetryStrategy_default n m =
     \<lparr> name = n, max_attempts = m, base_delay_sec = 1, max_delay_sec = 30, backoff_factor = 2,
       jitter = 2 / 10, retryable = True, reason_rs = [] \<rparr>"

definition should_retry :: "RetryStrategy \<Rightarrow> int \<Rightarrow> bool" where
  "should_retry s attempt = (retryable s \<and> attempt < max_attempts s)"

definition get_retry_strategy :: "py_exception \<Rightarrow> RetryStrategy" where
  "get_retry_strategy error =
     (if exc_class error = AsyncioTimeoutError
      then (RetryStrategy_default ''timeout'' 3)
             \<lparr> base_delay_sec := 1, backoff_factor := 2, jitter := 3 / 10,
               reason_rs := ''Timeout while waiting for page or element'' \<rparr>
      else if is_OSError (exc_class error)
      then (RetryStrategy_default ''network'' 5)
             \<lparr> base_delay_sec := 3 / 2, backoff_factor := 2, jitter := 2 / 10,
               reason_rs := ''Network or transport error'' \<rparr>
      else (let error_text = lower (exc_str error)
            in if contains error_text ''timeout''
               then (RetryStrategy_default ''timeout'' 3)
                      \<lparr> base_delay_sec := 1, backoff_factor := 2, jitter := 3 / 10,
                        reason_rs := ''Timeout reported by error message'' \<rparr>
               else if contains error_text ''captcha''
               then (RetryStrategy_default ''captcha'' 1)
                      \<lparr> base_delay_sec := 5, backoff_factor := 1, jitter := 0,
                        reason_rs := ''Captcha detected; allow manual resolution'' \<rparr>
               else if list_ex (\<lambda>token. contains error_text token)
                         [''invalid'', ''not found'', ''missing'']
               then (RetryStrategy_default ''non_retryable'' 0)
                      \<lparr> retryable := False,
                        reason_rs := ''Non-retryable input or selector error'' \<rparr>
               else (RetryStrategy_default ''generic'' 2)
                      \<lparr> base_delay_sec := 1, backoff_factor := 2, jitter := 2 / 10,
                        reason_rs := ''Unhandled error; default retry strategy'' \<rparr>))"


section \<open>The decision engine: \<open>sparc_phase4_decision_engine.py\<close>\<close>

datatype ActionType = CLICK | FILL | NAVIGATE | EXTRACT | RETRY

text \<open>
  A metadata entry of an action is a Python value, a \<open>float\<close> score, or the dict that
  \<open>RetryStrategy.to_dict\<close> copies field by field from a strategy.
\<close>

datatype metaval = MVal pyval | MFloat rat | MStrategy RetryStrategy

record Action =
  action_type :: ActionType
  selector :: pyval
  value_a :: "string option"
  url :: pyval
  description :: string
  reason :: string
  confidence :: rat
  metadata :: "(string \<times> metaval) list"

definition Action_default :: "ActionType \<Rightarrow> Action" where
  \<comment> \<open>the dataclass with the defaults of its other fields\<close>
  "Action_default t =
     \<lparr> action_type = t, selector = PNone, value_a = None, url = PNone, description = [],
       reason = [], confidence = 0, metadata = [] \<rparr>"

text \<open>
  A result of the automation layer is a Python value or an object with attributes.
\<close>

datatype result_val = RVal pyval | RObj pydict

record DecisionContext =
  url_ctx :: string
  dom :: string
  visible_elements :: "pyval list"
  intent :: pydict
  errors_ctx :: "string list"
  last_action :: "Action option"
  last_result :: result_val
  last_error :: "py_exception option"
  retry_count :: int
  history :: "Action list"
  decision_log :: "(rat \<times> Action) list"
  metadata_ctx :: pydict

record PageAnalysis =
  url_pa :: string
  dom_text :: string
  visible_elements_pa :: "pydict list"
  clickables :: "pydict list"
  inputs :: "pydict list"
  errors_pa :: "string list"
  signals :: "(string \<times> bool) list"

definition record_decision :: "rat \<Rightarrow> DecisionContext \<Rightarrow> Action \<Rightarrow> DecisionContext" where
  \<comment> \<open>\<open>t\<close> is the \<open>time.time()\<close> of the log entry\<close>
  "record_decision t ctx action =
     ctx \<lparr> last_action := Some action, history := history ctx @ [action],
           decision_log := decision_log ctx @ [(t, action)] \<rparr>"

fun collapse_spaces :: "bool \<Rightarrow> string \<Rightarrow> string" where
  \<comment> \<open>\<open>re.sub(r"\s+", " ", s)\<close>: \<open>collapse_spaces False s\<close>, the flag telling that the
      character before was white space\<close>
  "collapse_spaces in_run [] = []"
| "collapse_spaces in_run (c # cs) =
     (if is_space c
      then (if in_run then collapse_spaces True cs else CHR '' '' # collapse_spaces True cs)
      else c # collapse_spaces False cs)"

definition normalize_text :: "string \<Rightarrow> string" where
  "normalize_text text =
     (if text = [] then [] else strip (collapse_spaces False (lower text)))"

definition coerce_elements :: "pyval list \<Rightarrow> pydict list" where
  "coerce_elements elements =
     map (\<lambda>item. case item of
            PDict d \<Rightarrow> d
          | PStr t \<Rightarrow> [(''text'', PStr t), (''visible'', PBool True)]
          | other \<Rightarrow> [(''text'', PStr (py_str other)), (''visible'', PBool True)]) elements"

definition element_text :: "pydict \<Rightarrow> string" where
  "element_text element =
     (let parts = map (dict_get element)
                    [''text'', ''label'', ''aria_label'', ''name'', ''placeholder'', ''value''];
          combined = join '' '' (map py_str (filter truthy parts))
      in normalize_text combined)"

definition extract_errors :: "string \<Rightarrow> pydict list \<Rightarrow> string list \<Rightarrow> string list" where
  "extract_errors dt elements errs =
     (let found = errs;
          found1 = (if contains dt ''error'' \<or> contains dt ''failed''
                       \<or> contains dt ''try again''
                    then found @ [''dom_error_marker''] else found)
      in foldl (\<lambda>acc el.
                  (let t = element_text el
                   in if list_ex (\<lambda>token. contains t token)
                           [''error'', ''failed'', ''invalid'', ''try again'']
                      then acc @ [t] else acc))
           found1 elements)"

definition is_clickable :: "pydict \<Rightarrow> bool" where
  "is_clickable element =
     (if map_of element ''visible'' = Some (PBool False) then False
      else (let role = lower (py_str (dict_get_default element ''role'' (PStr [])));
                tag = lower (py_str (dict_get_default element ''tag'' (PStr [])))
            in if map_of element ''clickable'' = Some (PBool True) then True
               else if role \<in> set [''button'', ''link'', ''menuitem'', ''tab''] then True
               else if tag \<in> set [''button'', ''a''] then True
               else False))"

definition is_input :: "pydict \<Rightarrow> bool" where
  "is_input element =
     (if map_of element ''visible'' = Some (PBool False) then False
      else (let role = lower (py_str (dict_get_default element ''role'' (PStr [])));
                tag = lower (py_str (dict_get_default element ''tag'' (PStr [])));
                input_type = lower (py_str (dict_get_default element ''type'' (PStr [])))
            in if role \<in> set [''textbox'', ''combobox'', ''searchbox''] then True
               else if tag \<in> set [''input'', ''textarea'', ''select''] then True
               else if input_type \<in> set [''text'', ''email'', ''password'', ''search'', ''tel'', ''url'']
                    then True
               else False))"

definition detect_login :: "string \<Rightarrow> string \<Rightarrow> pydict list \<Rightarrow> bool" where
  "detect_login dt u elements =
     (if list_ex (\<lambda>token. contains (lower u) token) [''login'', ''signin'', ''sign-in''] then True
      else if list_ex (\<lambda>token. contains dt token) [''password'', ''sign in'', ''log in'']
           then True
      else list_ex (\<lambda>el. list_ex (\<lambda>token. contains (element_text el) token)
                            [''sign in'', ''log in'', ''password'']) elements)"

definition detect_captcha :: "string \<Rightarrow> bool" where
  "detect_captcha dt =
     list_ex (\<lambda>token. contains dt token) [''captcha'', ''recaptcha'', ''hcaptcha'']"

definition analyze :: "DecisionContext \<Rightarrow> PageAnalysis" where
  "analyze ctx =
     (let u = url_ctx ctx;
          dt = normalize_text (dom ctx);
          visible = coerce_elements (visible_elements ctx);
          cl = filter is_clickable visible;
          ins = filter is_input visible;
          errs = extract_errors dt visible (errors_ctx ctx)
      in \<lparr> url_pa = u, dom_text = dt, visible_elements_pa = visible, clickables = cl,
           inputs = ins, errors_pa = errs,
           signals = [(''has_error'', errs \<noteq> []), (''has_inputs'', ins \<noteq> []),
                      (''has_clickables'', cl \<noteq> []),
                      (''is_login'', detect_login dt u visible),
                      (''has_captcha'', detect_captcha dt)] \<rparr>)"

definition signal :: "PageAnalysis \<Rightarrow> string \<Rightarrow> bool" where
  \<comment> \<open>the truth of \<open>analysis.signals.get(k)\<close>\<close>
  "signal an k = (map_of (signals an) k = Some True)"

definition evaluate_result :: "result_val \<Rightarrow> bool" where
  "evaluate_result result =
     (case result of
        RVal PNone \<Rightarrow> False
      | RVal (PBool b) \<Rightarrow> b
      | RVal (PDict d) \<Rightarrow>
          (if has_key d ''success'' then truthy (dict_get d ''success'')
           else if has_key d ''ok'' then truthy (dict_get d ''ok'')
           else if has_key d ''status''
                then lower (py_str (dict_get d ''status''))
                       \<in> set [''ok'', ''success'', ''completed'', ''done'', ''true'']
           else if has_key d ''error'' then False
           else True)
      | RVal _ \<Rightarrow> True
      | RObj attrs \<Rightarrow>
          (if has_key attrs ''ok'' then truthy (dict_get attrs ''ok'')
           else if has_key attrs ''status''
                then (case py_int (dict_get attrs ''status'') of
                        Some status_val \<Rightarrow> 200 \<le> status_val \<and> status_val < 300
                      | None \<Rightarrow> True)
           else True))"

definition maybe_retry :: "DecisionContext \<Rightarrow> Action option" where
  "maybe_retry ctx =
     (if last_result ctx = RVal PNone then None
      else if evaluate_result (last_result ctx) then None
      else (let strategy = map_option get_retry_strategy (last_error ctx)
            in case strategy of
                 None \<Rightarrow>
                   Some ((Action_default RETRY)
                           \<lparr> reason := ''last_result_failed'',
                             description := ''Last action failed; retrying'',
                             confidence := 5 / 10,
                             metadata := [(''strategy'', MVal PNone)] \<rparr>)
               | Some st \<Rightarrow>
                   (if \<not> retryable st then None
                    else if \<not> should_retry st (retry_count ctx)
                    then Some ((Action_default RETRY)
                                 \<lparr> reason := ''retry_exhausted'',
                                   description := ''Retry limit reached for last error'',
                                   confidence := 2 / 10,
                                   metadata := [(''strategy'', MStrategy st)] \<rparr>)
                    else Some ((Action_default RETRY)
                                 \<lparr> reason := ''last_result_failed'',
                                   description := ''Last action failed; retrying'',
                                   confidence := 5 / 10,
                                   metadata := [(''strategy'', MStrategy st)] \<rparr>))))"

fun first_truthy :: "pyval list \<Rightarrow> pyval" where
  "first_truthy [] = PNone"
| "first_truthy (v # vs) = (if truthy v then v else first_truthy vs)"

definition type_name :: "pyval \<Rightarrow> string" where
  "type_name v =
     (case v of PNone \<Rightarrow> ''NoneType'' | PBool b \<Rightarrow> ''bool'' | PInt i \<Rightarrow> ''int''
      | PStr t \<Rightarrow> ''str'' | PList xs \<Rightarrow> ''list'' | PDict d \<Rightarrow> ''dict'')"

definition url_matches :: "string \<Rightarrow> pyval \<Rightarrow> py_exception + bool" where
  \<comment> \<open>\<open>str.startswith\<close> raises \<open>TypeError\<close> on a target that is not a string\<close>
  "url_matches current_url target_url =
     (if current_url = [] \<or> \<not> truthy target_url then Inr False
      else (case target_url of
              PStr t \<Rightarrow>
                (if current_url = t then Inr True
                 else if startswith current_url t then Inr True
                 else Inr (contains current_url t))
            | other \<Rightarrow>
                Inl (Exc TypeError None
                       (''startswith first arg must be str or a tuple of str, not ''
                          @ type_name other))))"

definition maybe_navigate :: "DecisionContext \<Rightarrow> PageAnalysis \<Rightarrow> py_exception + Action option" where
  "maybe_navigate ctx an =
     (let target_url = first_truthy [dict_get (intent ctx) ''target_url'',
                                     dict_get (metadata_ctx ctx) ''target_url'']
      in if \<not> truthy target_url then Inr None
         else (case url_matches (url_pa an) target_url of
                 Inl e \<Rightarrow> Inl e
               | Inr True \<Rightarrow> Inr None
               | Inr False \<Rightarrow>
                   Inr (Some ((Action_default NAVIGATE)
                                \<lparr> url := target_url, reason := ''target_url_mismatch'',
                                  description := ''Navigate to target URL: '' @ py_str target_url,
                                  confidence := 9 / 10 \<rparr>))))"

definition maybe_extract :: "DecisionContext \<Rightarrow> PageAnalysis \<Rightarrow> Action option" where
  "maybe_extract ctx an =
     (let extract_targets = first_truthy [dict_get (intent ctx) ''extract'',
                                          dict_get (intent ctx) ''extract_selectors'',
                                          dict_get (metadata_ctx ctx) ''extract'',
                                          dict_get (metadata_ctx ctx) ''extract_selectors'']
      in if \<not> truthy extract_targets then None
         else Some ((Action_default EXTRACT)
                      \<lparr> reason := ''extraction_requested'',
                        description := ''Extraction targets provided in intent'',
                        confidence := 8 / 10,
                        metadata := [(''targets'', MVal extract_targets)] \<rparr>))"

definition is_filled :: "pydict \<Rightarrow> bool" where
  "is_filled element =
     (case dict_get element ''value'' of
        PNone \<Rightarrow> False
      | PStr t \<Rightarrow> strip t \<noteq> []
      | v \<Rightarrow> truthy v)"

definition score_match :: "string \<Rightarrow> string \<Rightarrow> rat" where
  "score_match element_text0 field_key0 =
     (if element_text0 = [] \<or> field_key0 = [] then 0
      else (let et = normalize_text element_text0;
                fk = normalize_text field_key0
            in if et = fk then 1
               else if contains et fk then 8 / 10
               else if contains fk et then 6 / 10
               else (let tokens = split_ws [] fk
                     in if tokens \<noteq> [] \<and> list_ex (\<lambda>token. contains et token) tokens
                        then 4 / 10 else 0)))"

definition better_input ::
  "pydict \<Rightarrow> (pydict \<times> string \<times> pyval \<times> rat) option \<Rightarrow> string \<times> pyval
     \<Rightarrow> (pydict \<times> string \<times> pyval \<times> rat) option" where
  \<comment> \<open>the body of the inner loop of \<open>_select_best_input\<close>\<close>
  "better_input element best kv =
     (let score = score_match (element_text element) (fst kv)
      in if score \<le> 0 then best
         else (case best of
                 None \<Rightarrow> Some (element, fst kv, snd kv, score)
               | Some (be, bk, bv, bs) \<Rightarrow>
                   if score > bs then Some (element, fst kv, snd kv, score) else best))"

definition select_best_input ::
  "pydict list \<Rightarrow> pydict \<Rightarrow> (pydict \<times> string \<times> pyval \<times> rat) option" where
  "select_best_input ins form_data =
     foldl (\<lambda>best element.
              if is_filled element then best
              else foldl (better_input element) best form_data)
       None ins"

definition select_search_input :: "pydict list \<Rightarrow> pydict option" where
  "select_search_input ins =
     find (\<lambda>element. \<not> is_filled element
             \<and> (contains (element_text element) ''search''
                \<or> lower (py_str (dict_get_default element ''type'' (PStr []))) = ''search''))
       ins"

definition priority :: "string list" where
  "priority = [''continue'', ''next'', ''submit'', ''save'', ''ok'', ''yes'', ''allow'', ''accept'',
               ''sign in'', ''log in'', ''login'', ''create'', ''start'', ''finish'', ''done'']"

definition better_click ::
  "pydict \<Rightarrow> (pydict \<times> string \<times> rat) option \<Rightarrow> nat \<times> string
     \<Rightarrow> (pydict \<times> string \<times> rat) option" where
  \<comment> \<open>the body of the inner loop of \<open>_select_best_click\<close>\<close>
  "better_click element best rl =
     (if contains (element_text element) (snd rl)
      then (let score = 1 - rat_of_nat (fst rl) / rat_of_nat (max 1 (length priority))
            in case best of
                 None \<Rightarrow> Some (element, snd rl, score)
               | Some (be, bl, bs) \<Rightarrow>
                   if score > bs then Some (element, snd rl, score) else best)
      else best)"

definition select_best_click :: "pydict list \<Rightarrow> (pydict \<times> string \<times> rat) option" where
  "select_best_click cl =
     foldl (\<lambda>best element.
              foldl (better_click element) best (zip [0 ..< length priority] priority))
       None cl"

definition match_click_text :: "pydict list \<Rightarrow> string \<Rightarrow> pydict option" where
  "match_click_text cl target_text =
     (let target = normalize_text target_text
      in if target = [] then None
         else find (\<lambda>element. contains (element_text element) target) cl)"

definition maybe_fill :: "DecisionContext \<Rightarrow> PageAnalysis \<Rightarrow> Action option" where
  "maybe_fill ctx an =
     (if inputs an = [] then None
      else (let form_data = first_truthy [dict_get (intent ctx) ''form_data'',
                                          dict_get (intent ctx) ''inputs'',
                                          dict_get (metadata_ctx ctx) ''form_data''];
                candidate = (case form_data of
                               PDict d \<Rightarrow>
                                 (if d \<noteq> [] then select_best_input (inputs an) d else None)
                             | _ \<Rightarrow> None)
            in case candidate of
                 Some (element, field_key, v, score) \<Rightarrow>
                   Some ((Action_default FILL)
                           \<lparr> selector := dict_get element ''selector'',
                             value_a := Some (py_str v),
                             reason := ''fill_field:'' @ field_key,
                             description := ''Fill input based on form_data mapping'',
                             confidence := min 1 (4 / 10 + score * (6 / 10)),
                             metadata := [(''field'', MVal (PStr field_key)),
                                          (''match_score'', MFloat score)] \<rparr>)
               | None \<Rightarrow>
                   (let query_value = first_truthy [dict_get (intent ctx) ''query'',
                                                    dict_get (intent ctx) ''text'',
                                                    dict_get (intent ctx) ''value'']
                    in if truthy query_value
                       then (case select_search_input (inputs an) of
                               Some search_input \<Rightarrow>
                                 (if search_input \<noteq> []
                                  then Some ((Action_default FILL)
                                               \<lparr> selector := dict_get search_input ''selector'',
                                                 value_a := Some (py_str query_value),
                                                 reason := ''fill_search_query'',
                                                 description := ''Fill search input with query'',
                                                 confidence := 6 / 10 \<rparr>)
                                  else None)
                             | None \<Rightarrow> None)
                       else None)))"

definition click_candidate :: "PageAnalysis \<Rightarrow> Action option" where
  \<comment> \<open>the end of \<open>_maybe_click\<close>, from \<open>_select_best_click\<close> on\<close>
  "click_candidate an =
     (case select_best_click (clickables an) of
        None \<Rightarrow> None
      | Some (element, label, score) \<Rightarrow>
          Some ((Action_default CLICK)
                  \<lparr> selector := dict_get element ''selector'',
                    reason := ''click_candidate:'' @ label,
                    description := ''Click highest-priority visible element'',
                    confidence := min 1 (3 / 10 + score * (7 / 10)),
                    metadata := [(''label'', MVal (PStr label)), (''score'', MFloat score)] \<rparr>))"

definition maybe_click :: "DecisionContext \<Rightarrow> PageAnalysis \<Rightarrow> Action option" where
  "maybe_click ctx an =
     (if clickables an = [] then None
      else (let selector_override = dict_get (intent ctx) ''click_selector''
            in if truthy selector_override
               then Some ((Action_default CLICK)
                            \<lparr> selector := PStr (py_str selector_override),
                              reason := ''click_selector_override'',
                              description := ''Click selector provided by intent'',
                              confidence := 8 / 10 \<rparr>)
               else (let text_override = dict_get (intent ctx) ''click_text''
                     in case (if truthy text_override
                              then match_click_text (clickables an) (py_str text_override)
                              else None) of
                          Some m \<Rightarrow>
                            Some ((Action_default CLICK)
                                    \<lparr> selector := dict_get m ''selector'',
                                      reason := ''click_text_override'',
                                      description := ''Click element matching intent text'',
                                      confidence := 7 / 10,
                                      metadata := [(''matched_text'', MVal text_override)] \<rparr>)
                        | None \<Rightarrow> click_candidate an)))"

definition select_rest :: "DecisionContext \<Rightarrow> PageAnalysis \<Rightarrow> py_exception + Action" where
  \<comment> \<open>\<open>_select_action\<close> after its call of \<open>_maybe_retry\<close>\<close>
  "select_rest ctx an =
     (if signal an ''has_captcha''
      then Inr ((Action_default RETRY)
                  \<lparr> reason := ''captcha_detected'',
                    description := ''Captcha detected; retrying after delay'',
                    confidence := 2 / 10,
                    metadata := [(''requires_manual'', MVal (PBool True))] \<rparr>)
      else if signal an ''has_error''
      then Inr ((Action_default RETRY)
                  \<lparr> reason := ''page_error_detected'',
                    description := ''Detected error markers in DOM or visible elements'',
                    confidence := 4 / 10,
                    metadata := [(''errors'', MVal (PList (map PStr (errors_pa an))))] \<rparr>)
      else (case maybe_navigate ctx an of
              Inl e \<Rightarrow> Inl e
            | Inr (Some navigate_action) \<Rightarrow> Inr navigate_action
            | Inr None \<Rightarrow>
                (case maybe_extract ctx an of
                   Some extract_action \<Rightarrow> Inr extract_action
                 | None \<Rightarrow>
                     (case maybe_fill ctx an of
                        Some fill_action \<Rightarrow> Inr fill_action
                      | None \<Rightarrow>
                          (case maybe_click ctx an of
                             Some click_action \<Rightarrow> Inr click_action
                           | None \<Rightarrow>
                               Inr ((Action_default RETRY)
                                      \<lparr> reason := ''no_action_candidates'',
                                        description :=
                                          ''No clear action candidates; retrying after delay'',
                                        confidence := 1 / 10 \<rparr>))))))"

definition select_action :: "DecisionContext \<Rightarrow> PageAnalysis \<Rightarrow> py_exception + Action" where
  "select_action ctx an =
     (case maybe_retry ctx of
        Some retry_action \<Rightarrow> Inr retry_action
      | None \<Rightarrow> select_rest ctx an)"

definition decide :: "rat \<Rightarrow> DecisionContext \<Rightarrow> py_exception + Action \<times> DecisionContext" where
  \<comment> \<open>the action returned and the context after \<open>record_decision\<close>; \<open>Inl\<close> when
      \<open>_select_action\<close> raises\<close>
  "decide t ctx =
     (case select_action ctx (analyze ctx) of
        Inl e \<Rightarrow> Inl e
      | Inr action \<Rightarrow> Inr (action, record_decision t ctx action))"


section \<open>Files and the profile: \<open>save_token_to_env\<close>\<close>

subsection \<open>Text files\<close>

text \<open>
  The file system is a map from paths to contents. Every call that can fail (opening and
  reading, opening and writing, \<open>touch\<close>, \<open>chmod\<close>) takes its outcome from a script,
  \<open>faults\<close>, in the order of the calls; past the end of the script a call succeeds. A write
  fails either before the file is opened, leaving it as it was, or after it was truncated
  and some characters were written. The trace records what was done to which file.

  The program opens its files in text mode. Reading translates every line ending to a
  line feed; writing, on the POSIX systems that have a \<open>~/.zshrc\<close>, leaves the text as it
  is. A file that cannot be decoded is a read that fails.
\<close>

definition carriage_return :: char where
  "carriage_return = CHR 0x0D"

definition backslash :: char where
  "backslash = CHR 0x5C"

fun universal_newlines :: "string \<Rightarrow> string" where
  \<comment> \<open>what a text-mode \<open>read()\<close> gives for the stored characters: \<open>\r\n\<close> and \<open>\r\<close> become
      \<open>\n\<close>\<close>
  "universal_newlines [] = []"
| "universal_newlines [c] = (if c = carriage_return then [newline] else [c])"
| "universal_newlines (c # d # cs) =
     (if c = carriage_return \<and> d = newline then newline # universal_newlines cs
      else if c = carriage_return then newline # universal_newlines (d # cs)
      else c # universal_newlines (d # cs))"

datatype outcome = Succeeds | Fails py_exception | FailsAfter nat py_exception

datatype event = Read string | Wrote string string | WriteFailed string | Touched string
  | Chmod string nat

record world =
  files :: "string \<rightharpoonup> string"
  symlinks :: "string \<rightharpoonup> string"
  modes :: "string \<rightharpoonup> nat"
  home :: "string option"
  user_home :: "string option"
  passwd :: "string \<rightharpoonup> string"
  now :: string
  faults :: "outcome list"
  trace :: "event list"

record PersistResult =
  success :: bool
  backup_path :: "string option"
  env_var_name :: string
  error_message :: "string option"
  verified :: bool

definition PersistResult_failure :: "string option \<Rightarrow> string \<Rightarrow> PersistResult" where
  \<comment> \<open>\<open>PersistResult(success=False, backup_path=..., error_message=...)\<close>, the other
      fields at their defaults\<close>
  "PersistResult_failure bp msg =
     \<lparr> success = False, backup_path = bp, env_var_name = ''OP_SERVICE_ACCOUNT_TOKEN'',
       error_message = Some msg, verified = False \<rparr>"

definition next_outcome :: "world \<Rightarrow> outcome \<times> world" where
  "next_outcome w =
     (case faults w of [] \<Rightarrow> (Succeeds, w) | f # fs \<Rightarrow> (f, w \<lparr> faults := fs \<rparr>))"

definition failure_of :: "outcome \<Rightarrow> py_exception option" where
  "failure_of f = (case f of Succeeds \<Rightarrow> None | Fails e \<Rightarrow> Some e | FailsAfter n e \<Rightarrow> Some e)"

definition file_not_found_error :: "string \<Rightarrow> py_exception" where
  "file_not_found_error path =
     Exc OtherOSError (Some 2) (''[Errno 2] No such file or directory: '' @ repr_str path)"

definition read_file :: "string \<Rightarrow> world \<Rightarrow> (py_exception + string) \<times> world" where
  \<comment> \<open>\<open>with open(path, 'r') as f: f.read()\<close>\<close>
  "read_file path w =
     (case next_outcome w of (f, w1) \<Rightarrow>
        (case failure_of f of
           Some e \<Rightarrow> (Inl e, w1)
         | None \<Rightarrow>
             (case files w1 path of
                None \<Rightarrow> (Inl (file_not_found_error path), w1)
              | Some c \<Rightarrow>
                  (Inr (universal_newlines c), w1 \<lparr> trace := trace w1 @ [Read path] \<rparr>))))"

definition write_file :: "string \<Rightarrow> string \<Rightarrow> world \<Rightarrow> (py_exception + unit) \<times> world" where
  \<comment> \<open>\<open>with open(path, 'w') as f: f.write(content)\<close>\<close>
  "write_file path content w =
     (case next_outcome w of (f, w1) \<Rightarrow>
        (case f of
           Succeeds \<Rightarrow>
             (Inr (), w1 \<lparr> files := (files w1)(path \<mapsto> content),
                            trace := trace w1 @ [Wrote path content] \<rparr>)
         | Fails e \<Rightarrow> (Inl e, w1 \<lparr> trace := trace w1 @ [WriteFailed path] \<rparr>)
         | FailsAfter n e \<Rightarrow>
             (Inl e, w1 \<lparr> files := (files w1)(path \<mapsto> take n content),
                            trace := trace w1 @ [WriteFailed path] \<rparr>)))"

definition touch :: "string \<Rightarrow> world \<Rightarrow> (py_exception + unit) \<times> world" where
  \<comment> \<open>\<open>Path(path).touch()\<close>\<close>
  "touch path w =
     (case next_outcome w of (f, w1) \<Rightarrow>
        (case failure_of f of
           Some e \<Rightarrow> (Inl e, w1)
         | None \<Rightarrow>
             (Inr (), w1 \<lparr> files := (case files w1 path of
                                         None \<Rightarrow> (files w1)(path \<mapsto> [])
                                       | Some c \<Rightarrow> files w1),
                            trace := trace w1 @ [Touched path] \<rparr>)))"

definition chmod :: "string \<Rightarrow> nat \<Rightarrow> world \<Rightarrow> (py_exception + unit) \<times> world" where
  \<comment> \<open>\<open>os.chmod(path, mode)\<close>\<close>
  "chmod path mode w =
     (case next_outcome w of (f, w1) \<Rightarrow>
        (case failure_of f of
           Some e \<Rightarrow> (Inl e, w1)
         | None \<Rightarrow>
             (if files w1 path = None then (Inl (file_not_found_error path), w1)
              else (Inr (), w1 \<lparr> modes := (modes w1)(path \<mapsto> mode),
                                  trace := trace w1 @ [Chmod path mode] \<rparr>))))"

definition path_exists :: "world \<Rightarrow> string \<Rightarrow> bool" where
  \<comment> \<open>\<open>os.path.exists(path)\<close>\<close>
  "path_exists w path = (files w path \<noteq> None)"

definition rstrip_slash :: "string \<Rightarrow> string" where
  \<comment> \<open>\<open>userhome.rstrip('/')\<close>\<close>
  "rstrip_slash s = rev (dropWhile (\<lambda>c. c = CHR ''/'') (rev s))"

definition expanduser :: "world \<Rightarrow> string \<Rightarrow> string" where
  \<comment> \<open>\<open>os.path.expanduser(path)\<close> of \<open>posixpath\<close>: \<open>~\<close> is the variable \<open>HOME\<close> or, without
      it, the home directory of the current user; \<open>~name\<close> is the home directory of that
      user; where the password database has no entry the path is left as it is\<close>
  "expanduser w path =
     (if \<not> startswith path ''~'' then path
      else (let i = 1 + length (takeWhile (\<lambda>c. c \<noteq> CHR ''/'') (tl path));
                userhome = (if i = 1
                            then (case home w of None \<Rightarrow> user_home w | Some h \<Rightarrow> Some h)
                            else passwd w (take (i - 1) (tl path)))
            in case userhome of
                 None \<Rightarrow> path
               | Some h \<Rightarrow>
                   (if rstrip_slash h @ drop i path = [] then ''/''
                    else rstrip_slash h @ drop i path)))"

definition resolve_profile :: "world \<Rightarrow> string \<Rightarrow> string" where
  \<comment> \<open>the path after \<open>expanduser\<close> and, for a symbolic link, \<open>os.path.realpath\<close>\<close>
  "resolve_profile w path0 =
     (let path1 = expanduser w path0
      in case symlinks w path1 of Some real_path \<Rightarrow> real_path | None \<Rightarrow> path1)"

subsection \<open>Replacement templates of \<open>re.sub\<close>\<close>

text \<open>
  \<open>pattern.sub(repl, string)\<close> reads a string \<open>repl\<close> as a template: a backslash starts an
  escape, a group reference or an octal code, and a template that cannot be read raises
  \<open>re.error\<close> (or \<open>IndexError\<close> for an unknown group name). What follows is
  \<open>parse_template\<close> of CPython 3.12 for a pattern without groups, as \<open>export_pattern\<close> is.
  Both exceptions are of the class \<open>OtherException\<close> here.
\<close>

datatype template_item = Literal string | Group nat

fun tokens :: "string \<Rightarrow> string list" where
  \<comment> \<open>the tokens of \<open>Tokenizer\<close>: a backslash goes with the character after it\<close>
  "tokens [] = []"
| "tokens [c] = [[c]]"
| "tokens (c # d # cs) = (if c = backslash then [c, d] # tokens cs else [c] # tokens (d # cs))"

definition re_error :: "string \<Rightarrow> string \<Rightarrow> nat \<Rightarrow> py_exception" where
  \<comment> \<open>\<open>re.error(msg, pattern, pos)\<close>\<close>
  "re_error msg src pos =
     Exc OtherException None
       (msg @ '' at position '' @ str_of_nat pos
          @ (if newline \<in> set src
             then '' (line '' @ str_of_nat (count_list (take pos src) newline + 1)
                    @ '', column ''
                    @ str_of_nat (length (takeWhile (\<lambda>c. c \<noteq> newline) (rev (take pos src))) + 1)
                    @ '')''
             else []))"

definition bad_end :: "string list \<Rightarrow> bool" where
  \<comment> \<open>the tokenizer cannot look ahead: what is left is one backslash\<close>
  "bad_end ts = (case ts of [] \<Rightarrow> False | u # us \<Rightarrow> u = [backslash])"

definition bad_escape_end :: "string \<Rightarrow> py_exception" where
  "bad_escape_end src = re_error ''bad escape (end of pattern)'' src (length src - 1)"

fun getuntil :: "string \<Rightarrow> nat \<Rightarrow> string \<Rightarrow> nat \<Rightarrow> string list \<Rightarrow> py_exception + string \<times> nat" where
  \<comment> \<open>\<open>s.getuntil(">", "group name")\<close> with the tokenizer at position \<open>pos\<close>: the name,
      and the number of tokens taken, the \<open>>\<close> included\<close>
  "getuntil src pos nm n [] =
     Inl (if nm = [] then re_error ''missing group name'' src pos
          else re_error ''missing >, unterminated name'' src (pos - length nm))"
| "getuntil src pos nm n (t # ts) =
     (if bad_end ts then Inl (bad_escape_end src)
      else if t = ''>''
      then (if nm = [] then Inl (re_error ''missing group name'' src pos)
            else Inr (nm, Suc n))
      else getuntil src (pos + length t) (nm @ t) (Suc n) ts)"

definition is_ascii_letter :: "char \<Rightarrow> bool" where
  "is_ascii_letter c = (in_range CHR ''a'' CHR ''z'' c \<or> in_range CHR ''A'' CHR ''Z'' c)"

definition xid_start :: "char \<Rightarrow> bool" where
  \<comment> \<open>the characters that can start an identifier, below code point 256\<close>
  "xid_start c =
     (is_ascii_letter c \<or> c = CHR ''_'' \<or> c = CHR 0xAA \<or> c = CHR 0xB5 \<or> c = CHR 0xBA
        \<or> in_range (CHR 0xC0) (CHR 0xD6) c \<or> in_range (CHR 0xD8) (CHR 0xF6) c
        \<or> in_range (CHR 0xF8) (CHR 0xFF) c)"

definition xid_continue :: "char \<Rightarrow> bool" where
  "xid_continue c = (xid_start c \<or> is_digit c \<or> c = CHR 0xB7)"

definition is_identifier :: "string \<Rightarrow> bool" where
  \<comment> \<open>\<open>name.isidentifier()\<close>\<close>
  "is_identifier nm = (nm \<noteq> [] \<and> xid_start (hd nm) \<and> list_all xid_continue (tl nm))"

definition is_decimal :: "string \<Rightarrow> bool" where
  \<comment> \<open>\<open>name.isdecimal() and name.isascii()\<close>\<close>
  "is_decimal nm = (nm \<noteq> [] \<and> list_all is_digit nm)"

definition value_in_base :: "nat \<Rightarrow> string \<Rightarrow> nat" where
  \<comment> \<open>\<open>int(digits, base)\<close> of a string of digits\<close>
  "value_in_base b digits = foldl (\<lambda>a c. b * a + (of_char c - 48)) 0 digits"

definition is_oct_token :: "string \<Rightarrow> bool" where
  \<comment> \<open>\<open>s.next in OCTDIGITS\<close>\<close>
  "is_oct_token t = (length t = 1 \<and> in_range CHR ''0'' CHR ''7'' (hd t))"

definition is_digit_token :: "string \<Rightarrow> bool" where
  \<comment> \<open>\<open>s.next in DIGITS\<close>\<close>
  "is_digit_token t = (length t = 1 \<and> is_digit (hd t))"

definition escape_char :: "char \<Rightarrow> char option" where
  \<comment> \<open>the table \<open>ESCAPES\<close>\<close>
  "escape_char c =
     (if c = CHR ''a'' then Some (CHR 0x07) else if c = CHR ''b'' then Some (CHR 0x08)
      else if c = CHR ''f'' then Some (CHR 0x0C) else if c = CHR ''n'' then Some (CHR 0x0A)
      else if c = CHR ''r'' then Some (CHR 0x0D) else if c = CHR ''t'' then Some (CHR 0x09)
      else if c = CHR ''v'' then Some (CHR 0x0B) else if c = backslash then Some backslash
      else None)"

definition invalid_group_reference :: "string \<Rightarrow> nat \<Rightarrow> nat \<Rightarrow> py_exception" where
  "invalid_group_reference src index pos =
     re_error (''invalid group reference '' @ str_of_nat index) src pos"

definition named_group :: "string \<Rightarrow> nat \<Rightarrow> string list \<Rightarrow> py_exception + template_item \<times> nat" where
  \<comment> \<open>after \<open>\g\<close>, the tokenizer at position \<open>pos\<close>: only \<open>\g<0>\<close>, the whole match, exists\<close>
  "named_group src pos ts =
     (case ts of
        [] \<Rightarrow> Inl (re_error ''missing <'' src pos)
      | u # us \<Rightarrow>
          (if u \<noteq> ''<'' then Inl (re_error ''missing <'' src pos)
           else if bad_end us then Inl (bad_escape_end src)
           else (case getuntil src (pos + 1) [] 0 us of
                   Inl e \<Rightarrow> Inl e
                 | Inr (nm, n) \<Rightarrow>
                     (if is_decimal nm
                      then (if value_in_base 10 nm = 0 then Inr (Group 0, Suc n)
                            else Inl (invalid_group_reference src (value_in_base 10 nm)
                                        (pos + 1)))
                      else if \<not> is_identifier nm
                      then Inl (re_error (''bad character in group name '' @ repr_str nm)
                                  src (pos + 1))
                      else Inl (Exc OtherException None
                                  (''unknown group name '' @ repr_str nm))))))"

definition octal_from_zero :: "string \<Rightarrow> string list \<Rightarrow> py_exception + template_item \<times> nat" where
  \<comment> \<open>after \<open>\0\<close>: up to two more octal digits\<close>
  "octal_from_zero src ts =
     (case ts of
        [] \<Rightarrow> Inr (Literal [CHR 0x00], 0)
      | d1 # ts1 \<Rightarrow>
          (if \<not> is_oct_token d1 then Inr (Literal [CHR 0x00], 0)
           else if bad_end ts1 then Inl (bad_escape_end src)
           else (case ts1 of
                   [] \<Rightarrow> Inr (Literal [char_of (value_in_base 8 d1)], 1)
                 | d2 # ts2 \<Rightarrow>
                     (if \<not> is_oct_token d2
                      then Inr (Literal [char_of (value_in_base 8 d1)], 1)
                      else if bad_end ts2 then Inl (bad_escape_end src)
                      else Inr (Literal [char_of (value_in_base 8 (d1 @ d2))], 2)))))"

definition numbered_group ::
  "string \<Rightarrow> nat \<Rightarrow> char \<Rightarrow> string list \<Rightarrow> py_exception + template_item \<times> nat" where
  \<comment> \<open>after a backslash at position \<open>pos\<close> and a digit \<open>c\<close> from 1 to 9: three octal digits
      are a character, anything else is a reference to a group that does not exist\<close>
  "numbered_group src pos c ts =
     (case ts of
        [] \<Rightarrow> Inl (invalid_group_reference src (value_in_base 10 [c]) (pos + 1))
      | d1 # ts1 \<Rightarrow>
          (if \<not> is_digit_token d1
           then Inl (invalid_group_reference src (value_in_base 10 [c]) (pos + 1))
           else if bad_end ts1 then Inl (bad_escape_end src)
           else (case ts1 of
                   [] \<Rightarrow> Inl (invalid_group_reference src (value_in_base 10 (c # d1)) (pos + 1))
                 | d2 # ts2 \<Rightarrow>
                     (if in_range CHR ''0'' CHR ''7'' c \<and> is_oct_token d1 \<and> is_oct_token d2
                      then (if bad_end ts2 then Inl (bad_escape_end src)
                            else if value_in_base 8 (c # d1 @ d2) > 255
                            then Inl (re_error (''octal escape value '' @ backslash # c # d1 @ d2
                                                  @ '' outside of range 0-0o377'') src pos)
                            else Inr (Literal [char_of (value_in_base 8 (c # d1 @ d2))], 2))
                      else Inl (invalid_group_reference src (value_in_base 10 (c # d1))
                                  (pos + 1))))))"

definition next_item ::
  "string \<Rightarrow> nat \<Rightarrow> string \<Rightarrow> string list \<Rightarrow> py_exception + template_item \<times> nat" where
  \<comment> \<open>one round of the loop of \<open>parse_template\<close>: the token \<open>t\<close>, at position \<open>pos\<close>, has
      just been taken and \<open>ts\<close> are the tokens after it; the result is the item and the
      number of tokens of \<open>ts\<close> that it used\<close>
  "next_item src pos t ts =
     (if bad_end ts then Inl (bad_escape_end src)
      else if hd t \<noteq> backslash then Inr (Literal t, 0)
      else (let c = t ! 1
            in if c = CHR ''g'' then named_group src (pos + 2) ts
               else if c = CHR ''0'' then octal_from_zero src ts
               else if is_digit c then numbered_group src pos c ts
               else (case escape_char c of
                       Some x \<Rightarrow> Inr (Literal [x], 0)
                     | None \<Rightarrow>
                         (if is_ascii_letter c
                          then Inl (re_error (''bad escape '' @ t) src pos)
                          else Inr (Literal t, 0)))))"

fun parse_items :: "string \<Rightarrow> nat \<Rightarrow> string list \<Rightarrow> py_exception + template_item list" where
  "parse_items src pos [] = Inr []"
| "parse_items src pos (t # ts) =
     (case next_item src pos t ts of
        Inl e \<Rightarrow> Inl e
      | Inr (item, n) \<Rightarrow>
          (case parse_items src (pos + length (concat (t # take n ts))) (drop n ts) of
             Inl e \<Rightarrow> Inl e
           | Inr items \<Rightarrow> Inr (item # items)))"

definition parse_template :: "string \<Rightarrow> py_exception + template_item list" where
  "parse_template src =
     (if bad_end (tokens src) then Inl (bad_escape_end src)
      else parse_items src 0 (tokens src))"

definition expand_template :: "template_item list \<Rightarrow> string \<Rightarrow> string" where
  \<comment> \<open>the replacement for one match: group 0 is the matched text\<close>
  "expand_template items matched =
     concat (map (\<lambda>item. case item of Literal s \<Rightarrow> s | Group k \<Rightarrow> matched) items)"

subsection \<open>The export line\<close>

definition export_literal :: "string \<Rightarrow> string" where
  \<comment> \<open>the literal part of the pattern \<open>^export {re.escape(env_var_name)}=.*$\<close>\<close>
  "export_literal var = ''export '' @ var @ ''=''"

fun search_export :: "string \<Rightarrow> bool \<Rightarrow> string \<Rightarrow> bool" where
  \<comment> \<open>\<open>export_pattern.search(content)\<close> in \<open>MULTILINE\<close> mode, the flag telling that the
      position is the start of a line\<close>
  "search_export lit bol [] = False"
| "search_export lit bol (c # cs) =
     ((bol \<and> lit \<noteq> [] \<and> startswith (c # cs) lit) \<or> search_export lit (c = newline) cs)"

function sub_export :: "string \<Rightarrow> template_item list \<Rightarrow> bool \<Rightarrow> string \<Rightarrow> string" where
  \<comment> \<open>\<open>export_pattern.sub(export_line, content)\<close> with the template already read: every
      match, which is the literal at the start of a line and the rest of that line, is
      replaced by the expansion of the template\<close>
  "sub_export lit items bol [] = []"
| "sub_export lit items bol (c # cs) =
     (if bol \<and> lit \<noteq> [] \<and> startswith (c # cs) lit
      then expand_template items
             (lit @ takeWhile (\<lambda>x. x \<noteq> newline) (drop (length lit) (c # cs)))
             @ sub_export lit items False
                 (dropWhile (\<lambda>x. x \<noteq> newline) (drop (length lit) (c # cs)))
      else c # sub_export lit items (c = newline) cs)"
  by pat_completeness auto
termination
proof (relation "measure (\<lambda>(lit, items, bol, content). length content)")
  show "wf (measure (\<lambda>(lit, items, bol, content). length content))" by simp
next
  fix lit :: string and items :: "template_item list" and bol :: bool and c :: char
    and cs :: string
  assume "bol \<and> lit \<noteq> [] \<and> startswith (c # cs) lit"
  then have "0 < length lit" by simp
  have "length (dropWhile (\<lambda>x. x \<noteq> newline) (drop (length lit) (c # cs)))
          \<le> length (drop (length lit) (c # cs))"
    by (rule length_dropWhile_le)
  also have "\<dots> < length (c # cs)" using \<open>0 < length lit\<close> by simp
  finally show "((lit, items, False, dropWhile (\<lambda>x. x \<noteq> newline) (drop (length lit) (c # cs))),
                 (lit, items, bol, c # cs))
                \<in> measure (\<lambda>(lit, items, bol, content). length content)"
    by simp
next
  fix lit :: string and items :: "template_item list" and bol :: bool and c :: char
    and cs :: string
  show "((lit, items, c = newline, cs), (lit, items, bol, c # cs))
          \<in> measure (\<lambda>(lit, items, bol, content). length content)"
    by simp
qed

definition endswith_newline :: "string \<Rightarrow> bool" where
  \<comment> \<open>\<open>content.endswith('\n')\<close>\<close>
  "endswith_newline content = (content \<noteq> [] \<and> last content = newline)"

definition updated_content :: "string \<Rightarrow> string \<Rightarrow> string \<Rightarrow> string \<Rightarrow> py_exception + string" where
  \<comment> \<open>the new content of the profile, or what \<open>export_pattern.sub\<close> raises\<close>
  "updated_content var token timestamp content =
     (let export_line = ''export '' @ var @ ''='' @ [dquote] @ token @ [dquote];
          comment_line = [newline] @ ''# 1Password Service Account Token - Created ''
                           @ timestamp @ [newline]
      in if search_export (export_literal var) True content
         then (case parse_template export_line of
                 Inl e \<Rightarrow> Inl e
               | Inr items \<Rightarrow> Inr (sub_export (export_literal var) items True content))
         else Inr ((if \<not> endswith_newline content then content @ [newline] else content)
                     @ comment_line @ export_line @ [newline]))"

definition backup_failure :: "string \<Rightarrow> py_exception \<Rightarrow> py_exception + PersistResult" where
  \<comment> \<open>the handlers \<open>except PermissionError\<close> and \<open>except OSError\<close> of the backup block; any
      other exception leaves the function\<close>
  "backup_failure zshrc_path e =
     (if exc_class e = PermissionError
      then Inr (PersistResult_failure None
                  (''Permission denied: '' @ zshrc_path @ ''. Run: chmod 600 ~/.zshrc''))
      else if is_OSError (exc_class e)
      then (if exc_errno e = Some 28
            then Inr (PersistResult_failure None ''Disk full: Cannot write to ~/.zshrc'')
            else Inr (PersistResult_failure None (''I/O error: '' @ exc_str e)))
      else Inl e)"

definition create_backup ::
  "string \<Rightarrow> string \<Rightarrow> world \<Rightarrow> ((py_exception + PersistResult) + string option) \<times> world" where
  \<comment> \<open>the backup block: \<open>Inr\<close> the backup path with which the function goes on, \<open>Inl\<close> what
      it returns or raises from inside the block\<close>
  "create_backup zshrc_path backup_path0 w =
     (if path_exists w zshrc_path
      then (case read_file zshrc_path w of
              (Inl e, w1) \<Rightarrow> (Inl (backup_failure zshrc_path e), w1)
            | (Inr content, w1) \<Rightarrow>
                (case write_file backup_path0 content w1 of
                   (Inl e, w2) \<Rightarrow> (Inl (backup_failure zshrc_path e), w2)
                 | (Inr u, w2) \<Rightarrow> (Inr (Some backup_path0), w2)))
      else (case touch zshrc_path w of
              (Inl e, w1) \<Rightarrow> (Inl (backup_failure zshrc_path e), w1)
            | (Inr u, w1) \<Rightarrow> (Inr None, w1)))"

definition restore_from_backup :: "string option \<Rightarrow> string \<Rightarrow> world \<Rightarrow> world" where
  \<comment> \<open>the handler of a failed write: read the backup and write it over the profile; an
      exception of either call is logged and swallowed\<close>
  "restore_from_backup bp zshrc_path w =
     (case bp of
        None \<Rightarrow> w
      | Some b \<Rightarrow>
          (if b \<noteq> [] \<and> path_exists w b
           then (case read_file b w of
                   (Inl e, w1) \<Rightarrow> w1
                 | (Inr backup_content, w1) \<Rightarrow> snd (write_file zshrc_path backup_content w1))
           else w))"

definition verify_write :: "string \<Rightarrow> string \<Rightarrow> world \<Rightarrow> bool \<times> world" where
  \<comment> \<open>the read-back: \<open>verified\<close> and the world after it\<close>
  "verify_write zshrc_path token w =
     (case read_file zshrc_path w of
        (Inl e, w1) \<Rightarrow> (False, w1)
      | (Inr updated, w1) \<Rightarrow> (contains updated token, w1))"

definition set_permissions :: "string \<Rightarrow> world \<Rightarrow> world" where
  \<comment> \<open>\<open>os.chmod(zshrc_path, 0o600)\<close> with its failure logged and swallowed\<close>
  "set_permissions zshrc_path w = snd (chmod zshrc_path 384 w)"

definition backup_name :: "string \<Rightarrow> string \<Rightarrow> string" where
  \<comment> \<open>\<open>f"{zshrc_path}.backup.{timestamp}"\<close>\<close>
  "backup_name zshrc_path timestamp = zshrc_path @ ''.backup.'' @ timestamp"

definition write_and_verify ::
  "string \<Rightarrow> string \<Rightarrow> string \<Rightarrow> string option \<Rightarrow> string \<Rightarrow> world
     \<Rightarrow> (py_exception + PersistResult) \<times> world" where
  \<comment> \<open>\<open>save_token_to_env\<close> from the write of the updated content on\<close>
  "write_and_verify token var zshrc_path bp new_content w2 =
     (case write_file zshrc_path new_content w2 of
        (Inl e, w3) \<Rightarrow>
          (Inr (PersistResult_failure bp (''Failed to write .zshrc: '' @ exc_str e)),
           restore_from_backup bp zshrc_path w3)
      | (Inr u, w3) \<Rightarrow>
          (case verify_write zshrc_path token w3 of
             (v, w4) \<Rightarrow>
               (Inr \<lparr> success = True, backup_path = bp, env_var_name = var,
                      error_message = None, verified = v \<rparr>,
                set_permissions zshrc_path w4)))"

definition save_token_to_env ::
  "string \<Rightarrow> string \<Rightarrow> string \<Rightarrow> world \<Rightarrow> (py_exception + PersistResult) \<times> world" where
  "save_token_to_env token var zshrc_path0 w =
     (let validation = validate_token_format token
      in if \<not> is_valid validation
         then (Inr (PersistResult_failure None
                      (''Invalid token format: '' @ join '', '' (errors validation))), w)
         else (let zshrc_path = resolve_profile w zshrc_path0;
                   timestamp = now w;
                   backup_path0 = backup_name zshrc_path timestamp
               in case create_backup zshrc_path backup_path0 w of
                    (Inl early, w1) \<Rightarrow> (early, w1)
                  | (Inr bp, w1) \<Rightarrow>
                      (case read_file zshrc_path w1 of
                         (Inl e, w2) \<Rightarrow>
                           (Inr (PersistResult_failure bp
                                   (''Failed to read .zshrc: '' @ exc_str e)), w2)
                       | (Inr content, w2) \<Rightarrow>
                           (case updated_content var token timestamp content of
                              Inl e \<Rightarrow> (Inl e, w2)
                            | Inr new_content \<Rightarrow>
                                write_and_verify token var zshrc_path bp new_content w2))))"

definition outcome_at :: "world \<Rightarrow> nat \<Rightarrow> outcome" where
  \<comment> \<open>the outcome that the script has for the \<open>i\<close>-th fallible call from now, counted from 0\<close>
  "outcome_at w i = (if i < length (faults w) then faults w ! i else Succeeds)"

definition same_setting :: "world \<Rightarrow> world \<Rightarrow> bool" where
  "same_setting w w1 =
     (symlinks w1 = symlinks w \<and> home w1 = home w \<and> user_home w1 = user_home w
        \<and> passwd w1 = passwd w \<and> now w1 = now w)"

definition shifted :: "world \<Rightarrow> world \<Rightarrow> bool" where
  \<comment> \<open>one outcome of the script was used up\<close>
  "shifted w w1 = (\<forall>i. outcome_at w1 i = outcome_at w (Suc i))"

definition after_backup ::
  "string \<Rightarrow> string \<Rightarrow> string \<Rightarrow> string \<Rightarrow> string option \<Rightarrow> world
     \<Rightarrow> (py_exception + PersistResult) \<times> world" where
  \<comment> \<open>\<open>save_token_to_env\<close> from the reading of the current content on\<close>
  "after_backup token var zshrc_path timestamp bp w1 =
     (case read_file zshrc_path w1 of
        (Inl e, w2) \<Rightarrow>
          (Inr (PersistResult_failure bp (''Failed to read .zshrc: '' @ exc_str e)), w2)
      | (Inr content, w2) \<Rightarrow>
          (case updated_content var token timestamp content of
             Inl e \<Rightarrow> (Inl e, w2)
           | Inr new_content \<Rightarrow> write_and_verify token var zshrc_path bp new_content w2))"

definition profile_write_index :: "world \<Rightarrow> string \<Rightarrow> nat" where
  \<comment> \<open>the place, among the fallible calls of \<open>save_token_to_env\<close>, of the write of the
      updated content: after reading the profile, writing the backup and reading the
      profile again, or after \<open>touch\<close> and reading the new profile\<close>
  "profile_write_index w path = (if files w path = None then 2 else 3)"

definition content_read :: "world \<Rightarrow> string \<Rightarrow> string" where
  \<comment> \<open>what \<open>save_token_to_env\<close> reads as the current content of the profile\<close>
  "content_read w path = (case files w path of None \<Rightarrow> [] | Some c \<Rightarrow> universal_newlines c)"

definition backup_made :: "world \<Rightarrow> string \<Rightarrow> string option" where
  \<comment> \<open>the backup path with which \<open>save_token_to_env\<close> goes on after its backup block\<close>
  "backup_made w path =
     (if files w path = None then None else Some (backup_name path (now w)))"

section \<open>The session manager: \<open>sparc_phase4_session_manager.py\<close>\<close>

text \<open>
  The manager holds its four Playwright objects, each \<open>None\<close> or a handle. Closing a
  handle may raise; \<open>closing h\<close> is the exception that closing \<open>h\<close> raises, if any. The
  calls made, and the error logged, are recorded in order.
\<close>

record SessionManager =
  browser :: "nat option"
  context_sm :: "nat option"
  page :: "nat option"
  playwright :: "nat option"

datatype release = PageClose nat | ContextClose nat | BrowserClose nat | PlaywrightStop nat
  | ErrorLogged string

definition release_step ::
  "(nat \<Rightarrow> py_exception option) \<Rightarrow> (nat \<Rightarrow> release) \<Rightarrow> nat option
     \<Rightarrow> py_exception option \<times> release list" where
  \<comment> \<open>\<open>if self.x is not None: await self.x.close()\<close>: what it raises and the call made\<close>
  "release_step closing call h =
     (case h of None \<Rightarrow> (None, []) | Some x \<Rightarrow> (closing x, [call x]))"

definition all_dropped :: "SessionManager \<Rightarrow> SessionManager" where
  \<comment> \<open>the four attributes set to \<open>None\<close>\<close>
  "all_dropped sm = sm \<lparr> browser := None, context_sm := None, page := None, playwright := None \<rparr>"

definition cleanup_error :: "py_exception \<Rightarrow> release" where
  "cleanup_error e = ErrorLogged (''Error during session cleanup: '' @ exc_str e)"

definition close_session ::
  "(nat \<Rightarrow> py_exception option) \<Rightarrow> SessionManager \<Rightarrow> SessionManager \<times> release list" where
  \<comment> \<open>one \<open>try\<close> around the four steps; its handler logs the error and drops the four
      attributes\<close>
  "close_session closing sm =
     (case release_step closing PageClose (page sm) of
        (Some e, ev1) \<Rightarrow> (all_dropped sm, ev1 @ [cleanup_error e])
      | (None, ev1) \<Rightarrow>
          (case release_step closing ContextClose (context_sm sm) of
             (Some e, ev2) \<Rightarrow> (all_dropped sm, ev1 @ ev2 @ [cleanup_error e])
           | (None, ev2) \<Rightarrow>
               (case release_step closing BrowserClose (browser sm) of
                  (Some e, ev3) \<Rightarrow> (all_dropped sm, ev1 @ ev2 @ ev3 @ [cleanup_error e])
                | (None, ev3) \<Rightarrow>
                    (case release_step closing PlaywrightStop (playwright sm) of
                       (Some e, ev4) \<Rightarrow>
                         (all_dropped sm, ev1 @ ev2 @ ev3 @ ev4 @ [cleanup_error e])
                     | (None, ev4) \<Rightarrow> (all_dropped sm, ev1 @ ev2 @ ev3 @ ev4)))))"


section \<open>Token extraction: \<open>sparc_phase4_browser_automation.py\<close>\<close>

text \<open>
  The page is what its calls answer: each call raises or returns. The operations made on
  the page and the lines printed (as the bytes written) are recorded in order. Waiting
  (\<open>asyncio.sleep\<close>) is not recorded.
\<close>

datatype 'a call = Raises py_exception | Returns 'a

record Element =
  text_content :: "string option call"
  click :: "unit call"

record Page =
  wait_for_selector :: "string \<Rightarrow> Element option call"
  clipboard_after :: "string \<Rightarrow> string call"
  body_text :: "string option call"
  screenshot :: "string \<Rightarrow> unit call"

datatype page_event = WaitFor string | TextContent string | Click string | ReadClipboard string
  | BodyText | Screenshot string | Printed string

definition check_mark :: string where
  \<comment> \<open>U+2713 in UTF-8\<close>
  "check_mark = [CHR 0xE2, CHR 0x9C, CHR 0x93]"

definition browser_pattern_match :: "string \<Rightarrow> bool" where
  \<comment> \<open>\<open>bool(re.match(r"^ops_[A-Za-z0-9_-]+$", token))\<close>\<close>
  "browser_pattern_match token =
     (startswith token ''ops_'' \<and>
      (let rest = drop 4 token;
           run = takeWhile token_class rest;
           tail = dropWhile token_class rest
       in 1 \<le> length run \<and> (tail = [] \<or> tail = [newline])))"

definition validate_token_format_browser :: "string option \<Rightarrow> bool" where
  \<comment> \<open>\<open>validate_token_format\<close> of the browser module\<close>
  "validate_token_format_browser token =
     (case token of
        None \<Rightarrow> False
      | Some t \<Rightarrow>
          (if t = [] \<or> length t < 100 then False
           else if \<not> startswith t ''ops_'' then False
           else browser_pattern_match t))"

definition token_selectors :: "string list" where
  "token_selectors =
     [''code:has-text('ops_')'', ''pre:has-text('ops_')'',
      ''[data-testid='service-account-token']'', ''.token-display code'', ''.token-value'']"

definition copy_button_selectors :: "string list" where
  "copy_button_selectors =
     [''button:has-text('Copy')'', ''[data-testid='copy-token']'', ''[aria-label='Copy token']'']"

definition after_events :: "page_event list \<Rightarrow> 'a \<times> page_event list \<Rightarrow> 'a \<times> page_event list" where
  \<comment> \<open>the rest of a loop, run after the events of the iteration that ends with \<open>continue\<close>\<close>
  "after_events ev r = (fst r, ev @ snd r)"

fun css_loop :: "Page \<Rightarrow> string list \<Rightarrow> string option \<times> page_event list" where
  \<comment> \<open>the loop of \<open>extract_token_via_css\<close> over the selectors left; an exception of the
      body (a timeout, \<open>None.strip()\<close>) goes on with the next selector\<close>
  "css_loop pg [] = (None, [])"
| "css_loop pg (sel # rest) =
     (case wait_for_selector pg sel of
        Raises e \<Rightarrow> after_events [WaitFor sel] (css_loop pg rest)
      | Returns None \<Rightarrow> after_events [WaitFor sel] (css_loop pg rest)
      | Returns (Some element) \<Rightarrow>
          (case text_content element of
             Raises e \<Rightarrow>
               after_events [WaitFor sel, TextContent sel] (css_loop pg rest)
           | Returns None \<Rightarrow>
               after_events [WaitFor sel, TextContent sel] (css_loop pg rest)
           | Returns (Some t) \<Rightarrow>
               (let token = strip t
                in if validate_token_format_browser (Some token)
                   then (Some token,
                         [WaitFor sel, TextContent sel,
                          Printed (check_mark @ '' Token extracted via CSS selector: ''
                                     @ sel)])
                   else after_events [WaitFor sel, TextContent sel]
                          (css_loop pg rest))))"

definition extract_token_via_css :: "Page \<Rightarrow> string option \<times> page_event list" where
  "extract_token_via_css pg = css_loop pg token_selectors"

definition clipboard_failed :: "string \<Rightarrow> py_exception \<Rightarrow> page_event" where
  "clipboard_failed sel e =
     Printed (''Clipboard extraction failed for '' @ sel @ '': '' @ exc_str e)"

fun clipboard_loop :: "Page \<Rightarrow> string list \<Rightarrow> string option \<times> page_event list" where
  \<comment> \<open>the loop of \<open>extract_token_via_clipboard\<close> over the selectors left\<close>
  "clipboard_loop pg [] = (None, [])"
| "clipboard_loop pg (sel # rest) =
     (case wait_for_selector pg sel of
        Raises e \<Rightarrow>
          after_events [WaitFor sel, clipboard_failed sel e] (clipboard_loop pg rest)
      | Returns None \<Rightarrow> after_events [WaitFor sel] (clipboard_loop pg rest)
      | Returns (Some copy_button) \<Rightarrow>
          (case click copy_button of
             Raises e \<Rightarrow>
               after_events [WaitFor sel, Click sel, clipboard_failed sel e]
                 (clipboard_loop pg rest)
           | Returns u \<Rightarrow>
               (case clipboard_after pg sel of
                  Raises e \<Rightarrow>
                    after_events [WaitFor sel, Click sel, ReadClipboard sel,
                                  clipboard_failed sel e]
                      (clipboard_loop pg rest)
                | Returns clipboard_text \<Rightarrow>
                    (if validate_token_format_browser (Some clipboard_text)
                     then (Some clipboard_text,
                           [WaitFor sel, Click sel, ReadClipboard sel,
                            Printed (check_mark @ '' Token extracted via clipboard'')])
                     else after_events [WaitFor sel, Click sel, ReadClipboard sel]
                            (clipboard_loop pg rest)))))"

definition extract_token_via_clipboard :: "Page \<Rightarrow> string option \<times> page_event list" where
  "extract_token_via_clipboard pg = clipboard_loop pg copy_button_selectors"

definition match_bounded_here :: "string \<Rightarrow> string option" where
  \<comment> \<open>\<open>ops_[A-Za-z0-9_-]{100,500}\<close> matched at the start of \<open>s\<close>: the text of the match\<close>
  "match_bounded_here s =
     (if startswith s ''ops_''
      then (let run = takeWhile token_class (drop 4 s)
            in if 100 \<le> length run then Some (''ops_'' @ take 500 run) else None)
      else None)"

fun first_bounded_match :: "string \<Rightarrow> string option" where
  \<comment> \<open>\<open>matches[0]\<close> of \<open>re.findall(token_pattern, page_text)\<close>, if there is a match\<close>
  "first_bounded_match [] = None"
| "first_bounded_match (c # cs) =
     (case match_bounded_here (c # cs) of
        Some t \<Rightarrow> Some t
      | None \<Rightarrow> first_bounded_match cs)"

definition page_text_failed :: "string \<Rightarrow> page_event" where
  "page_text_failed msg = Printed (''Page text extraction failed: '' @ msg)"

definition extract_token_via_page_text :: "Page \<Rightarrow> string option \<times> page_event list" where
  \<comment> \<open>\<open>re.findall\<close> raises \<open>TypeError\<close> on a body text that is \<open>None\<close>\<close>
  "extract_token_via_page_text pg =
     (case body_text pg of
        Raises e \<Rightarrow> (None, [BodyText, page_text_failed (exc_str e)])
      | Returns None \<Rightarrow>
          (None, [BodyText, page_text_failed ''expected string or bytes-like object''])
      | Returns (Some page_text) \<Rightarrow>
          (case first_bounded_match page_text of
             None \<Rightarrow> (None, [BodyText])
           | Some token \<Rightarrow>
               (if validate_token_format_browser (Some token)
                then (Some token,
                      [BodyText, Printed (check_mark @ '' Token extracted via page text parsing'')])
                else (None, [BodyText]))))"

definition is_truthy_token :: "string option \<Rightarrow> bool" where
  \<comment> \<open>\<open>if token:\<close>\<close>
  "is_truthy_token token = (case token of None \<Rightarrow> False | Some t \<Rightarrow> t \<noteq> [])"

definition all_methods_failed :: "page_event list" where
  \<comment> \<open>what \<open>extract_token\<close> prints and does when no method gave a token\<close>
  "all_methods_failed =
     [Printed ''ERROR: All token extraction methods failed'',
      Screenshot ''/tmp/1password_automation/error_token_extraction.png'']"

definition extract_token :: "Page \<Rightarrow> (py_exception + string option) \<times> page_event list" where
  \<comment> \<open>\<open>Inl\<close> when the screenshot of the failure path raises\<close>
  "extract_token pg =
     (case extract_token_via_css pg of (token1, ev1) \<Rightarrow>
        if is_truthy_token token1 then (Inr token1, ev1)
        else (case extract_token_via_clipboard pg of (token2, ev2) \<Rightarrow>
                if is_truthy_token token2 then (Inr token2, ev1 @ ev2)
                else (case extract_token_via_page_text pg of (token3, ev3) \<Rightarrow>
                        if is_truthy_token token3 then (Inr token3, ev1 @ ev2 @ ev3)
                        else (case screenshot pg
                                     ''/tmp/1password_automation/error_token_extraction.png'' of
                                Raises e \<Rightarrow> (Inl e, ev1 @ ev2 @ ev3 @ all_methods_failed)
                              | Returns u \<Rightarrow> (Inr None, ev1 @ ev2 @ ev3 @ all_methods_failed)))))"

definition method_of :: "page_event \<Rightarrow> nat option" where
  \<comment> \<open>the number of the method a page operation belongs to: 1 the selector lookup, 2 the
      copy button and the clipboard, 3 the page text, 4 the screenshot of the failure\<close>
  "method_of ev =
     (case ev of
        WaitFor s \<Rightarrow> Some (if s \<in> set copy_button_selectors then 2 else 1)
      | TextContent s \<Rightarrow> Some 1
      | Click s \<Rightarrow> Some 2
      | ReadClipboard s \<Rightarrow> Some 2
      | BodyText \<Rightarrow> Some 3
      | Screenshot path \<Rightarrow> Some 4
      | Printed msg \<Rightarrow> None)"

definition methods_of_trace :: "page_event list \<Rightarrow> nat list" where
  "methods_of_trace evs = List.map_filter method_of evs"


section \<open>The orchestrator: \<open>sparc_phase4_integration.py\<close>\<close>

datatype OrchestrationState = INIT | CHECK_AUTH | SESSION_INIT | BROWSER_OPEN | NAVIGATE_STATE
  | FILL_FORM | WIZARD_NAV | EXTRACT_TOKEN | VALIDATE_TOKEN | SAVE_TOKEN | TEST_TOKEN
  | CLEANUP | COMPLETE | ERROR

record AuthStatus =
  is_authenticated :: bool
  confidence_score :: rat
  detected_method :: string

definition safe_float :: "rat \<Rightarrow> rat" where
  "safe_float v = (if v < 0 then 0 else if v > 1 then 1 else v)"

definition analyze_auth_status :: "bool \<Rightarrow> bool \<Rightarrow> AuthStatus" where
  \<comment> \<open>\<open>analyze_auth_status()\<close> of the auth detector, from what \<open>check_cli_session()\<close> and
      \<open>check_browser_session()\<close> return\<close>
  "analyze_auth_status cli browser_found =
     (let conf = safe_float ((if cli then 7 / 10 else 0) + (if browser_found then 3 / 10 else 0))
      in if cli \<and> browser_found
         then \<lparr> is_authenticated = True, confidence_score = conf, detected_method = ''cli+browser'' \<rparr>
         else if cli
         then \<lparr> is_authenticated = True, confidence_score = conf, detected_method = ''cli'' \<rparr>
         else if browser_found
         then \<lparr> is_authenticated = True, confidence_score = conf, detected_method = ''browser'' \<rparr>
         else \<lparr> is_authenticated = False, confidence_score = conf, detected_method = ''none'' \<rparr>)"

definition percent :: "rat \<Rightarrow> string" where
  \<comment> \<open>the format \<open>:.0%\<close>, on the scores 0, 0.3, 0.7 and 1 that the detector gives\<close>
  "percent c = str_of_int (round (c * 100)) @ ''%''"

record OrchestrationContext =
  account_name :: string
  vaults :: "string list"
  headless :: bool
  autonomous :: pyval
  max_retries :: pyval
  current_state :: OrchestrationState
  session_manager :: "SessionManager option"
  auth_status :: "AuthStatus option"
  page_c :: "nat option"
  token_c :: "string option"
  error_c :: "string option"
  state_transitions_c :: "OrchestrationState list"

record OrchestrationResult =
  success_r :: bool
  service_account_name :: string
  token_r :: "string option"
  error_message_r :: "string option"
  duration_seconds :: rat
  final_state :: OrchestrationState
  state_transitions :: "OrchestrationState list"
  auth_status_r :: "AuthStatus option"
  token_validated :: bool
  token_saved :: bool
  token_tested :: bool
  session_manager_r :: "SessionManager option"

text \<open>
  What the collaborators of a run answer: the two probes of the auth detector and the
  results of the browser functions at each attempt of their step, the page that the n-th
  extraction sees, the exceptions of creating the session manager and of entering and
  leaving the Playwright driver, and the time the run takes.
\<close>

record Collaborators =
  auth_probes :: "nat \<Rightarrow> bool \<times> bool"
  session_manager_init :: "py_exception option"
  driver_enter :: "py_exception + nat"
  navigate_result :: "nat \<Rightarrow> pydict"
  form_result :: "nat \<Rightarrow> py_exception + pydict"
  wizard_result :: "nat \<Rightarrow> py_exception + pydict"
  page_at :: "nat \<Rightarrow> Page"
  driver_exit :: "py_exception option"
  closing_c :: "nat \<Rightarrow> py_exception option"
  duration :: rat

datatype orch_event = Transition OrchestrationState OrchestrationState | Slept
  | PageOps "page_event list" | CleanupStarted | DriverExit | SessionClosed "release list"
  | CleanupWarning string | CleanupComplete

text \<open>
  The orchestrator object during a run: its configuration, its context, whether its
  Playwright driver is set, the file system that \<open>save_token_to_env\<close> works on, and the
  record of what the run did.
\<close>

record Orchestrator =
  config :: pydict
  context_o :: OrchestrationContext
  playwright_driver :: bool
  fs :: world
  events :: "orch_event list"

type_synonym step = "Orchestrator \<Rightarrow> (py_exception + unit) \<times> Orchestrator"

definition seq :: "step \<Rightarrow> step \<Rightarrow> step" where
  \<comment> \<open>one statement after another inside the \<open>try\<close>: an exception ends the sequence\<close>
  "seq m k st = (case m st of (Inl e, st1) \<Rightarrow> (Inl e, st1) | (Inr u, st1) \<Rightarrow> k st1)"

definition transition_state :: "OrchestrationState \<Rightarrow> step" where
  "transition_state new_state st =
     (let old_state = current_state (context_o st)
      in (Inr (),
          st \<lparr> context_o := (context_o st)
                   \<lparr> current_state := new_state,
                     state_transitions_c := state_transitions_c (context_o st) @ [new_state] \<rparr>,
               events := events st @ [Transition old_state new_state] \<rparr>))"

definition resolve_max_attempts :: "pydict \<Rightarrow> RetryStrategy \<Rightarrow> int" where
  "resolve_max_attempts cfg strategy =
     (case dict_get cfg ''max_retries'' of
        PNone \<Rightarrow> max 0 (max_attempts strategy)
      | configured \<Rightarrow>
          (case py_int configured of
             None \<Rightarrow> max 0 (max_attempts strategy)
           | Some configured_int \<Rightarrow>
               (if configured_int < 0 then 0
                else if max_attempts strategy \<le> 0 then 0
                else min (max_attempts strategy) configured_int)))"

function retry_with_backoff :: "pydict \<Rightarrow> (nat \<Rightarrow> step) \<Rightarrow> nat \<Rightarrow> step" where
  \<comment> \<open>\<open>_retry_with_backoff\<close> from the attempt counter \<open>attempt\<close> on; \<open>operation n\<close> is the
      call of the operation after \<open>n\<close> failures\<close>
  "retry_with_backoff cfg operation attempt st =
     (case operation attempt st of
        (Inr u, st1) \<Rightarrow> (Inr u, st1)
      | (Inl exc, st1) \<Rightarrow>
          (let strategy = get_retry_strategy exc;
               max_att = resolve_max_attempts cfg strategy
           in if \<not> retryable strategy then (Inl exc, st1)
              else if max_att \<le> 0 then (Inl exc, st1)
              else if int (attempt + 1) \<ge> max_att then (Inl exc, st1)
              else retry_with_backoff cfg operation (attempt + 1)
                     (st1 \<lparr> events := events st1 @ [Slept] \<rparr>)))"
  by pat_completeness auto
termination
proof (relation "measure (\<lambda>(cfg, operation, attempt, st). 5 - attempt)")
  show "wf (measure (\<lambda>(cfg, operation, attempt, st). 5 - attempt))" by simp
next
  fix cfg :: pydict and operation :: "nat \<Rightarrow> step" and attempt :: nat and st :: Orchestrator
    and x :: "(py_exception + unit) \<times> Orchestrator" and exc :: py_exception
    and st1 :: Orchestrator and strategy :: RetryStrategy and max_att :: int
  assume s: "strategy = get_retry_strategy exc"
    and m: "max_att = resolve_max_attempts cfg strategy"
    and lt: "\<not> max_att \<le> int (attempt + 1)"
  have "max_attempts (get_retry_strategy exc) \<le> 5"
    by (simp add: get_retry_strategy_def RetryStrategy_default_def Let_def)
  then have "resolve_max_attempts cfg (get_retry_strategy exc) \<le> 5"
    by (auto simp add: resolve_max_attempts_def split: pyval.splits option.splits)
  with s m lt have "attempt < 4" by simp
  then show "((cfg, operation, attempt + 1, st1 \<lparr> events := events st1 @ [Slept] \<rparr>),
              (cfg, operation, attempt, st))
               \<in> measure (\<lambda>(cfg, operation, attempt, st). 5 - attempt)"
    by simp
qed

declare retry_with_backoff.simps [simp del]

definition raise :: "exc_class \<Rightarrow> string \<Rightarrow> Orchestrator \<Rightarrow> (py_exception + unit) \<times> Orchestrator" where
  "raise k msg st = (Inl (Exc k None msg), st)"

definition check_auth_status :: "Collaborators \<Rightarrow> nat \<Rightarrow> step" where
  "check_auth_status env n st =
     (let status = analyze_auth_status (fst (auth_probes env n)) (snd (auth_probes env n));
          st1 = st \<lparr> context_o := (context_o st) \<lparr> auth_status := Some status \<rparr> \<rparr>
      in if \<not> is_authenticated status
         then raise RuntimeError
                (''Not authenticated: '' @ detected_method status @ '' (confidence: ''
                   @ percent (confidence_score status) @ '')'') st1
         else (Inr (), st1))"

definition new_session_manager :: SessionManager where
  \<comment> \<open>\<open>SessionManager(user_data_dir=...)\<close>: no browser object yet\<close>
  "new_session_manager = \<lparr> browser = None, context_sm = None, page = None, playwright = None \<rparr>"

definition init_session_manager :: "Collaborators \<Rightarrow> step" where
  "init_session_manager env st =
     (case session_manager_init env of
        Some e \<Rightarrow> (Inl e, st)
      | None \<Rightarrow>
          (Inr (), st \<lparr> context_o := (context_o st)
                           \<lparr> session_manager := Some new_session_manager \<rparr> \<rparr>))"

definition open_browser :: "Collaborators \<Rightarrow> step" where
  \<comment> \<open>the driver is assigned before it is entered\<close>
  "open_browser env st =
     (let st1 = st \<lparr> playwright_driver := True \<rparr>
      in case driver_enter env of
           Inl e \<Rightarrow> raise RuntimeError (''Failed to open browser: '' @ exc_str e) st1
         | Inr h \<Rightarrow> (Inr (), st1 \<lparr> context_o := (context_o st1) \<lparr> page_c := Some h \<rparr> \<rparr>))"

definition key_error :: "string \<Rightarrow> py_exception" where
  "key_error k = Exc OtherException None (repr_str k)"

definition navigate_to_page :: "Collaborators \<Rightarrow> nat \<Rightarrow> step" where
  "navigate_to_page env n st =
     (if page_c (context_o st) = None
      then raise RuntimeError ''Context or page not initialized'' st
      else (let nav_result = navigate_result env n
            in if \<not> has_key nav_result ''status'' then (Inl (key_error ''status''), st)
               else if dict_get nav_result ''status'' \<noteq> PStr ''success''
               then raise RuntimeError
                      (''Navigation failed: ''
                         @ py_str (dict_get_default nav_result ''message''
                                     (PStr ''Unknown error''))) st
               else if \<not> has_key nav_result ''url'' then (Inl (key_error ''url''), st)
               else (Inr (), st)))"

definition fill_account_form :: "Collaborators \<Rightarrow> nat \<Rightarrow> step" where
  "fill_account_form env n st =
     (if page_c (context_o st) = None
      then raise RuntimeError ''Context or page not initialized'' st
      else (case form_result env n of
              Inl e \<Rightarrow> (Inl e, st)
            | Inr result \<Rightarrow>
                (if \<not> truthy (dict_get_default result ''success'' (PBool False))
                 then raise RuntimeError
                        (''Form filling failed: ''
                           @ py_str (dict_get_default result ''message''
                                       (PStr ''Unknown error''))) st
                 else (Inr (), st))))"

definition navigate_wizard :: "Collaborators \<Rightarrow> nat \<Rightarrow> step" where
  "navigate_wizard env n st =
     (if page_c (context_o st) = None
      then raise RuntimeError ''Context or page not initialized'' st
      else (case wizard_result env n of
              Inl e \<Rightarrow> (Inl e, st)
            | Inr result \<Rightarrow>
                (if \<not> truthy (dict_get_default result ''success'' (PBool False))
                 then raise RuntimeError
                        (''Wizard navigation failed: ''
                           @ py_str (dict_get_default result ''message''
                                       (PStr ''Unknown error''))) st
                 else (Inr (), st))))"

definition extract_service_token :: "Collaborators \<Rightarrow> nat \<Rightarrow> step" where
  "extract_service_token env n st =
     (if page_c (context_o st) = None
      then raise RuntimeError ''Context or page not initialized'' st
      else (case extract_token (page_at env n) of
              (Inl e, ops) \<Rightarrow> (Inl e, st \<lparr> events := events st @ [PageOps ops] \<rparr>)
            | (Inr tok, ops) \<Rightarrow>
                (let st1 = st \<lparr> context_o := (context_o st) \<lparr> token_c := tok \<rparr>,
                                events := events st @ [PageOps ops] \<rparr>
                 in if \<not> is_truthy_token tok
                    then raise RuntimeError ''Token extraction failed'' st1
                    else (Inr (), st1))))"

definition validate_token :: step where
  \<comment> \<open>\<open>validate_token_format\<close> returns a \<open>TokenValidation\<close> object, which is truthy whatever
      it holds: the test \<open>if not validate_token_format(...)\<close> never raises\<close>
  "validate_token st =
     (if \<not> is_truthy_token (token_c (context_o st))
      then raise RuntimeError ''Token not available for validation'' st
      else (Inr (), st))"

definition save_token_step :: step where
  \<comment> \<open>\<open>_save_token_to_env\<close>\<close>
  "save_token_step st =
     (case token_c (context_o st) of
        None \<Rightarrow> raise RuntimeError ''Token not available for saving'' st
      | Some tok \<Rightarrow>
          (if tok = [] then raise RuntimeError ''Token not available for saving'' st
           else (case save_token_to_env tok ''OP_SERVICE_ACCOUNT_TOKEN'' ''~/.zshrc'' (fs st) of
                   (Inl e, w1) \<Rightarrow> (Inl e, st \<lparr> fs := w1 \<rparr>)
                 | (Inr persist_result, w1) \<Rightarrow>
                     (if \<not> success persist_result
                      then raise RuntimeError
                             (''Token persistence failed: ''
                                @ (case error_message persist_result of
                                     None \<Rightarrow> ''None'' | Some msg \<Rightarrow> msg))
                             (st \<lparr> fs := w1 \<rparr>)
                      else (Inr (), st \<lparr> fs := w1 \<rparr>)))))"

definition test_token_with_cli :: step where
  \<comment> \<open>the call \<open>test_token()\<close> gives no argument for the required parameter \<open>token\<close>\<close>
  "test_token_with_cli st =
     (if \<not> is_truthy_token (token_c (context_o st))
      then raise RuntimeError ''Token not available for testing'' st
      else raise TypeError
             (''test_token() missing 1 required positional argument: '' @ [quote] @ ''token''
                @ [quote]) st)"

definition cleanup :: "Collaborators \<Rightarrow> step" where
  \<comment> \<open>\<open>_cleanup\<close>: one \<open>try\<close> around leaving the driver and closing the session manager; its
      handler logs a warning\<close>
  "cleanup env st =
     (let st1 = st \<lparr> events := events st @ [CleanupStarted] \<rparr>;
          left = (if playwright_driver st1
                  then (case driver_exit env of
                          Some e \<Rightarrow> (Some e, [DriverExit])
                        | None \<Rightarrow> (None, [DriverExit]))
                  else (None, []))
      in case left of
           (Some e, evs) \<Rightarrow>
             (Inr (), st1 \<lparr> events := events st1 @ evs
                              @ [CleanupWarning (''Cleanup error (non-fatal): '' @ exc_str e),
                                 CleanupComplete] \<rparr>)
         | (None, evs) \<Rightarrow>
             (case session_manager (context_o st1) of
                None \<Rightarrow> (Inr (), st1 \<lparr> events := events st1 @ evs @ [CleanupComplete] \<rparr>)
              | Some sm \<Rightarrow>
                  (case close_session (closing_c env) sm of
                     (sm1, rel) \<Rightarrow>
                       (Inr (),
                        st1 \<lparr> context_o := (context_o st1) \<lparr> session_manager := Some sm1 \<rparr>,
                              events := events st1 @ evs @ [SessionClosed rel, CleanupComplete]
                            \<rparr>))))"

definition workflow :: "Collaborators \<Rightarrow> step" where
  \<comment> \<open>the body of the \<open>try\<close> of \<open>orchestrate\<close>\<close>
  "workflow env =
     seq (transition_state CHECK_AUTH)
    (seq (\<lambda>st. retry_with_backoff (config st) (check_auth_status env) 0 st)
    (seq (transition_state SESSION_INIT)
    (seq (init_session_manager env)
    (seq (transition_state BROWSER_OPEN)
    (seq (open_browser env)
    (seq (transition_state NAVIGATE_STATE)
    (seq (\<lambda>st. retry_with_backoff (config st) (navigate_to_page env) 0 st)
    (seq (transition_state FILL_FORM)
    (seq (\<lambda>st. retry_with_backoff (config st) (fill_account_form env) 0 st)
    (seq (transition_state WIZARD_NAV)
    (seq (\<lambda>st. retry_with_backoff (config st) (navigate_wizard env) 0 st)
    (seq (transition_state EXTRACT_TOKEN)
    (seq (\<lambda>st. retry_with_backoff (config st) (extract_service_token env) 0 st)
    (seq (transition_state VALIDATE_TOKEN)
    (seq validate_token
    (seq (transition_state SAVE_TOKEN)
    (seq save_token_step
    (seq (transition_state TEST_TOKEN)
    (seq test_token_with_cli
    (seq (transition_state CLEANUP)
    (seq (cleanup env)
         (transition_state COMPLETE))))))))))))))))))))))"

definition new_orchestrator :: "pydict \<Rightarrow> world \<Rightarrow> string \<Rightarrow> string list \<Rightarrow> bool \<Rightarrow> Orchestrator" where
  \<comment> \<open>\<open>Orchestrator(config)\<close> and the context that \<open>orchestrate\<close> sets up first\<close>
  "new_orchestrator cfg w account vault_names hl =
     \<lparr> config = cfg,
       context_o =
         \<lparr> account_name = account, vaults = vault_names, headless = hl,
           autonomous = dict_get_default cfg ''autonomous'' (PBool False),
           max_retries = dict_get_default cfg ''max_retries'' (PInt 3),
           current_state = INIT, session_manager = None, auth_status = None, page_c = None,
           token_c = None, error_c = None, state_transitions_c = [] \<rparr>,
       playwright_driver = False, fs = w, events = [] \<rparr>"

definition orchestrate ::
  "Collaborators \<Rightarrow> pydict \<Rightarrow> world \<Rightarrow> string \<Rightarrow> string list \<Rightarrow> bool
     \<Rightarrow> OrchestrationResult \<times> Orchestrator" where
  "orchestrate env cfg w account vault_names hl =
     (case workflow env (new_orchestrator cfg w account vault_names hl) of
        (Inr u, st) \<Rightarrow>
          (\<lparr> success_r = True, service_account_name = account,
             token_r = token_c (context_o st), error_message_r = None,
             duration_seconds = duration env, final_state = current_state (context_o st),
             state_transitions = state_transitions_c (context_o st),
             auth_status_r = auth_status (context_o st), token_validated = True,
             token_saved = True, token_tested = True,
             session_manager_r = session_manager (context_o st) \<rparr>, st)
      | (Inl e, st) \<Rightarrow>
          (case cleanup env (snd (transition_state ERROR st)) of
             (c, st2) \<Rightarrow>
               (\<lparr> success_r = False, service_account_name = account, token_r = None,
                  error_message_r = Some (''Orchestration failed: '' @ exc_str e),
                  duration_seconds = duration env, final_state = current_state (context_o st2),
                  state_transitions = state_transitions_c (context_o st2),
                  auth_status_r = auth_status (context_o st2), token_validated = False,
                  token_saved = False, token_tested = False,
                  session_manager_r = session_manager (context_o st2) \<rparr>, st2)))"


subsection \<open>Reasoning about the workflow\<close>

definition workflow_order :: "OrchestrationState list" where
  \<comment> \<open>the states that the \<open>try\<close> of \<open>orchestrate\<close> enters before its cleanup, in order\<close>
  "workflow_order = [CHECK_AUTH, SESSION_INIT, BROWSER_OPEN, NAVIGATE_STATE, FILL_FORM,
     WIZARD_NAV, EXTRACT_TOKEN, VALIDATE_TOKEN, SAVE_TOKEN, TEST_TOKEN]"

definition progress :: "Orchestrator \<Rightarrow> OrchestrationState list \<times> nat" where
  \<comment> \<open>the states entered so far and how often the cleanup routine has been started\<close>
  "progress st = (state_transitions_c (context_o st), count_list (events st) CleanupStarted)"

definition quiet :: "step \<Rightarrow> bool" where
  \<comment> \<open>a step that enters no state and starts no cleanup\<close>
  "quiet m = (\<forall>st. progress (snd (m st)) = progress st)"

definition never_raises :: "step \<Rightarrow> bool" where
  "never_raises m = (\<forall>st. \<exists>st1. m st = (Inr (), st1))"

definition stopped_early :: "Orchestrator \<Rightarrow> bool" where
  \<comment> \<open>some first part of the workflow has been entered, and no cleanup started\<close>
  "stopped_early st =
     (\<exists>xs. progress st = (xs, 0) \<and> prefix xs workflow_order \<and> xs \<noteq> [])"

definition ensures ::
  "(Orchestrator \<Rightarrow> bool) \<Rightarrow> step \<Rightarrow> (Orchestrator \<Rightarrow> bool) \<Rightarrow> (Orchestrator \<Rightarrow> bool) \<Rightarrow> bool" where
  \<comment> \<open>from a state with \<open>P\<close>, the step returns in a state with \<open>Q\<close> or raises in a state
      with \<open>E\<close>\<close>
  "ensures P m Q E =
     (\<forall>st. P st \<longrightarrow> (case m st of (Inl e, st1) \<Rightarrow> E st1 | (Inr u, st1) \<Rightarrow> Q st1))"

definition entered :: "OrchestrationState list \<Rightarrow> Orchestrator \<Rightarrow> bool" where
  "entered xs st = (progress st = (xs, 0))"

section \<open>Concrete inputs\<close>

definition token_of_length_100 :: string where
  "token_of_length_100 = ''ops_'' @ replicate 96 CHR ''a''"

definition token_of_length_54 :: string where
  "token_of_length_54 = ''ops_'' @ replicate 50 CHR ''a''"

definition token_of_length_104 :: string where
  "token_of_length_104 = ''ops_'' @ replicate 100 CHR ''a''"

definition timeout_not_found :: py_exception where
  "timeout_not_found = Exc RuntimeError None ''timeout: element not found''"

definition captcha_missing :: py_exception where
  "captcha_missing = Exc RuntimeError None ''captcha token missing''"

definition file_not_found :: py_exception where
  "file_not_found = Exc OtherOSError (Some 2) ''[Errno 2] file not found''"

definition invalid_selector :: py_exception where
  "invalid_selector = Exc RuntimeError None ''invalid selector''"

definition failed_context :: DecisionContext where
  \<comment> \<open>the last action failed with a non-retryable error; the intent names a target page\<close>
  "failed_context =
     \<lparr> url_ctx = ''https://my.1password.com/home'', dom = ''Welcome'', visible_elements = [],
       intent = [(''target_url'', PStr ''https://my.1password.com/developer-tools'')],
       errors_ctx = [], last_action = None, last_result = RVal (PBool False),
       last_error = Some invalid_selector, retry_count = 0,
       history = [], decision_log = [], metadata_ctx = [] \<rparr>"

definition navigate_to_target :: Action where
  "navigate_to_target =
     \<lparr> action_type = NAVIGATE, selector = PNone, value_a = None,
       url = PStr ''https://my.1password.com/developer-tools'',
       description = ''Navigate to target URL: https://my.1password.com/developer-tools'',
       reason = ''target_url_mismatch'', confidence = 9 / 10, metadata = [] \<rparr>"

definition exhausted_context :: DecisionContext where
  \<comment> \<open>the last action timed out for the third time\<close>
  "exhausted_context =
     failed_context \<lparr> last_error := Some (Exc AsyncioTimeoutError None []), retry_count := 3 \<rparr>"


definition fresh_world :: world where
  \<comment> \<open>no profile file yet, and every call succeeds\<close>
  "fresh_world =
     \<lparr> files = Map.empty, symlinks = Map.empty, modes = Map.empty, home = Some ''/Users/u'',
       user_home = Some ''/Users/u'', passwd = Map.empty, now = ''20260101_120000'',
       faults = [], trace = [] \<rparr>"

definition profile_world :: world where
  \<comment> \<open>a profile with one line, and every call succeeds\<close>
  "profile_world = fresh_world \<lparr> files := [''/Users/u/.zshrc'' \<mapsto> ''export PATH=/bin''] \<rparr>"

definition disk_full :: py_exception where
  "disk_full = Exc OtherOSError (Some 28) ''[Errno 28] No space left on device''"

definition disk_full_world :: world where
  \<comment> \<open>the disk fills up when the profile is written, and is still full when it is restored\<close>
  "disk_full_world =
     profile_world \<lparr> faults := [Succeeds, Succeeds, Succeeds, FailsAfter 0 disk_full, Succeeds,
                                 FailsAfter 0 disk_full] \<rparr>"

definition write_fails :: "outcome list" where
  \<comment> \<open>the write of an existing profile fails once\<close>
  "write_fails = [Succeeds, Succeeds, Succeeds, FailsAfter 0 disk_full]"

definition unverified_world :: world where
  \<comment> \<open>the read-back and \<open>chmod\<close> both fail\<close>
  "unverified_world =
     profile_world \<lparr> faults := [Succeeds, Succeeds, Succeeds, Succeeds,
                                 Fails (Exc OtherException None ''read failed''),
                                 Fails (Exc PermissionError (Some 1) ''Operation not permitted'')] \<rparr>"

definition unverified_new :: "outcome list" where
  \<comment> \<open>for a new profile: the read-back and \<open>chmod\<close> both fail\<close>
  "unverified_new =
     [Succeeds, Succeeds, Succeeds, Fails (Exc OtherException None ''read failed''),
      Fails (Exc PermissionError (Some 1) ''Operation not permitted'')]"

definition export_line_profile :: string where
  \<comment> \<open>a profile with Windows line endings that already exports the variable\<close>
  "export_line_profile =
     ''export PATH=/bin'' @ [carriage_return, newline]
       @ ''export OP_SERVICE_ACCOUNT_TOKEN=old'' @ [carriage_return, newline]"

definition export_line_text :: string where
  \<comment> \<open>the same profile as a text-mode read gives it\<close>
  "export_line_text =
     ''export PATH=/bin'' @ [newline] @ ''export OP_SERVICE_ACCOUNT_TOKEN=old'' @ [newline]"

definition export_line_world :: world where
  "export_line_world = fresh_world \<lparr> files := [''/Users/u/.zshrc'' \<mapsto> export_line_profile] \<rparr>"

definition crlf_world :: world where
  "crlf_world =
     fresh_world \<lparr> files := [''/Users/u/.zshrc''
                               \<mapsto> ''export PATH=/bin'' @ [carriage_return, newline]] \<rparr>"

definition open_session :: SessionManager where
  \<comment> \<open>a session with its page, context, browser and engine\<close>
  "open_session = \<lparr> browser = Some 3, context_sm = Some 2, page = Some 1, playwright = Some 4 \<rparr>"

definition page_close_fails :: "nat \<Rightarrow> py_exception option" where
  \<comment> \<open>closing the page raises, every other release would succeed\<close>
  "page_close_fails h =
     (if h = 1 then Some (Exc OtherException None ''Target page has been closed'') else None)"


definition timeout_error :: py_exception where
  "timeout_error = Exc OtherException None ''Timeout 2000ms exceeded.''"

definition blank_page :: Page where
  \<comment> \<open>no selector is found, and the page text has no token\<close>
  "blank_page =
     \<lparr> wait_for_selector = (\<lambda>s. Raises timeout_error),
       clipboard_after = (\<lambda>s. Returns []),
       body_text = Returns (Some ''<div>Service Account Created</div>''),
       screenshot = (\<lambda>path. Returns ()) \<rparr>"

definition code_page :: Page where
  \<comment> \<open>the token is shown in a \<open>code\<close> element\<close>
  "code_page =
     blank_page \<lparr> wait_for_selector :=
       (\<lambda>s. if s = ''code:has-text('ops_')''
            then Returns (Some \<lparr> text_content = Returns (Some ('' '' @ token_of_length_104 @ '' '')),
                                  click = Returns () \<rparr>)
            else Raises timeout_error) \<rparr>"


definition session_dir_refused :: py_exception where
  \<comment> \<open>\<open>mkdir\<close> of the session directory is refused\<close>
  "session_dir_refused = Exc PermissionError (Some 13) ''[Errno 13] Permission denied''"

definition no_session_dir :: Collaborators where
  \<comment> \<open>a signed-in user, and a session directory that cannot be created\<close>
  "no_session_dir =
     \<lparr> auth_probes = (\<lambda>n. (True, True)), session_manager_init = Some session_dir_refused,
       driver_enter = Inr 0, navigate_result = (\<lambda>n. []), form_result = (\<lambda>n. Inr []),
       wizard_result = (\<lambda>n. Inr []), page_at = (\<lambda>n. blank_page), driver_exit = None,
       closing_c = (\<lambda>n. None), duration = 1 \<rparr>"

definition no_session_dir_run :: "OrchestrationResult \<times> Orchestrator" where
  "no_session_dir_run =
     orchestrate no_session_dir [] fresh_world ''SPARC-Automation'' [''Automation''] False"

definition signed_out :: Collaborators where
  \<comment> \<open>neither the CLI nor the browser shows a session\<close>
  "signed_out =
     \<lparr> auth_probes = (\<lambda>n. (False, False)), session_manager_init = None,
       driver_enter = Inr 0, navigate_result = (\<lambda>n. []), form_result = (\<lambda>n. Inr []),
       wizard_result = (\<lambda>n. Inr []), page_at = (\<lambda>n. blank_page), driver_exit = None,
       closing_c = (\<lambda>n. None), duration = 1 \<rparr>"

definition signed_out_run :: "OrchestrationResult \<times> Orchestrator" where
  "signed_out_run =
     orchestrate signed_out [] fresh_world ''SPARC-Automation'' [''Automation''] False"

section \<open>Properties of the token format\<close>

lemma token_class_ALLOWED: "token_class c = (c \<in> ALLOWED_CHARS)"
  by (cases c) (simp add: token_class_def ALLOWED_CHARS_def in_range_def)

lemma first_invalid_char_None:
  "(first_invalid_char s i = None) = (set s \<subseteq> ALLOWED_CHARS)"
  by (induction s arbitrary: i) auto

lemma first_invalid_char_Some:
  "first_invalid_char s i = Some (c, j) \<Longrightarrow>
     i \<le> j \<and> j - i < length s \<and> s ! (j - i) = c \<and> c \<notin> ALLOWED_CHARS"
proof (induction s arbitrary: i)
  case Nil
  then show ?case by simp
next
  case (Cons a s)
  show ?case
  proof (cases "a \<in> ALLOWED_CHARS")
    case False
    with Cons.prems show ?thesis by auto
  next
    case True
    with Cons.prems have "first_invalid_char s (Suc i) = Some (c, j)" by simp
    from Cons.IH [OF this]
    have "Suc i \<le> j" "j - Suc i < length s" "s ! (j - Suc i) = c" "c \<notin> ALLOWED_CHARS"
      by simp_all
    moreover from \<open>Suc i \<le> j\<close> have "j - i = Suc (j - Suc i)" by simp
    ultimately show ?thesis by simp
  qed
qed

lemma takeWhile_all_class:
  "set s \<subseteq> ALLOWED_CHARS \<Longrightarrow> takeWhile token_class s = s"
  by (induction s) (auto simp: token_class_ALLOWED)

lemma dropWhile_all_class:
  "set s \<subseteq> ALLOWED_CHARS \<Longrightarrow> dropWhile token_class s = []"
  by (induction s) (auto simp: token_class_ALLOWED)

lemma newline_not_allowed: "newline \<notin> ALLOWED_CHARS"
  by (simp add: newline_def ALLOWED_CHARS_def)

lemma pattern_of_well_formed:
  assumes "startswith token ''ops_''" and "104 \<le> length token" and "set token \<subseteq> ALLOWED_CHARS"
  shows "TOKEN_PATTERN_match token"
proof -
  from assms(3) have "set (drop 4 token) \<subseteq> ALLOWED_CHARS"
    using set_drop_subset by fastforce
  then have t: "takeWhile token_class (drop 4 token) = drop 4 token"
    and d: "dropWhile token_class (drop 4 token) = []"
    by (rule takeWhile_all_class, rule dropWhile_all_class)
  from assms(2) have "100 \<le> length (drop 4 token)" by simp
  with assms(1) show ?thesis
    unfolding TOKEN_PATTERN_match_def Let_def t d by simp
qed

lemma pattern_needs_104:
  assumes "TOKEN_PATTERN_match token"
  shows "104 \<le> length token"
proof -
  from assms have "100 \<le> length (takeWhile token_class (drop 4 token))"
    by (simp add: TOKEN_PATTERN_match_def Let_def)
  also have "\<dots> \<le> length (drop 4 token)"
    by (rule length_takeWhile_le)
  finally show ?thesis by simp
qed

lemma validate_well_formed:
  assumes "startswith token ''ops_''" and "104 \<le> length token" and "set token \<subseteq> ALLOWED_CHARS"
  shows "validate_token_format token =
           \<lparr> is_valid = True, errors = [], prefix_ok = True, length_ok = True,
             charset_ok = True, pattern_match = True \<rparr>"
proof -
  from assms(2) have ne: "token \<noteq> []" by auto
  have m: "TOKEN_PATTERN_match token" using assms by (rule pattern_of_well_formed)
  have b: "first_invalid_char token 0 = None" using assms(3) by (simp add: first_invalid_char_None)
  show ?thesis
    using ne m b assms(1,2)
    by (simp add: validate_token_format_def Let_def TOKEN_PREFIX_def MIN_TOKEN_LENGTH_def)
qed

lemma match_token_here_shape:
  assumes "match_token_here s = Some t"
  shows "startswith t ''ops_'' \<and> 104 \<le> length t \<and> set t \<subseteq> ALLOWED_CHARS"
proof -
  from assms have t: "t = ''ops_'' @ takeWhile token_class (drop 4 s)"
    and n: "100 \<le> length (takeWhile token_class (drop 4 s))"
    by (auto simp: match_token_here_def Let_def split: if_splits)
  have "set (takeWhile token_class (drop 4 s)) \<subseteq> ALLOWED_CHARS"
    using set_takeWhileD token_class_ALLOWED by fastforce
  moreover have "set ''ops_'' \<subseteq> ALLOWED_CHARS"
    by (simp add: ALLOWED_CHARS_def)
  ultimately have "set t \<subseteq> ALLOWED_CHARS" unfolding t by simp
  moreover have "startswith t ''ops_''" unfolding t by (simp add: startswith_def)
  moreover have "104 \<le> length t" unfolding t using n by simp
  ultimately show ?thesis by simp
qed

lemma search_token_shape:
  "search_token s = Some t \<Longrightarrow>
     startswith t ''ops_'' \<and> 104 \<le> length t \<and> set t \<subseteq> ALLOWED_CHARS"
  by (induction s) (auto split: option.splits dest: match_token_here_shape)


lemma validate_prefix_violation:
  assumes "\<not> startswith token TOKEN_PREFIX"
  shows "\<not> prefix_ok (validate_token_format token) \<and> \<not> is_valid (validate_token_format token)
         \<and> prefix_error \<in> set (errors (validate_token_format token))"
  using assms
  by (auto simp: validate_token_format_def Let_def split: option.splits)

lemma validate_length_violation:
  assumes "length token < MIN_TOKEN_LENGTH"
  shows "\<not> length_ok (validate_token_format token) \<and> \<not> is_valid (validate_token_format token)
         \<and> length_error (length token) \<in> set (errors (validate_token_format token))"
  using assms
  by (auto simp: validate_token_format_def Let_def split: option.splits)

lemma validate_charset_violation:
  assumes "\<not> set token \<subseteq> ALLOWED_CHARS"
  shows "\<not> charset_ok (validate_token_format token) \<and> \<not> is_valid (validate_token_format token)
         \<and> (\<exists>c i. i < length token \<and> token ! i = c \<and> c \<notin> ALLOWED_CHARS
                \<and> charset_error c i \<in> set (errors (validate_token_format token)))"
proof -
  from assms have ne: "token \<noteq> []" by auto
  from assms have "first_invalid_char token 0 \<noteq> None"
    by (simp add: first_invalid_char_None)
  then obtain c i where b: "first_invalid_char token 0 = Some (c, i)" by auto
  from first_invalid_char_Some [OF b]
  have ci: "i < length token" "token ! i = c" "c \<notin> ALLOWED_CHARS" by simp_all
  have "charset_error c i \<in> set (errors (validate_token_format token))"
    using ne b by (simp add: validate_token_format_def Let_def)
  moreover have "\<not> charset_ok (validate_token_format token)"
    using ne b by (simp add: validate_token_format_def Let_def)
  moreover have "\<not> is_valid (validate_token_format token)"
    using ne b by (simp add: validate_token_format_def Let_def)
  ultimately show ?thesis using ci by blast
qed

lemma validate_token_of_length_54:
  "validate_token_format token_of_length_54 =
     \<lparr> is_valid = False, errors = [''Token too short: 54 < 100''], prefix_ok = True,
       length_ok = False, charset_ok = True, pattern_match = False \<rparr>"
proof -
  have s: "set token_of_length_54 \<subseteq> ALLOWED_CHARS"
    by (simp add: token_of_length_54_def ALLOWED_CHARS_def)
  have b: "first_invalid_char token_of_length_54 0 = None"
    using s by (simp add: first_invalid_char_None)
  have p: "startswith token_of_length_54 ''ops_''"
    by (simp add: token_of_length_54_def startswith_def)
  have l: "length token_of_length_54 = 54"
    by (simp add: token_of_length_54_def)
  have m: "\<not> TOKEN_PATTERN_match token_of_length_54"
    using pattern_needs_104 [of token_of_length_54] l by auto
  have ne: "token_of_length_54 \<noteq> []"
    by (simp add: token_of_length_54_def)
  have e54: "str_of_nat 54 = ''54''" and e100: "str_of_nat 100 = ''100''"
    by code_simp+
  show ?thesis
    using b p l m ne e54 e100
    by (simp add: validate_token_format_def Let_def TOKEN_PREFIX_def MIN_TOKEN_LENGTH_def
                  length_error_def)
qed


subsection \<open>C1: what \<open>validate_token_format\<close> accepts and what it reports\<close>

text \<open>
  C1, as stated, fails: a token with the prefix, only allowed characters and a total length
  of 100 passes the three named checks and is still rejected, by the fourth check (the full
  pattern wants 100 characters after the prefix), with one error in the list.
\<close>

theorem validate_token_format_length_100_rejected:
  "startswith token_of_length_100 TOKEN_PREFIX
   \<and> MIN_TOKEN_LENGTH \<le> length token_of_length_100
   \<and> set token_of_length_100 \<subseteq> ALLOWED_CHARS
   \<and> validate_token_format token_of_length_100 =
       \<lparr> is_valid = False, errors = [''Token does not match expected pattern''],
         prefix_ok = True, length_ok = True, charset_ok = True, pattern_match = False \<rparr>"
proof -
  have s: "set token_of_length_100 \<subseteq> ALLOWED_CHARS"
    by (simp add: token_of_length_100_def ALLOWED_CHARS_def)
  have b: "first_invalid_char token_of_length_100 0 = None"
    using s by (simp add: first_invalid_char_None)
  have p: "startswith token_of_length_100 ''ops_''"
    by (simp add: token_of_length_100_def startswith_def)
  have l: "length token_of_length_100 = 100"
    by (simp add: token_of_length_100_def)
  have m: "\<not> TOKEN_PATTERN_match token_of_length_100"
    using pattern_needs_104 [of token_of_length_100] l by auto
  have ne: "token_of_length_100 \<noteq> []"
    by (simp add: token_of_length_100_def)
  show ?thesis
    using s b p l m ne
    by (simp add: validate_token_format_def Let_def TOKEN_PREFIX_def MIN_TOKEN_LENGTH_def)
qed

text \<open>
  C1, amended: a token is valid, with an empty error list, when it starts with \<open>ops_\<close>, has
  only allowed characters and is at least 104 characters long (100 after the prefix); a token
  without the prefix, shorter than 100, or with a character outside the set has the flag of
  that check false and the error of that check in the list; and \<open>ops_\<close> followed by fifty
  \<open>a\<close> has exactly the length check flagged.
\<close>

theorem validate_token_format_checks:
  "(startswith token TOKEN_PREFIX \<and> 104 \<le> length token \<and> set token \<subseteq> ALLOWED_CHARS \<longrightarrow>
      is_valid (validate_token_format token) \<and> errors (validate_token_format token) = [])
   \<and> (\<not> startswith token TOKEN_PREFIX \<longrightarrow>
      \<not> prefix_ok (validate_token_format token) \<and> \<not> is_valid (validate_token_format token)
      \<and> prefix_error \<in> set (errors (validate_token_format token)))
   \<and> (length token < MIN_TOKEN_LENGTH \<longrightarrow>
      \<not> length_ok (validate_token_format token) \<and> \<not> is_valid (validate_token_format token)
      \<and> length_error (length token) \<in> set (errors (validate_token_format token)))
   \<and> (\<not> set token \<subseteq> ALLOWED_CHARS \<longrightarrow>
      \<not> charset_ok (validate_token_format token) \<and> \<not> is_valid (validate_token_format token)
      \<and> (\<exists>c i. i < length token \<and> token ! i = c \<and> c \<notin> ALLOWED_CHARS
             \<and> charset_error c i \<in> set (errors (validate_token_format token))))
   \<and> validate_token_format token_of_length_54 =
       \<lparr> is_valid = False, errors = [''Token too short: 54 < 100''], prefix_ok = True,
         length_ok = False, charset_ok = True, pattern_match = False \<rparr>"
proof -
  have "startswith token TOKEN_PREFIX \<and> 104 \<le> length token \<and> set token \<subseteq> ALLOWED_CHARS \<longrightarrow>
      is_valid (validate_token_format token) \<and> errors (validate_token_format token) = []"
    using validate_well_formed [of token] by (simp add: TOKEN_PREFIX_def)
  then show ?thesis
    using validate_prefix_violation [of token] validate_length_violation [of token]
      validate_charset_violation [of token] validate_token_of_length_54
    by blast
qed

theorem validate_token_format_checks_witness:
  "(startswith token_of_length_104 TOKEN_PREFIX \<and> 104 \<le> length token_of_length_104
      \<and> set token_of_length_104 \<subseteq> ALLOWED_CHARS
      \<and> is_valid (validate_token_format token_of_length_104)
      \<and> errors (validate_token_format token_of_length_104) = [])
   \<and> (\<not> startswith ''opt_invalid!'' TOKEN_PREFIX
      \<and> \<not> prefix_ok (validate_token_format ''opt_invalid!'')
      \<and> prefix_error \<in> set (errors (validate_token_format ''opt_invalid!'')))
   \<and> (length ''opt_invalid!'' < MIN_TOKEN_LENGTH
      \<and> \<not> length_ok (validate_token_format ''opt_invalid!'')
      \<and> length_error (length ''opt_invalid!'') \<in> set (errors (validate_token_format ''opt_invalid!'')))
   \<and> (\<not> set ''opt_invalid!'' \<subseteq> ALLOWED_CHARS
      \<and> \<not> charset_ok (validate_token_format ''opt_invalid!''))"
proof -
  have a: "startswith token_of_length_104 TOKEN_PREFIX \<and> 104 \<le> length token_of_length_104
      \<and> set token_of_length_104 \<subseteq> ALLOWED_CHARS"
    by (simp add: token_of_length_104_def startswith_def TOKEN_PREFIX_def ALLOWED_CHARS_def)
  have b: "\<not> startswith ''opt_invalid!'' TOKEN_PREFIX"
    by (simp add: startswith_def TOKEN_PREFIX_def)
  have c: "length ''opt_invalid!'' < MIN_TOKEN_LENGTH"
    by (simp add: MIN_TOKEN_LENGTH_def)
  have d: "\<not> set ''opt_invalid!'' \<subseteq> ALLOWED_CHARS"
    by (simp add: ALLOWED_CHARS_def)
  show ?thesis
    using a b c d validate_token_format_checks [of token_of_length_104]
      validate_token_format_checks [of "''opt_invalid!''"]
    by blast
qed


subsection \<open>C10: what \<open>extract_token_from_output\<close> returns is a valid token\<close>

text \<open>
  C10: every string returned by \<open>extract_token_from_output\<close> is \<open>ops_\<close> followed by at
  least 100 characters of the allowed set, and \<open>validate_token_format\<close> accepts it with an
  empty error list.
\<close>

theorem extract_token_from_output_valid:
  assumes "extract_token_from_output output = Some token"
  shows "(\<exists>run. token = ''ops_'' @ run \<and> 100 \<le> length run \<and> set run \<subseteq> ALLOWED_CHARS)
         \<and> validate_token_format token =
             \<lparr> is_valid = True, errors = [], prefix_ok = True, length_ok = True,
               charset_ok = True, pattern_match = True \<rparr>"
proof -
  from assms obtain s where "search_token s = Some token"
    by (auto simp: extract_token_from_output_def Let_def split: if_splits option.splits)
  from search_token_shape [OF this]
  have p: "startswith token ''ops_''" and l: "104 \<le> length token"
    and c: "set token \<subseteq> ALLOWED_CHARS" by simp_all
  have l4: "length ''ops_'' = 4" by simp
  from p have "take 4 token = ''ops_''" unfolding startswith_def l4 .
  then have t: "token = ''ops_'' @ drop 4 token"
    using append_take_drop_id [of 4 token] by simp
  have "set (drop 4 token) \<subseteq> ALLOWED_CHARS"
    using c set_drop_subset by fastforce
  moreover have "100 \<le> length (drop 4 token)" using l by simp
  ultimately have "\<exists>run. token = ''ops_'' @ run \<and> 100 \<le> length run \<and> set run \<subseteq> ALLOWED_CHARS"
    using t by blast
  then show ?thesis
    using validate_well_formed [OF p l c] by simp
qed

theorem extract_token_from_output_valid_witness:
  "extract_token_from_output (''Your token: '' @ token_of_length_104) = Some token_of_length_104
   \<and> validate_token_format token_of_length_104 =
       \<lparr> is_valid = True, errors = [], prefix_ok = True, length_ok = True,
         charset_ok = True, pattern_match = True \<rparr>"
proof -
  have h: "extract_token_from_output (''Your token: '' @ token_of_length_104)
             = Some token_of_length_104"
    by (simp add: extract_token_from_output_def Let_def is_space_def in_range_def
          match_token_here_def startswith_def token_of_length_104_def token_class_def)
  show ?thesis
    using h extract_token_from_output_valid [OF h] by simp
qed

section \<open>Properties of the decision engine\<close>

lemma startswith_map:
  "startswith s p \<Longrightarrow> startswith (map f s) (map f p)"
proof -
  assume "startswith s p"
  then have "take (length p) s = p" by (simp add: startswith_def)
  then have "map f (take (length p) s) = map f p" by simp
  then show ?thesis by (simp add: startswith_def take_map)
qed

lemma contains_map:
  "contains s sub \<Longrightarrow> contains (map f s) (map f sub)"
proof (induction s)
  case Nil
  then show ?case by simp
next
  case (Cons c cs)
  then show ?case
    using startswith_map [of "c # cs" sub f] by auto
qed

lemma contains_lower:
  "contains s sub \<Longrightarrow> contains (lower s) (lower sub)"
  unfolding lower_def by (rule contains_map)

lemma lower_markers:
  "lower ''invalid'' = ''invalid''" "lower ''not found'' = ''not found''"
  "lower ''missing'' = ''missing''"
  by code_simp+


subsection \<open>C4: messages with \<open>invalid\<close>, \<open>not found\<close> or \<open>missing\<close>\<close>

text \<open>
  C4, as stated, fails: the class of the exception and the words \<open>timeout\<close> and
  \<open>captcha\<close> are looked at first. A message with \<open>not found\<close> that also says
  \<open>timeout\<close> gets the retryable timeout strategy with 3 attempts, one with \<open>missing\<close> and
  \<open>captcha\<close> gets 1 attempt, and an \<open>OSError\<close> whose message has \<open>not found\<close> gets the
  network strategy with 5 attempts.
\<close>

theorem get_retry_strategy_not_found_retryable:
  "contains (exc_str timeout_not_found) ''not found''
   \<and> retryable (get_retry_strategy timeout_not_found)
   \<and> max_attempts (get_retry_strategy timeout_not_found) = 3
   \<and> contains (exc_str captcha_missing) ''missing''
   \<and> retryable (get_retry_strategy captcha_missing)
   \<and> max_attempts (get_retry_strategy captcha_missing) = 1
   \<and> contains (exc_str file_not_found) ''not found''
   \<and> retryable (get_retry_strategy file_not_found)
   \<and> max_attempts (get_retry_strategy file_not_found) = 5"
  unfolding timeout_not_found_def captcha_missing_def file_not_found_def
  by code_simp

text \<open>
  C4, amended: for every exception that is neither an \<open>asyncio.TimeoutError\<close> nor an
  \<open>OSError\<close> (\<open>ConnectionError\<close> included), whose message in lower case contains neither
  \<open>timeout\<close> nor \<open>captcha\<close>, and whose message contains \<open>invalid\<close>, \<open>not found\<close> or
  \<open>missing\<close>, \<open>get_retry_strategy\<close> returns the strategy \<open>non_retryable\<close>, with
  \<open>retryable = False\<close> and \<open>max_attempts = 0\<close>.
\<close>

theorem get_retry_strategy_non_retryable:
  assumes "exc_class e \<noteq> AsyncioTimeoutError" and "\<not> is_OSError (exc_class e)"
    and "\<not> contains (lower (exc_str e)) ''timeout''"
    and "\<not> contains (lower (exc_str e)) ''captcha''"
    and "contains (exc_str e) ''invalid'' \<or> contains (exc_str e) ''not found''
         \<or> contains (exc_str e) ''missing''"
  shows "retryable (get_retry_strategy e) = False \<and> max_attempts (get_retry_strategy e) = 0
         \<and> name (get_retry_strategy e) = ''non_retryable''"
proof -
  from assms(5) have "contains (lower (exc_str e)) ''invalid''
      \<or> contains (lower (exc_str e)) ''not found'' \<or> contains (lower (exc_str e)) ''missing''"
    using contains_lower [of "exc_str e" "''invalid''"]
      contains_lower [of "exc_str e" "''not found''"]
      contains_lower [of "exc_str e" "''missing''"]
    by (auto simp: lower_markers)
  then have "list_ex (\<lambda>token. contains (lower (exc_str e)) token)
               [''invalid'', ''not found'', ''missing'']"
    by auto
  with assms(1-4) show ?thesis
    by (simp add: get_retry_strategy_def Let_def RetryStrategy_default_def)
qed

theorem get_retry_strategy_non_retryable_witness:
  "exc_class invalid_selector \<noteq> AsyncioTimeoutError
   \<and> \<not> is_OSError (exc_class invalid_selector)
   \<and> \<not> contains (lower (exc_str invalid_selector)) ''timeout''
   \<and> \<not> contains (lower (exc_str invalid_selector)) ''captcha''
   \<and> contains (exc_str invalid_selector) ''invalid''
   \<and> retryable (get_retry_strategy invalid_selector) = False
   \<and> max_attempts (get_retry_strategy invalid_selector) = 0"
proof -
  have h: "exc_class invalid_selector \<noteq> AsyncioTimeoutError"
    "\<not> is_OSError (exc_class invalid_selector)"
    "\<not> contains (lower (exc_str invalid_selector)) ''timeout''"
    "\<not> contains (lower (exc_str invalid_selector)) ''captcha''"
    "contains (exc_str invalid_selector) ''invalid''"
    unfolding invalid_selector_def by code_simp+
  from h(5) have h5: "contains (exc_str invalid_selector) ''invalid''
      \<or> contains (exc_str invalid_selector) ''not found''
      \<or> contains (exc_str invalid_selector) ''missing''" by simp
  show ?thesis
    using h get_retry_strategy_non_retryable [OF h(1) h(2) h(3) h(4) h5] by simp
qed


lemma decide_of_maybe_retry:
  "maybe_retry ctx = Some a \<Longrightarrow> decide t ctx = Inr (a, record_decision t ctx a)"
  by (simp add: decide_def select_action_def)

lemma decide_of_no_retry:
  "maybe_retry ctx = None \<Longrightarrow>
     decide t ctx = (case select_rest ctx (analyze ctx) of
                       Inl e \<Rightarrow> Inl e
                     | Inr a \<Rightarrow> Inr (a, record_decision t ctx a))"
  by (simp add: decide_def select_action_def)


subsection \<open>C7: the decision after a failed result\<close>

text \<open>
  C7, as stated, fails: when the strategy of the last error is not retryable,
  \<open>_maybe_retry\<close> gives no action and the decision falls through to the other rules. Here
  the last result is \<open>False\<close>, the last error has a message with \<open>invalid\<close>, and
  \<open>decide\<close> returns a NAVIGATE action.
\<close>

theorem decide_non_retryable_navigates:
  "\<not> evaluate_result (last_result failed_context)
   \<and> last_error failed_context = Some invalid_selector
   \<and> \<not> retryable (get_retry_strategy invalid_selector)
   \<and> decide 0 failed_context
       = Inr (navigate_to_target, record_decision 0 failed_context navigate_to_target)
   \<and> action_type navigate_to_target \<noteq> RETRY"
  unfolding failed_context_def invalid_selector_def navigate_to_target_def
  by code_simp

text \<open>
  C7, amended: for every decision context whose prior result is not \<open>None\<close> and indicates
  failure: with no last error, \<open>decide\<close> returns a RETRY action with the reason
  \<open>last_result_failed\<close>; with a last error whose strategy is not retryable, the retry rule
  gives no action and \<open>decide\<close> returns what its remaining rules select; with a retryable
  strategy and a retry count below its \<open>max_attempts\<close>, \<open>decide\<close> returns a RETRY action
  with the reason \<open>last_result_failed\<close> and the strategy in its metadata; with a retryable
  strategy and the budget exhausted, a RETRY action with the reason \<open>retry_exhausted\<close> and
  the strategy in its metadata.
\<close>

theorem decide_after_failed_result:
  assumes "last_result ctx \<noteq> RVal PNone" and "\<not> evaluate_result (last_result ctx)"
  shows "(case last_error ctx of
            None \<Rightarrow>
              (\<exists>a. decide t ctx = Inr (a, record_decision t ctx a)
                   \<and> action_type a = RETRY \<and> reason a = ''last_result_failed''
                   \<and> metadata a = [(''strategy'', MVal PNone)])
          | Some e \<Rightarrow>
              (if \<not> retryable (get_retry_strategy e)
               then maybe_retry ctx = None
                    \<and> decide t ctx = (case select_rest ctx (analyze ctx) of
                                        Inl x \<Rightarrow> Inl x
                                      | Inr a \<Rightarrow> Inr (a, record_decision t ctx a))
               else if retry_count ctx < max_attempts (get_retry_strategy e)
               then (\<exists>a. decide t ctx = Inr (a, record_decision t ctx a)
                        \<and> action_type a = RETRY \<and> reason a = ''last_result_failed''
                        \<and> metadata a = [(''strategy'', MStrategy (get_retry_strategy e))])
               else (\<exists>a. decide t ctx = Inr (a, record_decision t ctx a)
                        \<and> action_type a = RETRY \<and> reason a = ''retry_exhausted''
                        \<and> metadata a = [(''strategy'', MStrategy (get_retry_strategy e))])))"
proof (cases "last_error ctx")
  case None
  with assms have "\<exists>a. maybe_retry ctx = Some a \<and> action_type a = RETRY
      \<and> reason a = ''last_result_failed'' \<and> metadata a = [(''strategy'', MVal PNone)]"
    by (simp add: maybe_retry_def Action_default_def)
  then show ?thesis
    using None decide_of_maybe_retry by fastforce
next
  case (Some e)
  show ?thesis
  proof (cases "retryable (get_retry_strategy e)")
    case False
    with assms Some have "maybe_retry ctx = None"
      by (simp add: maybe_retry_def)
    then show ?thesis
      using Some False decide_of_no_retry [of ctx t] by simp
  next
    case True
    show ?thesis
    proof (cases "retry_count ctx < max_attempts (get_retry_strategy e)")
      case True
      with assms Some \<open>retryable (get_retry_strategy e)\<close>
      have "\<exists>a. maybe_retry ctx = Some a \<and> action_type a = RETRY
          \<and> reason a = ''last_result_failed''
          \<and> metadata a = [(''strategy'', MStrategy (get_retry_strategy e))]"
        by (simp add: maybe_retry_def Action_default_def should_retry_def)
      then show ?thesis
        using Some True \<open>retryable (get_retry_strategy e)\<close> decide_of_maybe_retry by fastforce
    next
      case False
      with assms Some \<open>retryable (get_retry_strategy e)\<close>
      have "\<exists>a. maybe_retry ctx = Some a \<and> action_type a = RETRY
          \<and> reason a = ''retry_exhausted''
          \<and> metadata a = [(''strategy'', MStrategy (get_retry_strategy e))]"
        by (simp add: maybe_retry_def Action_default_def should_retry_def)
      then show ?thesis
        using Some False \<open>retryable (get_retry_strategy e)\<close> decide_of_maybe_retry by fastforce
    qed
  qed
qed

theorem decide_after_failed_result_witness:
  "last_result exhausted_context \<noteq> RVal PNone
   \<and> \<not> evaluate_result (last_result exhausted_context)
   \<and> (\<exists>a. decide 0 exhausted_context = Inr (a, record_decision 0 exhausted_context a)
          \<and> action_type a = RETRY \<and> reason a = ''retry_exhausted''
          \<and> metadata a
              = [(''strategy'', MStrategy (get_retry_strategy (Exc AsyncioTimeoutError None [])))])"
proof -
  have h1: "last_result exhausted_context \<noteq> RVal PNone"
    by (simp add: exhausted_context_def failed_context_def)
  have h2: "\<not> evaluate_result (last_result exhausted_context)"
    by (simp add: exhausted_context_def failed_context_def evaluate_result_def)
  have e: "last_error exhausted_context = Some (Exc AsyncioTimeoutError None [])"
    and r: "retry_count exhausted_context = 3"
    by (simp_all add: exhausted_context_def failed_context_def)
  have s: "retryable (get_retry_strategy (Exc AsyncioTimeoutError None []))"
    "max_attempts (get_retry_strategy (Exc AsyncioTimeoutError None [])) = 3"
    by (simp_all add: get_retry_strategy_def RetryStrategy_default_def)
  show ?thesis
    using h1 h2 decide_after_failed_result [OF h1 h2, of 0] e r s by simp
qed

section \<open>Properties of \<open>save_token_to_env\<close>\<close>

lemma contains_startswith: "startswith s t \<Longrightarrow> contains s t"
  by (cases s) (auto simp: startswith_def)

lemma contains_append: "contains (a @ t @ b) t"
proof (induction a)
  case Nil
  have "startswith (t @ b) t" by (simp add: startswith_def)
  then show ?case by (simp add: contains_startswith)
next
  case (Cons c a)
  then show ?case by simp
qed

lemma universal_newlines_no_cr: "carriage_return \<notin> set (universal_newlines s)"
  by (induction s rule: universal_newlines.induct)
     (simp_all add: carriage_return_def newline_def)

lemma universal_newlines_id: "carriage_return \<notin> set s \<Longrightarrow> universal_newlines s = s"
  by (induction s rule: universal_newlines.induct) auto

lemma universal_newlines_idem: "universal_newlines (universal_newlines s) = universal_newlines s"
  by (simp add: universal_newlines_id universal_newlines_no_cr)

lemma outcome_at_updates:
  "outcome_at (w \<lparr> files := fm \<rparr>) i = outcome_at w i"
  "outcome_at (w \<lparr> trace := tr \<rparr>) i = outcome_at w i"
  "outcome_at (w \<lparr> modes := md \<rparr>) i = outcome_at w i"
  by (simp_all add: outcome_at_def)

lemma same_setting_refl: "same_setting w w"
  by (simp add: same_setting_def)

lemma same_setting_trans: "same_setting w w1 \<Longrightarrow> same_setting w1 w2 \<Longrightarrow> same_setting w w2"
  by (simp add: same_setting_def)

lemma failure_of_None: "(failure_of f = None) = (f = Succeeds)"
  by (cases f) (simp_all add: failure_of_def)

lemma next_outcome_at:
  "\<exists>w1. next_outcome w = (outcome_at w 0, w1) \<and> shifted w w1 \<and> files w1 = files w
         \<and> modes w1 = modes w \<and> trace w1 = trace w \<and> same_setting w w1"
  by (cases "faults w")
     (simp_all add: next_outcome_def outcome_at_def shifted_def same_setting_def)

lemma read_file_at:
  "\<exists>w1. read_file path w
           = (case failure_of (outcome_at w 0) of
                Some e \<Rightarrow> Inl e
              | None \<Rightarrow> (case files w path of
                           None \<Rightarrow> Inl (file_not_found_error path)
                         | Some c \<Rightarrow> Inr (universal_newlines c)), w1)
         \<and> shifted w w1 \<and> files w1 = files w \<and> modes w1 = modes w \<and> same_setting w w1
         \<and> trace w1 = (if failure_of (outcome_at w 0) = None \<and> files w path \<noteq> None
                        then trace w @ [Read path] else trace w)"
proof -
  from next_outcome_at [of w] obtain w0
    where "next_outcome w = (outcome_at w 0, w0)" "shifted w w0" "files w0 = files w"
      "modes w0 = modes w" "trace w0 = trace w" "same_setting w w0" by blast
  then show ?thesis
    by (auto simp: read_file_def shifted_def outcome_at_updates same_setting_def
             split: option.splits)
qed

lemma write_file_at:
  "\<exists>w1. write_file path c w
           = (case failure_of (outcome_at w 0) of Some e \<Rightarrow> Inl e | None \<Rightarrow> Inr (), w1)
         \<and> shifted w w1 \<and> modes w1 = modes w \<and> same_setting w w1
         \<and> (\<forall>q. q \<noteq> path \<longrightarrow> files w1 q = files w q)
         \<and> files w1 path = (case outcome_at w 0 of
                               Succeeds \<Rightarrow> Some c
                             | Fails e \<Rightarrow> files w path
                             | FailsAfter n e \<Rightarrow> Some (take n c))
         \<and> trace w1 = trace w @ [if outcome_at w 0 = Succeeds then Wrote path c
                                   else WriteFailed path]"
proof -
  from next_outcome_at [of w] obtain w0
    where "next_outcome w = (outcome_at w 0, w0)" "shifted w w0" "files w0 = files w"
      "modes w0 = modes w" "trace w0 = trace w" "same_setting w w0" by blast
  then show ?thesis
    by (cases "outcome_at w 0")
       (auto simp: write_file_def shifted_def outcome_at_updates same_setting_def failure_of_def)
qed

lemma chmod_at:
  "\<exists>w1. snd (chmod path m w) = w1 \<and> shifted w w1 \<and> files w1 = files w \<and> same_setting w w1
         \<and> modes w1 = (if outcome_at w 0 = Succeeds \<and> files w path \<noteq> None
                        then (modes w)(path \<mapsto> m) else modes w)
         \<and> (\<exists>l. trace w1 = trace w @ l)"
proof -
  from next_outcome_at [of w] obtain w0
    where "next_outcome w = (outcome_at w 0, w0)" "shifted w w0" "files w0 = files w"
      "modes w0 = modes w" "trace w0 = trace w" "same_setting w w0" by blast
  then show ?thesis
    by (cases "outcome_at w 0")
       (auto simp: chmod_def shifted_def outcome_at_updates same_setting_def failure_of_def)
qed

lemma touch_at:
  "\<exists>w1. touch path w
           = (case failure_of (outcome_at w 0) of Some e \<Rightarrow> Inl e | None \<Rightarrow> Inr (), w1)
         \<and> shifted w w1 \<and> modes w1 = modes w \<and> same_setting w w1
         \<and> files w1 = (if failure_of (outcome_at w 0) = None \<and> files w path = None
                        then (files w)(path \<mapsto> []) else files w)
         \<and> trace w1 = (if failure_of (outcome_at w 0) = None
                        then trace w @ [Touched path] else trace w)"
proof -
  from next_outcome_at [of w] obtain w0
    where "next_outcome w = (outcome_at w 0, w0)" "shifted w w0" "files w0 = files w"
      "modes w0 = modes w" "trace w0 = trace w" "same_setting w w0" by blast
  then show ?thesis
    by (auto simp: touch_def shifted_def outcome_at_updates same_setting_def
             split: option.splits)
qed

lemma save_token_to_env_valid:
  assumes "is_valid (validate_token_format token)"
  shows "save_token_to_env token var z w =
           (case create_backup (resolve_profile w z)
                   (backup_name (resolve_profile w z) (now w)) w of
              (Inl early, w1) \<Rightarrow> (early, w1)
            | (Inr bp, w1) \<Rightarrow> after_backup token var (resolve_profile w z) (now w) bp w1)"
  unfolding save_token_to_env_def Let_def after_backup_def using assms by simp

lemma save_token_to_env_invalid:
  assumes "\<not> is_valid (validate_token_format token)"
  shows "save_token_to_env token var z w
           = (Inr (PersistResult_failure None
                     (''Invalid token format: ''
                        @ join '', '' (errors (validate_token_format token)))), w)"
  using assms by (simp add: save_token_to_env_def Let_def)

lemma create_backup_run:
  assumes ex: "files w p = Some original"
    and o0: "outcome_at w 0 = Succeeds" and o1: "outcome_at w 1 = Succeeds"
  shows "\<exists>w1. create_backup p bp w = (Inr (Some bp), w1)
           \<and> (\<forall>i. outcome_at w1 i = outcome_at w (i + 2))
           \<and> files w1 bp = Some (universal_newlines original)
           \<and> (\<forall>q. q \<noteq> bp \<longrightarrow> files w1 q = files w q)
           \<and> modes w1 = modes w \<and> same_setting w w1
           \<and> trace w1 = trace w @ [Read p, Wrote bp (universal_newlines original)]"
proof -
  let ?text = "universal_newlines original"
  from read_file_at [of p w] obtain wa
    where a: "read_file p w = (Inr ?text, wa)" "shifted w wa" "files wa = files w"
      "modes wa = modes w" "same_setting w wa" "trace wa = trace w @ [Read p]"
    using ex o0 by (auto simp: failure_of_def)
  from a(2) o1 have oa: "outcome_at wa 0 = Succeeds" by (simp add: shifted_def)
  from write_file_at [of bp ?text wa] obtain wb
    where b: "write_file bp ?text wa = (Inr (), wb)" "shifted wa wb" "modes wb = modes wa"
      "same_setting wa wb" "\<forall>q. q \<noteq> bp \<longrightarrow> files wb q = files wa q"
      "files wb bp = Some ?text" "trace wb = trace wa @ [Wrote bp ?text]"
    using oa by (auto simp: failure_of_def)
  have "create_backup p bp w = (Inr (Some bp), wb)"
    using ex a(1) b(1) by (simp add: create_backup_def path_exists_def)
  moreover have "\<forall>i. outcome_at wb i = outcome_at w (i + 2)"
    using a(2) b(2) by (simp add: shifted_def)
  moreover have "same_setting w wb"
    using a(5) b(4) by (rule same_setting_trans)
  ultimately show ?thesis
    using a b by auto
qed

lemma create_backup_new:
  assumes ex: "files w p = None" and o0: "outcome_at w 0 = Succeeds"
  shows "\<exists>w1. create_backup p bp w = (Inr None, w1)
           \<and> (\<forall>i. outcome_at w1 i = outcome_at w (i + 1))
           \<and> files w1 = (files w)(p \<mapsto> [])
           \<and> modes w1 = modes w \<and> same_setting w w1
           \<and> trace w1 = trace w @ [Touched p]"
proof -
  from touch_at [of p w] obtain wa
    where a: "touch p w = (Inr (), wa)" "shifted w wa" "files wa = (files w)(p \<mapsto> [])"
      "modes wa = modes w" "same_setting w wa" "trace wa = trace w @ [Touched p]"
    using ex o0 by (auto simp: failure_of_def)
  have "create_backup p bp w = (Inr None, wa)"
    using ex a(1) by (simp add: create_backup_def path_exists_def)
  moreover have "\<forall>i. outcome_at wa i = outcome_at w (i + 1)"
    using a(2) by (simp add: shifted_def)
  ultimately show ?thesis
    using a by auto
qed

lemma restore_from_backup_result:
  assumes b: "files w bp = Some saved" and ne: "bp \<noteq> []" and d: "bp \<noteq> p"
  shows "files (restore_from_backup (Some bp) p w) bp = Some saved
         \<and> (outcome_at w 0 = Succeeds \<and> outcome_at w 1 = Succeeds \<longrightarrow>
              files (restore_from_backup (Some bp) p w) p = Some (universal_newlines saved))"
proof (cases "failure_of (outcome_at w 0)")
  case (Some e)
  from read_file_at [of bp w] obtain w1
    where "read_file bp w = (Inl e, w1)" "files w1 = files w"
    using Some by auto
  then have "restore_from_backup (Some bp) p w = w1"
    using b ne by (simp add: restore_from_backup_def path_exists_def)
  moreover from Some have "outcome_at w 0 \<noteq> Succeeds" by (auto simp: failure_of_def)
  ultimately show ?thesis using b \<open>files w1 = files w\<close> by simp
next
  case None
  let ?text = "universal_newlines saved"
  from read_file_at [of bp w] obtain w1
    where r: "read_file bp w = (Inr ?text, w1)" "files w1 = files w" "shifted w w1"
    using None b by auto
  from write_file_at [of p ?text w1] obtain w2
    where w: "snd (write_file p ?text w1) = w2"
      "\<forall>q. q \<noteq> p \<longrightarrow> files w2 q = files w1 q"
      "files w2 p = (case outcome_at w1 0 of Succeeds \<Rightarrow> Some ?text
                     | Fails e \<Rightarrow> files w1 p | FailsAfter n e \<Rightarrow> Some (take n ?text))"
    by fastforce
  have "restore_from_backup (Some bp) p w = w2"
    using b ne r(1) w(1) by (simp add: restore_from_backup_def path_exists_def)
  moreover have "outcome_at w1 0 = outcome_at w 1"
    using r(3) by (simp add: shifted_def)
  ultimately show ?thesis
    using w(2,3) d b r(2) by simp
qed

lemma verify_write_at:
  assumes "files w p = Some content"
  shows "\<exists>w1. verify_write p token w
             = (failure_of (outcome_at w 0) = None \<and> contains (universal_newlines content) token,
                w1)
           \<and> shifted w w1 \<and> files w1 = files w \<and> modes w1 = modes w \<and> same_setting w w1
           \<and> (\<exists>l. trace w1 = trace w @ l)"
proof (cases "failure_of (outcome_at w 0)")
  case None
  from read_file_at [of p w] obtain w1
    where "read_file p w = (Inr (universal_newlines content), w1)"
      "shifted w w1" "files w1 = files w" "modes w1 = modes w" "same_setting w w1"
      "trace w1 = trace w @ [Read p]"
    using assms None by auto
  then show ?thesis
    using None by (auto simp: verify_write_def)
next
  case (Some e)
  from read_file_at [of p w] obtain w1
    where "read_file p w = (Inl e, w1)"
      "shifted w w1" "files w1 = files w" "modes w1 = modes w" "same_setting w w1"
      "trace w1 = trace w"
    using assms Some by auto
  then show ?thesis
    using Some by (auto simp: verify_write_def)
qed

text \<open>the run of \<open>save_token_to_env\<close> up to the computing of the new content\<close>

lemma run_to_write_existing:
  assumes valid: "is_valid (validate_token_format token)"
    and ex: "files w (resolve_profile w z) = Some original"
    and ok: "\<forall>i<3. outcome_at w i = Succeeds"
  shows "\<exists>w2. save_token_to_env token var z w
             = (case updated_content var token (now w) (universal_newlines original) of
                  Inl e \<Rightarrow> (Inl e, w2)
                | Inr new_content \<Rightarrow>
                    write_and_verify token var (resolve_profile w z)
                      (Some (backup_name (resolve_profile w z) (now w))) new_content w2)
           \<and> (\<forall>i. outcome_at w2 i = outcome_at w (i + 3))
           \<and> files w2 (backup_name (resolve_profile w z) (now w))
               = Some (universal_newlines original)
           \<and> files w2 (resolve_profile w z) = Some original
           \<and> modes w2 = modes w
           \<and> trace w2 = trace w @ [Read (resolve_profile w z),
                                    Wrote (backup_name (resolve_profile w z) (now w))
                                      (universal_newlines original),
                                    Read (resolve_profile w z)]"
proof -
  let ?p = "resolve_profile w z"
  let ?bp = "backup_name ?p (now w)"
  let ?text = "universal_newlines original"
  have d: "?bp \<noteq> ?p" by (simp add: backup_name_def)
  from ok have o: "outcome_at w 0 = Succeeds" "outcome_at w 1 = Succeeds"
    "outcome_at w 2 = Succeeds" by simp_all
  from create_backup_run [OF ex o(1) o(2), of ?bp] obtain w1
    where c: "create_backup ?p ?bp w = (Inr (Some ?bp), w1)"
      "\<forall>i. outcome_at w1 i = outcome_at w (i + 2)"
      "files w1 ?bp = Some ?text" "\<forall>q. q \<noteq> ?bp \<longrightarrow> files w1 q = files w q"
      "modes w1 = modes w" "same_setting w w1"
      "trace w1 = trace w @ [Read ?p, Wrote ?bp ?text]"
    by blast
  from c(4) d ex have e1: "files w1 ?p = Some original" by metis
  from c(2) [rule_format, of 0] o(3) have o1: "outcome_at w1 0 = Succeeds"
    by (simp add: numeral_2_eq_2)
  from read_file_at [of ?p w1] obtain w2
    where r: "read_file ?p w1 = (Inr ?text, w2)" "shifted w1 w2" "files w2 = files w1"
      "modes w2 = modes w1" "trace w2 = trace w1 @ [Read ?p]"
    using e1 o1 by (auto simp: failure_of_def)
  have "\<forall>i. outcome_at w2 i = outcome_at w (i + 3)"
    using r(2) c(2) by (simp add: shifted_def numeral_3_eq_3)
  moreover have "save_token_to_env token var z w
             = (case updated_content var token (now w) ?text of
                  Inl e \<Rightarrow> (Inl e, w2)
                | Inr new_content \<Rightarrow> write_and_verify token var ?p (Some ?bp) new_content w2)"
    unfolding save_token_to_env_valid [OF valid] c(1) after_backup_def using r(1) by simp
  ultimately show ?thesis
    using c r e1 by auto
qed

lemma run_to_write_new:
  assumes valid: "is_valid (validate_token_format token)"
    and ex: "files w (resolve_profile w z) = None"
    and ok: "\<forall>i<2. outcome_at w i = Succeeds"
  shows "\<exists>w2. save_token_to_env token var z w
             = (case updated_content var token (now w) [] of
                  Inl e \<Rightarrow> (Inl e, w2)
                | Inr new_content \<Rightarrow>
                    write_and_verify token var (resolve_profile w z) None new_content w2)
           \<and> (\<forall>i. outcome_at w2 i = outcome_at w (i + 2))
           \<and> files w2 (resolve_profile w z) = Some []
           \<and> modes w2 = modes w
           \<and> trace w2 = trace w @ [Touched (resolve_profile w z), Read (resolve_profile w z)]"
proof -
  let ?p = "resolve_profile w z"
  let ?bp = "backup_name ?p (now w)"
  from ok have o: "outcome_at w 0 = Succeeds" "outcome_at w 1 = Succeeds" by simp_all
  from create_backup_new [OF ex o(1), of ?bp] obtain w1
    where c: "create_backup ?p ?bp w = (Inr None, w1)"
      "\<forall>i. outcome_at w1 i = outcome_at w (i + 1)"
      "files w1 = (files w)(?p \<mapsto> [])" "modes w1 = modes w"
      "trace w1 = trace w @ [Touched ?p]"
    by blast
  from c(3) have e1: "files w1 ?p = Some []" by simp
  from c(2) [rule_format, of 0] o(2) have o1: "outcome_at w1 0 = Succeeds" by simp
  from read_file_at [of ?p w1] obtain w2
    where r: "read_file ?p w1 = (Inr [], w2)" "shifted w1 w2" "files w2 = files w1"
      "modes w2 = modes w1" "trace w2 = trace w1 @ [Read ?p]"
    using e1 o1 by (auto simp: failure_of_def)
  have "\<forall>i. outcome_at w2 i = outcome_at w (i + 2)"
    using r(2) c(2) by (simp add: shifted_def numeral_2_eq_2)
  moreover have "save_token_to_env token var z w
             = (case updated_content var token (now w) [] of
                  Inl e \<Rightarrow> (Inl e, w2)
                | Inr new_content \<Rightarrow> write_and_verify token var ?p None new_content w2)"
    unfolding save_token_to_env_valid [OF valid] c(1) after_backup_def using r(1) by simp
  ultimately show ?thesis
    using c r e1 by auto
qed

lemma run_to_write:
  assumes valid: "is_valid (validate_token_format token)"
    and ok: "\<forall>i<profile_write_index w (resolve_profile w z). outcome_at w i = Succeeds"
    and upd: "updated_content var token (now w) (content_read w (resolve_profile w z))
                = Inr new_content"
  shows "\<exists>w2. save_token_to_env token var z w
             = write_and_verify token var (resolve_profile w z)
                 (backup_made w (resolve_profile w z)) new_content w2
           \<and> (\<forall>i. outcome_at w2 i
                     = outcome_at w (i + profile_write_index w (resolve_profile w z)))
           \<and> files w2 (resolve_profile w z) \<noteq> None
           \<and> modes w2 = modes w"
proof (cases "files w (resolve_profile w z)")
  case None
  with ok have "\<forall>i<2. outcome_at w i = Succeeds" by (simp add: profile_write_index_def)
  from run_to_write_new [OF valid None this, of var] None upd show ?thesis
    by (auto simp: profile_write_index_def content_read_def backup_made_def)
next
  case (Some original)
  with ok have "\<forall>i<3. outcome_at w i = Succeeds" by (simp add: profile_write_index_def)
  from run_to_write_existing [OF valid Some this, of var] Some upd show ?thesis
    by (auto simp: profile_write_index_def content_read_def backup_made_def)
qed

subsection \<open>Variable names without a backslash\<close>

text \<open>
  A template without a backslash stands for itself, so for a variable name without one the
  new content can always be computed, and it has the token in it, also when it is read
  back in text mode.
\<close>

lemma tokens_plain: "backslash \<notin> set s \<Longrightarrow> tokens s = map (\<lambda>c. [c]) s"
  by (induction s rule: tokens.induct) auto

lemma bad_end_plain: "backslash \<notin> set s \<Longrightarrow> \<not> bad_end (map (\<lambda>c. [c]) s)"
  by (cases s) (auto simp: bad_end_def)

lemma parse_items_plain:
  "backslash \<notin> set s \<Longrightarrow> parse_items src pos (map (\<lambda>c. [c]) s) = Inr (map (\<lambda>c. Literal [c]) s)"
proof (induction s arbitrary: pos)
  case Nil
  then show ?case by simp
next
  case (Cons c s)
  then have c: "c \<noteq> backslash" and s: "backslash \<notin> set s" by auto
  have "next_item src pos [c] (map (\<lambda>c. [c]) s) = Inr (Literal [c], 0)"
    using c bad_end_plain [OF s] by (simp add: next_item_def)
  then show ?case using Cons.IH [OF s] by simp
qed

lemma parse_template_plain:
  "backslash \<notin> set s \<Longrightarrow> parse_template s = Inr (map (\<lambda>c. Literal [c]) s)"
  by (simp add: parse_template_def tokens_plain bad_end_plain parse_items_plain)

lemma expand_template_plain: "expand_template (map (\<lambda>c. Literal [c]) s) matched = s"
  by (induction s) (simp_all add: expand_template_def)

lemma sub_export_splices:
  "search_export lit bol content \<Longrightarrow>
     \<exists>a matched b. sub_export lit items bol content = a @ expand_template items matched @ b"
proof (induction content arbitrary: bol)
  case Nil
  then show ?case by simp
next
  case (Cons c cs)
  show ?case
  proof (cases "bol \<and> lit \<noteq> [] \<and> startswith (c # cs) lit")
    case True
    then have "sub_export lit items bol (c # cs)
        = [] @ expand_template items
                 (lit @ takeWhile (\<lambda>x. x \<noteq> newline) (drop (length lit) (c # cs)))
             @ sub_export lit items False
                    (dropWhile (\<lambda>x. x \<noteq> newline) (drop (length lit) (c # cs)))"
      by simp
    then show ?thesis by blast
  next
    case False
    with Cons.prems have "search_export lit (c = newline) cs" by auto
    from Cons.IH [OF this] obtain a matched b
      where "sub_export lit items (c = newline) cs = a @ expand_template items matched @ b"
      by blast
    with False have "sub_export lit items bol (c # cs)
                       = (c # a) @ expand_template items matched @ b" by auto
    then show ?thesis by blast
  qed
qed

lemma updated_content_plain:
  assumes v: "backslash \<notin> set var" and t: "backslash \<notin> set token"
  shows "\<exists>a b. updated_content var token ts content = Inr (a @ token @ dquote # b)"
proof (cases "search_export (export_literal var) True content")
  case True
  define line where "line = ''export '' @ var @ ''='' @ [dquote] @ token @ [dquote]"
  have "backslash \<notin> set line"
    using v t by (auto simp add: line_def backslash_def dquote_def)
  then have p: "parse_template line = Inr (map (\<lambda>c. Literal [c]) line)"
    by (rule parse_template_plain)
  from sub_export_splices [OF True, of "map (\<lambda>c. Literal [c]) line"]
  obtain a b where ab: "sub_export (export_literal var) (map (\<lambda>c. Literal [c]) line) True content
                          = a @ line @ b"
    by (auto simp add: expand_template_plain)
  have "updated_content var token ts content
          = Inr (sub_export (export_literal var) (map (\<lambda>c. Literal [c]) line) True content)"
    using True p by (simp add: updated_content_def Let_def line_def)
  also have "\<dots> = Inr ((a @ ''export '' @ var @ ''='' @ [dquote]) @ token @ dquote # b)"
    unfolding ab by (simp add: line_def)
  finally show ?thesis by blast
next
  case False
  define pre where "pre = (if \<not> endswith_newline content then content @ [newline] else content)
       @ [newline] @ ''# 1Password Service Account Token - Created '' @ ts @ [newline]
       @ ''export '' @ var @ ''='' @ [dquote]"
  have "updated_content var token ts content = Inr (pre @ token @ dquote # [newline])"
    using False by (simp add: updated_content_def Let_def pre_def)
  then show ?thesis by blast
qed

lemma universal_newlines_prefix:
  "carriage_return \<notin> set t \<Longrightarrow> universal_newlines (t @ c # b) = t @ universal_newlines (c # b)"
proof (induction t)
  case Nil
  then show ?case by simp
next
  case (Cons x t)
  then have x: "x \<noteq> carriage_return" by auto
  obtain y ys where y: "t @ c # b = y # ys" by (cases "t @ c # b") simp_all
  have "universal_newlines (x # t @ c # b) = x # universal_newlines (t @ c # b)"
    using x unfolding y by simp
  with Cons show ?case by simp
qed

lemma universal_newlines_split:
  "c \<noteq> newline \<Longrightarrow>
     universal_newlines (a @ c # r) = universal_newlines a @ universal_newlines (c # r)"
proof (induction a rule: universal_newlines.induct)
  case 1
  then show ?case by simp
next
  case (2 x)
  then show ?case by simp
next
  case (3 x d cs)
  show ?case
  proof (cases "x = carriage_return \<and> d = newline")
    case True
    obtain y ys where y: "cs @ c # r = y # ys" by (cases "cs @ c # r") simp_all
    from True 3 show ?thesis by simp
  next
    case False
    with 3 show ?thesis by auto
  qed
qed

lemma contains_universal_newlines:
  assumes "carriage_return \<notin> set t" and "t \<noteq> []" and "hd t \<noteq> newline"
  shows "contains (universal_newlines (a @ t @ dquote # b)) t"
proof -
  obtain c r where t: "t = c # r" using assms(2) by (cases t) simp_all
  with assms have c: "c \<noteq> newline" by simp
  have "universal_newlines (a @ t @ dquote # b)
          = universal_newlines a @ universal_newlines (t @ dquote # b)"
    using universal_newlines_split [OF c, of a "r @ dquote # b"] by (simp add: t)
  also have "\<dots> = universal_newlines a @ t @ universal_newlines (dquote # b)"
    using assms(1) by (simp add: universal_newlines_prefix)
  finally show ?thesis by (simp add: contains_append)
qed

lemma updated_content_keeps_token:
  assumes v: "backslash \<notin> set var" and t: "set token \<subseteq> ALLOWED_CHARS" and ne: "token \<noteq> []"
  shows "\<exists>new_content. updated_content var token ts content = Inr new_content
           \<and> contains (universal_newlines new_content) token"
proof -
  have "backslash \<notin> ALLOWED_CHARS" "carriage_return \<notin> ALLOWED_CHARS"
    "newline \<notin> ALLOWED_CHARS"
    by (simp_all add: ALLOWED_CHARS_def backslash_def carriage_return_def newline_def)
  with t ne have b: "backslash \<notin> set token" and c: "carriage_return \<notin> set token"
    and h: "hd token \<noteq> newline"
    by (auto dest: hd_in_set)
  from updated_content_plain [OF v b, of ts content] obtain a r
    where "updated_content var token ts content = Inr (a @ token @ dquote # r)" by blast
  with contains_universal_newlines [OF c ne h, of a r] show ?thesis by simp
qed

lemma write_and_verify_failure:
  assumes b: "files w2 bp = Some saved" and ne: "bp \<noteq> []" and d: "bp \<noteq> p"
    and fail: "failure_of (outcome_at w2 0) = Some e"
  shows "fst (write_and_verify token var p (Some bp) new_content w2)
           = Inr (PersistResult_failure (Some bp) (''Failed to write .zshrc: '' @ exc_str e))
         \<and> files (snd (write_and_verify token var p (Some bp) new_content w2)) bp = Some saved
         \<and> (outcome_at w2 1 = Succeeds \<and> outcome_at w2 2 = Succeeds \<longrightarrow>
               files (snd (write_and_verify token var p (Some bp) new_content w2)) p
                 = Some (universal_newlines saved))"
proof -
  from write_file_at [of p new_content w2] obtain w3
    where w: "write_file p new_content w2 = (Inl e, w3)" "shifted w2 w3"
      "\<forall>q. q \<noteq> p \<longrightarrow> files w3 q = files w2 q"
    using fail by auto
  from w(3) d b have b3: "files w3 bp = Some saved" by simp
  have o3: "outcome_at w3 0 = outcome_at w2 1" "outcome_at w3 1 = outcome_at w2 2"
    using w(2) by (simp_all add: shifted_def numeral_2_eq_2)
  have r: "write_and_verify token var p (Some bp) new_content w2
             = (Inr (PersistResult_failure (Some bp) (''Failed to write .zshrc: '' @ exc_str e)),
                restore_from_backup (Some bp) p w3)"
    unfolding write_and_verify_def w(1) by simp
  show ?thesis
    using restore_from_backup_result [OF b3 ne d] o3 unfolding r by simp
qed

lemma write_and_verify_success:
  assumes ex: "files w2 p \<noteq> None" and ok: "outcome_at w2 0 = Succeeds"
  shows "fst (write_and_verify token var p bp new_content w2)
           = Inr \<lparr> success = True, backup_path = bp, env_var_name = var, error_message = None,
                   verified = (outcome_at w2 1 = Succeeds
                                 \<and> contains (universal_newlines new_content) token) \<rparr>
         \<and> modes (snd (write_and_verify token var p bp new_content w2)) p
             = (if outcome_at w2 2 = Succeeds then Some 384 else modes w2 p)
         \<and> files (snd (write_and_verify token var p bp new_content w2)) p = Some new_content"
proof -
  from write_file_at [of p new_content w2] obtain w3
    where w: "write_file p new_content w2 = (Inr (), w3)" "shifted w2 w3" "modes w3 = modes w2"
      "files w3 p = Some new_content"
    using ok by (auto simp: failure_of_def)
  from verify_write_at [OF w(4), of token] obtain w4
    where v: "verify_write p token w3
                = (failure_of (outcome_at w3 0) = None
                     \<and> contains (universal_newlines new_content) token, w4)"
      "shifted w3 w4" "files w4 = files w3" "modes w4 = modes w3"
    by blast
  have o4: "outcome_at w3 0 = outcome_at w2 1" and o5: "outcome_at w4 0 = outcome_at w2 2"
    using w(2) v(2) by (simp_all add: shifted_def numeral_2_eq_2)
  from chmod_at [of p 384 w4] obtain w5
    where c: "snd (chmod p 384 w4) = w5" "files w5 = files w4"
      "modes w5 = (if outcome_at w4 0 = Succeeds \<and> files w4 p \<noteq> None
                   then (modes w4)(p \<mapsto> 384) else modes w4)"
    by blast
  have r: "write_and_verify token var p bp new_content w2
             = (Inr \<lparr> success = True, backup_path = bp, env_var_name = var,
                      error_message = None,
                      verified = (outcome_at w2 1 = Succeeds
                                    \<and> contains (universal_newlines new_content) token) \<rparr>, w5)"
    unfolding write_and_verify_def w(1) using v(1) o4 c(1)
    by (simp add: set_permissions_def failure_of_None)
  show ?thesis
    unfolding r using c(2,3) o5 v(3,4) w(3,4) by simp
qed

lemma updated_content_appends:
  assumes "\<not> search_export (export_literal var) True content"
  shows "\<exists>new_content. updated_content var token ts content = Inr new_content"
  using assms by (simp add: updated_content_def Let_def)

text \<open>
  When the profile already has an export line for the variable, the new line is given to
  \<open>export_pattern.sub\<close> as a template. If the template cannot be read, as for a variable
  name with the characters \<open>\1\<close> in it, the exception leaves \<open>save_token_to_env\<close>: the
  backup has been written, and the profile is as it was.
\<close>

lemma save_token_to_env_template_error:
  assumes valid: "is_valid (validate_token_format token)"
    and ex: "files w (resolve_profile w z) = Some original"
    and ok: "\<forall>i<3. outcome_at w i = Succeeds"
    and upd: "updated_content var token (now w) (universal_newlines original) = Inl e"
  shows "fst (save_token_to_env token var z w) = Inl e
         \<and> files (snd (save_token_to_env token var z w)) (resolve_profile w z) = Some original
         \<and> files (snd (save_token_to_env token var z w))
               (backup_name (resolve_profile w z) (now w)) = Some (universal_newlines original)"
  using run_to_write_existing [OF valid ex ok, of var] upd by auto

subsection \<open>C2: a failed write of the profile\<close>

text \<open>
  C2, as stated, fails: the restore is itself a read and a write that can fail, and its
  failure is logged and swallowed. Here the disk is full when the profile is written (the
  file is left truncated) and still full when the backup is written back: the function
  returns the original write error, and the profile is empty, not what it was.
\<close>

theorem save_token_to_env_restore_can_fail:
  "is_valid (validate_token_format token_of_length_104)
   \<and> files disk_full_world ''/Users/u/.zshrc'' = Some ''export PATH=/bin''
   \<and> fst (save_token_to_env token_of_length_104 ''OP_SERVICE_ACCOUNT_TOKEN'' ''~/.zshrc''
            disk_full_world)
       = Inr (PersistResult_failure (Some ''/Users/u/.zshrc.backup.20260101_120000'')
                ''Failed to write .zshrc: [Errno 28] No space left on device'')
   \<and> files (snd (save_token_to_env token_of_length_104 ''OP_SERVICE_ACCOUNT_TOKEN''
                   ''~/.zshrc'' disk_full_world)) ''/Users/u/.zshrc'' = Some []"
  unfolding disk_full_world_def profile_world_def fresh_world_def disk_full_def
    token_of_length_104_def
  by code_simp

text \<open>
  C2, amended: if the profile existed, its backup was made, the updated content was
  computed and the write of it fails, \<open>save_token_to_env\<close> returns a failure result that
  carries the backup path and the original write error, and the backup holds the text of the
  original profile, which is its content with every line ending read as a line feed; if the
  two calls of the restore (reading the backup, writing the profile) succeed, the profile
  holds that text again.
\<close>

theorem save_token_to_env_write_failure:
  assumes valid: "is_valid (validate_token_format token)"
    and ex: "files w (resolve_profile w z) = Some original"
    and ok: "\<forall>i<3. outcome_at w i = Succeeds"
    and upd: "updated_content var token (now w) (universal_newlines original) = Inr new_content"
    and fail: "failure_of (outcome_at w 3) = Some e"
  shows "fst (save_token_to_env token var z w)
           = Inr (PersistResult_failure (Some (backup_name (resolve_profile w z) (now w)))
                    (''Failed to write .zshrc: '' @ exc_str e))
         \<and> files (snd (save_token_to_env token var z w))
               (backup_name (resolve_profile w z) (now w)) = Some (universal_newlines original)
         \<and> (outcome_at w 4 = Succeeds \<and> outcome_at w 5 = Succeeds \<longrightarrow>
               files (snd (save_token_to_env token var z w)) (resolve_profile w z)
                 = Some (universal_newlines original))"
proof -
  let ?p = "resolve_profile w z"
  let ?bp = "backup_name ?p (now w)"
  have d: "?bp \<noteq> ?p" and ne: "?bp \<noteq> []" by (simp_all add: backup_name_def)
  from run_to_write_existing [OF valid ex ok, of var] upd obtain w2
    where s: "save_token_to_env token var z w
                = write_and_verify token var ?p (Some ?bp) new_content w2"
      and o: "\<forall>i. outcome_at w2 i = outcome_at w (i + 3)"
      and b: "files w2 ?bp = Some (universal_newlines original)"
    by auto
  from o [rule_format, of 0] fail have f0: "failure_of (outcome_at w2 0) = Some e" by simp
  from o [rule_format, of 1] o [rule_format, of 2]
  have o12: "outcome_at w2 1 = outcome_at w 4" "outcome_at w2 2 = outcome_at w 5"
    by (simp_all add: numeral_2_eq_2)
  show ?thesis
    using write_and_verify_failure [OF b ne d f0, of token var new_content] o12
    unfolding s by (simp add: universal_newlines_idem)
qed

theorem save_token_to_env_write_failure_witness:
  "is_valid (validate_token_format token_of_length_104)
   \<and> files export_line_world (resolve_profile export_line_world ''~/.zshrc'')
       = Some export_line_profile
   \<and> outcome_at (export_line_world \<lparr> faults := write_fails \<rparr>) 0 = Succeeds
   \<and> outcome_at (export_line_world \<lparr> faults := write_fails \<rparr>) 1 = Succeeds
   \<and> outcome_at (export_line_world \<lparr> faults := write_fails \<rparr>) 2 = Succeeds
   \<and> failure_of (outcome_at (export_line_world \<lparr> faults := write_fails \<rparr>) 3) = Some disk_full
   \<and> outcome_at (export_line_world \<lparr> faults := write_fails \<rparr>) 4 = Succeeds
   \<and> outcome_at (export_line_world \<lparr> faults := write_fails \<rparr>) 5 = Succeeds
   \<and> fst (save_token_to_env token_of_length_104 ''OP_SERVICE_ACCOUNT_TOKEN'' ''~/.zshrc''
            (export_line_world \<lparr> faults := write_fails \<rparr>))
       = Inr (PersistResult_failure (Some ''/Users/u/.zshrc.backup.20260101_120000'')
                ''Failed to write .zshrc: [Errno 28] No space left on device'')
   \<and> files (snd (save_token_to_env token_of_length_104 ''OP_SERVICE_ACCOUNT_TOKEN''
                   ''~/.zshrc'' (export_line_world \<lparr> faults := write_fails \<rparr>)))
         ''/Users/u/.zshrc.backup.20260101_120000'' = Some export_line_text
   \<and> files (snd (save_token_to_env token_of_length_104 ''OP_SERVICE_ACCOUNT_TOKEN''
                   ''~/.zshrc'' (export_line_world \<lparr> faults := write_fails \<rparr>)))
         ''/Users/u/.zshrc'' = Some export_line_text"
proof -
  let ?w = "export_line_world \<lparr> faults := write_fails \<rparr>"
  have v: "is_valid (validate_token_format token_of_length_104)"
    using validate_well_formed [of token_of_length_104]
    by (simp add: token_of_length_104_def startswith_def ALLOWED_CHARS_def)
  have p: "resolve_profile ?w ''~/.zshrc'' = ''/Users/u/.zshrc''"
    "resolve_profile export_line_world ''~/.zshrc'' = ''/Users/u/.zshrc''"
    "now ?w = ''20260101_120000''"
    by (simp_all add: export_line_world_def fresh_world_def resolve_profile_def expanduser_def
          startswith_def rstrip_slash_def Let_def)
  have ex: "files ?w (resolve_profile ?w ''~/.zshrc'') = Some export_line_profile"
    unfolding p by (simp add: export_line_world_def fresh_world_def)
  have ok: "\<forall>i<3. outcome_at ?w i = Succeeds"
    by (simp add: write_fails_def outcome_at_def less_Suc_eq numeral_3_eq_3)
  have fail: "failure_of (outcome_at ?w 3) = Some disk_full"
    by (simp add: write_fails_def outcome_at_def failure_of_def)
  have after: "outcome_at ?w 4 = Succeeds" "outcome_at ?w 5 = Succeeds"
    by (simp_all add: write_fails_def outcome_at_def)
  have t: "universal_newlines export_line_profile = export_line_text"
    unfolding export_line_profile_def export_line_text_def by code_simp
  have upd: "updated_content ''OP_SERVICE_ACCOUNT_TOKEN'' token_of_length_104 (now ?w)
               (universal_newlines export_line_profile)
               = Inr (''export PATH=/bin'' @ [newline] @ ''export OP_SERVICE_ACCOUNT_TOKEN=''
                        @ [dquote] @ token_of_length_104 @ [dquote] @ [newline])"
    unfolding p t export_line_text_def token_of_length_104_def by code_simp
  have m: "exc_str disk_full = ''[Errno 28] No space left on device''"
    by (simp add: disk_full_def)
  show ?thesis
    using v ex ok fail after
      save_token_to_env_write_failure [OF v ex ok upd fail]
    unfolding p t m backup_name_def by simp
qed

lemma read_file_inv:
  assumes "read_file path w = (r, w1)"
  shows "files w1 = files w \<and> modes w1 = modes w \<and> same_setting w w1
         \<and> (case r of Inl e \<Rightarrow> trace w1 = trace w
             | Inr c \<Rightarrow> (\<exists>stored. files w path = Some stored \<and> c = universal_newlines stored)
                        \<and> trace w1 = trace w @ [Read path])"
  using assms
  by (cases "faults w")
     (auto simp: read_file_def next_outcome_def same_setting_def
           split: option.splits)

lemma write_file_inv:
  assumes "write_file path c w = (Inr u, w1)"
  shows "files w1 = (files w)(path \<mapsto> c) \<and> modes w1 = modes w \<and> same_setting w w1
         \<and> trace w1 = trace w @ [Wrote path c]"
  using assms
  by (cases "faults w")
     (auto simp: write_file_def next_outcome_def same_setting_def split: outcome.splits)

lemma touch_inv:
  assumes "touch path w = (Inr u, w1)"
  shows "files w1 = (case files w path of None \<Rightarrow> (files w)(path \<mapsto> []) | Some c \<Rightarrow> files w)
         \<and> modes w1 = modes w \<and> same_setting w w1 \<and> trace w1 = trace w @ [Touched path]"
  using assms
  by (cases "faults w")
     (auto simp: touch_def next_outcome_def same_setting_def split: option.splits)

lemma chmod_inv:
  assumes "chmod path m w = (r, w1)"
  shows "files w1 = files w \<and> same_setting w w1 \<and> (\<exists>l. trace w1 = trace w @ l)"
  using assms
  by (cases "faults w")
     (auto simp: chmod_def next_outcome_def same_setting_def split: option.splits if_splits)

lemma verify_write_inv:
  assumes "verify_write path token w = (v, w1)"
  shows "files w1 = files w \<and> same_setting w w1 \<and> (\<exists>l. trace w1 = trace w @ l)"
proof -
  obtain r w0 where r: "read_file path w = (r, w0)" by (cases "read_file path w")
  from read_file_inv [OF r] assms r show ?thesis
    by (cases r) (auto simp: verify_write_def)
qed

lemma set_permissions_inv:
  "files (set_permissions path w) = files w \<and> same_setting w (set_permissions path w)
   \<and> (\<exists>l. trace (set_permissions path w) = trace w @ l)"
proof -
  obtain r w1 where r: "chmod path 384 w = (r, w1)" by (cases "chmod path 384 w")
  from chmod_inv [OF r] r show ?thesis by (simp add: set_permissions_def)
qed

lemma backup_failure_not_success:
  "backup_failure p e = Inr r \<Longrightarrow> \<not> success r"
  by (auto simp: backup_failure_def PersistResult_failure_def split: if_splits)

lemma write_and_verify_inv:
  assumes wv: "write_and_verify token var p bp new_content w2 = (Inr r, w')" and s: "success r"
  shows "\<exists>later. backup_path r = bp
           \<and> trace w' = trace w2 @ [Wrote p new_content] @ later
           \<and> (\<forall>q. q \<noteq> p \<longrightarrow> files w' q = files w2 q)"
proof -
  obtain rb wb where rb: "write_file p new_content w2 = (rb, wb)"
    by (cases "write_file p new_content w2")
  show ?thesis
  proof (cases rb)
    case (Inl e)
    with wv rb s show ?thesis
      by (auto simp: write_and_verify_def PersistResult_failure_def)
  next
    case (Inr u)
    from write_file_inv [of p new_content w2 u wb] rb Inr
    have b: "files wb = (files w2)(p \<mapsto> new_content)" "trace wb = trace w2 @ [Wrote p new_content]"
      by simp_all
    obtain v wc where v: "verify_write p token wb = (v, wc)" by (cases "verify_write p token wb")
    from verify_write_inv [OF v] obtain l1
      where c: "files wc = files wb" "trace wc = trace wb @ l1" by blast
    from set_permissions_inv [of p wc] obtain l2
      where d: "files (set_permissions p wc) = files wc"
        "trace (set_permissions p wc) = trace wc @ l2" by blast
    from wv rb v Inr have r: "backup_path r = bp" and w': "w' = set_permissions p wc"
      by (auto simp: write_and_verify_def)
    have "trace w' = trace w2 @ [Wrote p new_content] @ (l1 @ l2)"
      using b c d w' by simp
    moreover have "\<forall>q. q \<noteq> p \<longrightarrow> files w' q = files w2 q"
      using b c d w' by simp
    ultimately show ?thesis using r by blast
  qed
qed

lemma after_backup_success:
  assumes ab: "after_backup token var p ts bp w1 = (Inr r, w')" and s: "success r"
  shows "\<exists>stored new_content later.
           files w1 p = Some stored \<and> backup_path r = bp
           \<and> updated_content var token ts (universal_newlines stored) = Inr new_content
           \<and> trace w' = trace w1 @ [Read p, Wrote p new_content] @ later
           \<and> (\<forall>q. q \<noteq> p \<longrightarrow> files w' q = files w1 q)"
proof -
  obtain ra wa where ra: "read_file p w1 = (ra, wa)" by (cases "read_file p w1")
  show ?thesis
  proof (cases ra)
    case (Inl e)
    with ab ra s show ?thesis by (auto simp: after_backup_def PersistResult_failure_def)
  next
    case (Inr content)
    from read_file_inv [OF ra] Inr obtain stored
      where a: "files wa = files w1" "files w1 p = Some stored"
        "content = universal_newlines stored" "trace wa = trace w1 @ [Read p]"
      by auto
    show ?thesis
    proof (cases "updated_content var token ts content")
      case (Inl e)
      with ab ra \<open>ra = Inr content\<close> show ?thesis by (simp add: after_backup_def)
    next
      case (Inr new_content)
      with ab ra \<open>ra = Inr content\<close>
      have "write_and_verify token var p bp new_content wa = (Inr r, w')"
        by (simp add: after_backup_def)
      from write_and_verify_inv [OF this s] obtain later
        where b: "backup_path r = bp" "trace w' = trace wa @ [Wrote p new_content] @ later"
          "\<forall>q. q \<noteq> p \<longrightarrow> files w' q = files wa q"
        by blast
      have "trace w' = trace w1 @ [Read p, Wrote p new_content] @ later"
        using a(4) b(2) by simp
      moreover have "\<forall>q. q \<noteq> p \<longrightarrow> files w' q = files w1 q"
        using a(1) b(3) by simp
      ultimately show ?thesis using a(2,3) b(1) Inr by blast
    qed
  qed
qed

lemma create_backup_inv:
  assumes "create_backup p bp w = (Inr b, w1)"
  shows "same_setting w w1 \<and>
         (case files w p of
            Some original \<Rightarrow>
              b = Some bp \<and> files w1 = (files w)(bp \<mapsto> universal_newlines original)
              \<and> trace w1 = trace w @ [Read p, Wrote bp (universal_newlines original)]
          | None \<Rightarrow> b = None \<and> files w1 = (files w)(p \<mapsto> [])
                     \<and> trace w1 = trace w @ [Touched p])"
proof (cases "files w p")
  case None
  obtain rt wt where rt: "touch p w = (rt, wt)" by (cases "touch p w")
  with assms None have "rt = Inr ()" "wt = w1" "b = None"
    by (auto simp: create_backup_def path_exists_def split: sum.splits)
  with touch_inv [of p w "()" w1] rt None show ?thesis by simp
next
  case (Some original)
  let ?text = "universal_newlines original"
  obtain ra wa where ra: "read_file p w = (ra, wa)" by (cases "read_file p w")
  show ?thesis
  proof (cases ra)
    case (Inl e)
    with assms ra Some show ?thesis by (simp add: create_backup_def path_exists_def)
  next
    case (Inr content)
    from read_file_inv [OF ra] Inr Some
    have a: "files wa = files w" "content = ?text" "trace wa = trace w @ [Read p]"
      "same_setting w wa"
      by auto
    obtain rb wb where rb: "write_file bp ?text wa = (rb, wb)"
      by (cases "write_file bp ?text wa")
    from assms ra rb Inr Some a(2) have "rb = Inr ()" "wb = w1" "b = Some bp"
      by (auto simp: create_backup_def path_exists_def split: sum.splits)
    with write_file_inv [of bp ?text wa "()" w1] rb a Some show ?thesis
      by (auto intro: same_setting_trans)
  qed
qed

lemma create_backup_early_not_success:
  assumes "create_backup p bp w = (Inl early, w1)" and "early = Inr r"
  shows "\<not> success r"
  using assms
  by (auto simp: create_backup_def split: if_splits prod.splits sum.splits
           dest: backup_failure_not_success)

subsection \<open>C3: the backup comes before the write\<close>

text \<open>
  C3, as stated, fails: when there is no profile file yet, \<open>save_token_to_env\<close> creates
  it, writes it and returns success with no backup path; no backup file is written.
\<close>

theorem save_token_to_env_new_profile_no_backup:
  "files fresh_world (resolve_profile fresh_world ''~/.zshrc'') = None
   \<and> fst (save_token_to_env token_of_length_104 ''OP_SERVICE_ACCOUNT_TOKEN'' ''~/.zshrc''
            fresh_world)
       = Inr \<lparr> success = True, backup_path = None, env_var_name = ''OP_SERVICE_ACCOUNT_TOKEN'',
               error_message = None, verified = True \<rparr>
   \<and> trace (snd (save_token_to_env token_of_length_104 ''OP_SERVICE_ACCOUNT_TOKEN''
                   ''~/.zshrc'' fresh_world))
       = [Touched ''/Users/u/.zshrc'', Read ''/Users/u/.zshrc'',
          Wrote ''/Users/u/.zshrc''
            ([newline, newline] @ ''# 1Password Service Account Token - Created 20260101_120000''
               @ [newline] @ ''export OP_SERVICE_ACCOUNT_TOKEN='' @ [dquote]
               @ token_of_length_104 @ [dquote, newline]),
          Read ''/Users/u/.zshrc'', Chmod ''/Users/u/.zshrc'' 384]
   \<and> files (snd (save_token_to_env token_of_length_104 ''OP_SERVICE_ACCOUNT_TOKEN''
                   ''~/.zshrc'' fresh_world))
         (backup_name ''/Users/u/.zshrc'' ''20260101_120000'') = None"
  unfolding fresh_world_def token_of_length_104_def
  by code_simp

text \<open>
  C3, amended: for every call that returns success, if the profile existed, the result names
  the timestamped backup, the backup holds the text of the original profile (its content
  with every line ending read as a line feed), and the backup was written before the
  profile was written; if the profile did not exist, it is created empty, the result has no
  backup path, and the first write is the one of the new content.
\<close>

theorem save_token_to_env_backup_before_write:
  assumes res: "fst (save_token_to_env token var z w) = Inr r" and s: "success r"
  shows "(case files w (resolve_profile w z) of
            Some original \<Rightarrow>
              backup_path r = Some (backup_name (resolve_profile w z) (now w))
              \<and> files (snd (save_token_to_env token var z w))
                    (backup_name (resolve_profile w z) (now w))
                  = Some (universal_newlines original)
              \<and> (\<exists>new_content later.
                    updated_content var token (now w) (universal_newlines original)
                      = Inr new_content
                    \<and> trace (snd (save_token_to_env token var z w))
                        = trace w @ [Read (resolve_profile w z),
                                     Wrote (backup_name (resolve_profile w z) (now w))
                                       (universal_newlines original),
                                     Read (resolve_profile w z),
                                     Wrote (resolve_profile w z) new_content] @ later)
          | None \<Rightarrow>
              backup_path r = None
              \<and> (\<exists>new_content later.
                    updated_content var token (now w) [] = Inr new_content
                    \<and> trace (snd (save_token_to_env token var z w))
                        = trace w @ [Touched (resolve_profile w z), Read (resolve_profile w z),
                                     Wrote (resolve_profile w z) new_content] @ later))"
proof -
  let ?p = "resolve_profile w z"
  let ?bp = "backup_name ?p (now w)"
  let ?w' = "snd (save_token_to_env token var z w)"
  have d: "?bp \<noteq> ?p" by (simp add: backup_name_def)
  have valid: "is_valid (validate_token_format token)"
  proof (rule ccontr)
    assume "\<not> is_valid (validate_token_format token)"
    from save_token_to_env_invalid [OF this, of var z w] res s show False
      by (auto simp: PersistResult_failure_def)
  qed
  obtain x w1 where cb: "create_backup ?p ?bp w = (x, w1)" by (cases "create_backup ?p ?bp w")
  show ?thesis
  proof (cases x)
    case (Inl early)
    with cb res have "early = Inr r"
      by (simp add: save_token_to_env_valid [OF valid])
    with create_backup_early_not_success [of ?p ?bp w early w1 r] cb Inl s
    show ?thesis by simp
  next
    case (Inr b)
    with cb have sv: "save_token_to_env token var z w = after_backup token var ?p (now w) b w1"
      by (simp add: save_token_to_env_valid [OF valid])
    with res have ab: "after_backup token var ?p (now w) b w1 = (Inr r, ?w')"
      by (metis prod.collapse)
    from after_backup_success [OF ab s] obtain stored new_content later
      where a: "files w1 ?p = Some stored" "backup_path r = b"
        "updated_content var token (now w) (universal_newlines stored) = Inr new_content"
        "trace ?w' = trace w1 @ [Read ?p, Wrote ?p new_content] @ later"
        "\<forall>q. q \<noteq> ?p \<longrightarrow> files ?w' q = files w1 q"
      by blast
    from create_backup_inv [of ?p ?bp w b w1] cb Inr
    have c: "case files w ?p of
               Some original \<Rightarrow>
                 b = Some ?bp \<and> files w1 = (files w)(?bp \<mapsto> universal_newlines original)
                 \<and> trace w1 = trace w @ [Read ?p, Wrote ?bp (universal_newlines original)]
             | None \<Rightarrow> b = None \<and> files w1 = (files w)(?p \<mapsto> [])
                        \<and> trace w1 = trace w @ [Touched ?p]"
      by simp
    show ?thesis
    proof (cases "files w ?p")
      case None
      with c have c': "b = None" "files w1 = (files w)(?p \<mapsto> [])"
        "trace w1 = trace w @ [Touched ?p]"
        by simp_all
      with a(1) have "stored = []" by simp
      with a c' None show ?thesis by simp
    next
      case (Some original)
      with c have c': "b = Some ?bp" "files w1 = (files w)(?bp \<mapsto> universal_newlines original)"
        "trace w1 = trace w @ [Read ?p, Wrote ?bp (universal_newlines original)]"
        by simp_all
      with a(1) d Some have "stored = original" by simp
      moreover from a(5) d c'(2) have "files ?w' ?bp = Some (universal_newlines original)"
        by simp
      ultimately show ?thesis using a c' Some by simp
    qed
  qed
qed

theorem save_token_to_env_backup_before_write_witness:
  "fst (save_token_to_env token_of_length_104 ''OP_SERVICE_ACCOUNT_TOKEN'' ''~/.zshrc''
          export_line_world)
     = Inr \<lparr> success = True,
             backup_path = Some ''/Users/u/.zshrc.backup.20260101_120000'',
             env_var_name = ''OP_SERVICE_ACCOUNT_TOKEN'', error_message = None,
             verified = True \<rparr>
   \<and> files export_line_world (resolve_profile export_line_world ''~/.zshrc'')
       = Some export_line_profile
   \<and> files (snd (save_token_to_env token_of_length_104 ''OP_SERVICE_ACCOUNT_TOKEN''
                   ''~/.zshrc'' export_line_world))
         (backup_name (resolve_profile export_line_world ''~/.zshrc'') (now export_line_world))
       = Some export_line_text"
proof -
  let ?r = "\<lparr> success = True,
             backup_path = Some ''/Users/u/.zshrc.backup.20260101_120000'',
             env_var_name = ''OP_SERVICE_ACCOUNT_TOKEN'', error_message = None,
             verified = True \<rparr>"
  have h: "fst (save_token_to_env token_of_length_104 ''OP_SERVICE_ACCOUNT_TOKEN'' ''~/.zshrc''
                  export_line_world) = Inr ?r"
    unfolding export_line_world_def export_line_profile_def fresh_world_def
      token_of_length_104_def
    by code_simp
  have s: "success ?r" by simp
  have ex: "files export_line_world (resolve_profile export_line_world ''~/.zshrc'')
              = Some export_line_profile"
    by (simp add: export_line_world_def fresh_world_def resolve_profile_def
          expanduser_def startswith_def rstrip_slash_def Let_def)
  have t: "universal_newlines export_line_profile = export_line_text"
    unfolding export_line_profile_def export_line_text_def by code_simp
  show ?thesis
    using h ex save_token_to_env_backup_before_write [OF h s] by (simp add: t)
qed

subsection \<open>C9: success does not depend on the verification or on the permissions\<close>

text \<open>
  C9: once the updated content is written, whether the profile existed or was just
  created, \<open>save_token_to_env\<close> returns success whatever the outcomes of the read-back and
  of \<open>chmod\<close> are: \<open>verified\<close> is true only if the read-back succeeds and finds the token,
  the mode of the file is unchanged when \<open>chmod\<close> fails, and the success flag is true in
  every case.
\<close>

theorem save_token_to_env_success_unverified:
  assumes valid: "is_valid (validate_token_format token)"
    and ok: "\<forall>i<Suc (profile_write_index w (resolve_profile w z)). outcome_at w i = Succeeds"
    and upd: "updated_content var token (now w) (content_read w (resolve_profile w z))
                = Inr new_content"
  shows "fst (save_token_to_env token var z w)
           = Inr \<lparr> success = True,
                   backup_path = backup_made w (resolve_profile w z),
                   env_var_name = var, error_message = None,
                   verified =
                     (outcome_at w (profile_write_index w (resolve_profile w z) + 1) = Succeeds
                        \<and> contains (universal_newlines new_content) token) \<rparr>
         \<and> modes (snd (save_token_to_env token var z w)) (resolve_profile w z)
             = (if outcome_at w (profile_write_index w (resolve_profile w z) + 2) = Succeeds
                then Some 384 else modes w (resolve_profile w z))"
proof -
  let ?p = "resolve_profile w z"
  let ?k = "profile_write_index w ?p"
  from ok have ok1: "\<forall>i<?k. outcome_at w i = Succeeds" and ok2: "outcome_at w ?k = Succeeds"
    by simp_all
  from run_to_write [OF valid ok1 upd] obtain w2
    where s: "save_token_to_env token var z w
                = write_and_verify token var ?p (backup_made w ?p) new_content w2"
      and o: "\<forall>i. outcome_at w2 i = outcome_at w (i + ?k)"
      and ex: "files w2 ?p \<noteq> None"
      and m: "modes w2 = modes w"
    by blast
  from o [rule_format, of 0] ok2 have f0: "outcome_at w2 0 = Succeeds" by simp
  from o [rule_format, of 1] o [rule_format, of 2]
  have o12: "outcome_at w2 1 = outcome_at w (?k + 1)" "outcome_at w2 2 = outcome_at w (?k + 2)"
    by (simp_all add: add.commute)
  show ?thesis
    using write_and_verify_success [OF ex f0, of token var "backup_made w ?p" new_content] o12 m
    unfolding s by simp
qed

theorem save_token_to_env_success_unverified_witness:
  "is_valid (validate_token_format token_of_length_104)
   \<and> files (fresh_world \<lparr> faults := unverified_new \<rparr>)
       (resolve_profile (fresh_world \<lparr> faults := unverified_new \<rparr>) ''~/.zshrc'') = None
   \<and> outcome_at (fresh_world \<lparr> faults := unverified_new \<rparr>) 0 = Succeeds
   \<and> outcome_at (fresh_world \<lparr> faults := unverified_new \<rparr>) 1 = Succeeds
   \<and> outcome_at (fresh_world \<lparr> faults := unverified_new \<rparr>) 2 = Succeeds
   \<and> outcome_at (fresh_world \<lparr> faults := unverified_new \<rparr>) 3 \<noteq> Succeeds
   \<and> outcome_at (fresh_world \<lparr> faults := unverified_new \<rparr>) 4 \<noteq> Succeeds
   \<and> fst (save_token_to_env token_of_length_104 ''OP_SERVICE_ACCOUNT_TOKEN'' ''~/.zshrc''
            (fresh_world \<lparr> faults := unverified_new \<rparr>))
       = Inr \<lparr> success = True, backup_path = None,
               env_var_name = ''OP_SERVICE_ACCOUNT_TOKEN'', error_message = None,
               verified = False \<rparr>
   \<and> modes (snd (save_token_to_env token_of_length_104 ''OP_SERVICE_ACCOUNT_TOKEN''
                   ''~/.zshrc'' (fresh_world \<lparr> faults := unverified_new \<rparr>)))
         ''/Users/u/.zshrc'' = None
   \<and> files unverified_world (resolve_profile unverified_world ''~/.zshrc'')
       = Some ''export PATH=/bin''
   \<and> outcome_at unverified_world 0 = Succeeds \<and> outcome_at unverified_world 1 = Succeeds
   \<and> outcome_at unverified_world 2 = Succeeds \<and> outcome_at unverified_world 3 = Succeeds
   \<and> outcome_at unverified_world 4 \<noteq> Succeeds \<and> outcome_at unverified_world 5 \<noteq> Succeeds
   \<and> fst (save_token_to_env token_of_length_104 ''OP_SERVICE_ACCOUNT_TOKEN'' ''~/.zshrc''
            unverified_world)
       = Inr \<lparr> success = True,
               backup_path = Some ''/Users/u/.zshrc.backup.20260101_120000'',
               env_var_name = ''OP_SERVICE_ACCOUNT_TOKEN'', error_message = None,
               verified = False \<rparr>
   \<and> modes (snd (save_token_to_env token_of_length_104 ''OP_SERVICE_ACCOUNT_TOKEN''
                   ''~/.zshrc'' unverified_world))
         ''/Users/u/.zshrc'' = None"
proof -
  let ?n = "fresh_world \<lparr> faults := unverified_new \<rparr>"
  have v: "is_valid (validate_token_format token_of_length_104)"
    using validate_well_formed [of token_of_length_104]
    by (simp add: token_of_length_104_def startswith_def ALLOWED_CHARS_def)
  have p: "resolve_profile ?n ''~/.zshrc'' = ''/Users/u/.zshrc''"
    "resolve_profile unverified_world ''~/.zshrc'' = ''/Users/u/.zshrc''"
    by (simp_all add: unverified_world_def profile_world_def fresh_world_def
          resolve_profile_def expanduser_def startswith_def rstrip_slash_def Let_def)
  have ex_n: "files ?n ''/Users/u/.zshrc'' = None"
    and ex_u: "files unverified_world ''/Users/u/.zshrc'' = Some ''export PATH=/bin''"
    and ts: "now ?n = ''20260101_120000''" "now unverified_world = ''20260101_120000''"
    and md: "modes ?n ''/Users/u/.zshrc'' = None"
      "modes unverified_world ''/Users/u/.zshrc'' = None"
    by (simp_all add: unverified_world_def profile_world_def fresh_world_def)
  have k: "profile_write_index ?n ''/Users/u/.zshrc'' = 2"
    "profile_write_index unverified_world ''/Users/u/.zshrc'' = 3"
    by (simp_all add: profile_write_index_def ex_u fresh_world_def)
  have o_n: "outcome_at ?n 0 = Succeeds" "outcome_at ?n 1 = Succeeds"
    "outcome_at ?n 2 = Succeeds" "outcome_at ?n 3 \<noteq> Succeeds" "outcome_at ?n 4 \<noteq> Succeeds"
    by (simp_all add: unverified_new_def outcome_at_def)
  have o_u: "outcome_at unverified_world 0 = Succeeds" "outcome_at unverified_world 1 = Succeeds"
    "outcome_at unverified_world 2 = Succeeds" "outcome_at unverified_world 3 = Succeeds"
    "outcome_at unverified_world 4 \<noteq> Succeeds" "outcome_at unverified_world 5 \<noteq> Succeeds"
    by (simp_all add: unverified_world_def profile_world_def fresh_world_def outcome_at_def)
  have ok_n: "\<forall>i<Suc (profile_write_index ?n (resolve_profile ?n ''~/.zshrc'')).
                outcome_at ?n i = Succeeds"
    unfolding p k
  proof (intro allI impI)
    fix i :: nat
    assume "i < Suc 2"
    then have "i = 0 \<or> i = 1 \<or> i = 2" by arith
    then show "outcome_at ?n i = Succeeds" using o_n by auto
  qed
  have ok_u: "\<forall>i<Suc (profile_write_index unverified_world
                         (resolve_profile unverified_world ''~/.zshrc'')).
                outcome_at unverified_world i = Succeeds"
    unfolding p k
  proof (intro allI impI)
    fix i :: nat
    assume "i < Suc 3"
    then have "i = 0 \<or> i = 1 \<or> i = 2 \<or> i = 3" by arith
    then show "outcome_at unverified_world i = Succeeds" using o_u by auto
  qed
  have "\<not> search_export (export_literal ''OP_SERVICE_ACCOUNT_TOKEN'') True
              (content_read ?n ''/Users/u/.zshrc'')"
    unfolding fresh_world_def by code_simp
  from updated_content_appends [OF this] obtain new_n
    where upd_n: "updated_content ''OP_SERVICE_ACCOUNT_TOKEN'' token_of_length_104 (now ?n)
                    (content_read ?n (resolve_profile ?n ''~/.zshrc'')) = Inr new_n"
    unfolding p by blast
  have "\<not> search_export (export_literal ''OP_SERVICE_ACCOUNT_TOKEN'') True
              (content_read unverified_world ''/Users/u/.zshrc'')"
    unfolding unverified_world_def profile_world_def fresh_world_def by code_simp
  from updated_content_appends [OF this] obtain new_u
    where upd_u: "updated_content ''OP_SERVICE_ACCOUNT_TOKEN'' token_of_length_104
                    (now unverified_world)
                    (content_read unverified_world
                       (resolve_profile unverified_world ''~/.zshrc'')) = Inr new_u"
    unfolding p by blast
  have b: "backup_made ?n ''/Users/u/.zshrc'' = None"
    "backup_made unverified_world ''/Users/u/.zshrc''
       = Some ''/Users/u/.zshrc.backup.20260101_120000''"
    by (simp_all add: backup_made_def ex_u unverified_world_def profile_world_def
          fresh_world_def backup_name_def)
  show ?thesis
    using v ex_n ex_u o_n o_u md
      save_token_to_env_success_unverified [OF v ok_n upd_n]
      save_token_to_env_success_unverified [OF v ok_u upd_u]
    unfolding p k b by simp
qed

subsection \<open>Line endings and template characters\<close>

text \<open>
  A profile with Windows line endings: the backup, and the profile that the call writes,
  hold the text with line feeds only.
\<close>

lemma save_token_to_env_crlf_profile:
  "files crlf_world ''/Users/u/.zshrc''
     = Some (''export PATH=/bin'' @ [carriage_return, newline])
   \<and> files (snd (save_token_to_env token_of_length_104 ''OP_SERVICE_ACCOUNT_TOKEN''
                   ''~/.zshrc'' crlf_world)) ''/Users/u/.zshrc.backup.20260101_120000''
       = Some (''export PATH=/bin'' @ [newline])"
  unfolding crlf_world_def fresh_world_def token_of_length_104_def
  by code_simp

text \<open>
  A variable name with \<open>\1\<close> in it, and a profile that has an export line for it: the
  template refers to a group that the pattern does not have, and the call raises.
\<close>

lemma save_token_to_env_group_reference:
  "fst (save_token_to_env token_of_length_104 (''A'' @ [backslash] @ ''1'') ''~/.zshrc''
          (fresh_world \<lparr> files := [''/Users/u/.zshrc''
                                     \<mapsto> ''export A'' @ [backslash] @ ''1=old''] \<rparr>))
     = Inl (Exc OtherException None ''invalid group reference 1 at position 9'')"
  unfolding fresh_world_def token_of_length_104_def
  by code_simp

section \<open>Properties of \<open>close_session\<close>\<close>

lemma close_session_drops_all:
  "fst (close_session closing sm) = all_dropped sm"
  by (simp add: close_session_def release_step_def split: option.splits prod.splits)

lemma close_session_again:
  "close_session closing (fst (close_session closing sm)) = (all_dropped sm, [])"
  by (simp add: close_session_drops_all)
     (simp add: close_session_def release_step_def all_dropped_def)

lemma close_session_in_order:
  assumes "\<forall>h. closing h = None"
  shows "snd (close_session closing \<lparr> browser = Some b, context_sm = Some c, page = Some p,
                                      playwright = Some e \<rparr>)
           = [PageClose p, ContextClose c, BrowserClose b, PlaywrightStop e]"
  using assms by (simp add: close_session_def release_step_def)

subsection \<open>C8: a release step that fails\<close>

text \<open>
  C8 does not hold of the code: \<open>close_session\<close> never raises, drops its four attributes
  and does nothing when called again, but when closing the page raises, the single handler
  logs the error and the context, the browser and the engine are never closed or stopped.
\<close>

theorem close_session_skips_after_failure:
  "close_session page_close_fails open_session
     = (\<lparr> browser = None, context_sm = None, page = None, playwright = None \<rparr>,
        [PageClose 1, ErrorLogged ''Error during session cleanup: Target page has been closed''])
   \<and> ContextClose 2 \<notin> set (snd (close_session page_close_fails open_session))
   \<and> BrowserClose 3 \<notin> set (snd (close_session page_close_fails open_session))
   \<and> PlaywrightStop 4 \<notin> set (snd (close_session page_close_fails open_session))"
  by (simp add: close_session_def release_step_def open_session_def page_close_fails_def
        all_dropped_def cleanup_error_def)


section \<open>Properties of \<open>extract_token\<close>\<close>

lemma method_of_after [simp]:
  "snd (after_events ev r) = ev @ snd r" "fst (after_events ev r) = fst r"
  by (simp_all add: after_events_def)

lemma methods_of_trace_append:
  "methods_of_trace (xs @ ys) = methods_of_trace xs @ methods_of_trace ys"
  by (simp add: methods_of_trace_def map_filter_def)

lemma css_loop_valid:
  "fst (css_loop pg sels) = Some t \<Longrightarrow> validate_token_format_browser (Some t)"
  by (induction sels) (auto simp: Let_def split: call.splits option.splits if_splits)

lemma clipboard_loop_valid:
  "fst (clipboard_loop pg sels) = Some t \<Longrightarrow> validate_token_format_browser (Some t)"
  by (induction sels) (auto simp: Let_def split: call.splits option.splits if_splits)

lemma page_text_valid:
  "fst (extract_token_via_page_text pg) = Some t \<Longrightarrow> validate_token_format_browser (Some t)"
  by (auto simp: extract_token_via_page_text_def split: call.splits option.splits if_splits)

lemma valid_truthy:
  "validate_token_format_browser (Some t) \<Longrightarrow> is_truthy_token (Some t)"
  by (auto simp: validate_token_format_browser_def is_truthy_token_def split: if_splits)

lemma css_loop_methods:
  "set sels \<inter> set copy_button_selectors = {} \<Longrightarrow>
     set (methods_of_trace (snd (css_loop pg sels))) \<subseteq> {1}"
  by (induction sels)
     (auto simp: methods_of_trace_def map_filter_def method_of_def Let_def
           split: call.splits option.splits if_splits)

lemma clipboard_loop_methods:
  "set sels \<subseteq> set copy_button_selectors \<Longrightarrow>
     set (methods_of_trace (snd (clipboard_loop pg sels))) \<subseteq> {2}"
  by (induction sels)
     (auto simp: methods_of_trace_def map_filter_def method_of_def Let_def clipboard_failed_def
           split: call.splits option.splits if_splits)

lemma page_text_methods:
  "set (methods_of_trace (snd (extract_token_via_page_text pg))) \<subseteq> {3}"
  by (auto simp: extract_token_via_page_text_def methods_of_trace_def map_filter_def
        method_of_def page_text_failed_def split: call.splits option.splits if_splits)

lemma all_methods_failed_methods:
  "methods_of_trace all_methods_failed = [4]"
  by (simp add: all_methods_failed_def methods_of_trace_def map_filter_def method_of_def)

lemma selectors_disjoint: "set token_selectors \<inter> set copy_button_selectors = {}"
  by (simp add: token_selectors_def copy_button_selectors_def)

lemma constant_sorted: "set xs \<subseteq> {k} \<Longrightarrow> sorted (xs :: nat list)"
  by (induction xs) auto

lemma sorted_two:
  "set xs \<subseteq> {j} \<Longrightarrow> sorted ys \<Longrightarrow> \<forall>y \<in> set ys. j \<le> y \<Longrightarrow> sorted (xs @ (ys :: nat list))"
  by (auto simp: sorted_append constant_sorted)

subsection \<open>C6: the order of the extraction methods\<close>

text \<open>
  C6, as stated, fails in its last part: when every method fails, \<open>extract_token\<close> prints
  one fixed line, takes a screenshot and returns \<open>None\<close>; neither the value returned nor
  the line printed tells how many methods were attempted.
\<close>

theorem extract_token_blank_page:
  "extract_token blank_page
     = (Inr None,
        [WaitFor ''code:has-text('ops_')'', WaitFor ''pre:has-text('ops_')'',
         WaitFor ''[data-testid='service-account-token']'', WaitFor ''.token-display code'',
         WaitFor ''.token-value'',
         WaitFor ''button:has-text('Copy')'',
         Printed ''Clipboard extraction failed for button:has-text('Copy'): Timeout 2000ms exceeded.'',
         WaitFor ''[data-testid='copy-token']'',
         Printed ''Clipboard extraction failed for [data-testid='copy-token']: Timeout 2000ms exceeded.'',
         WaitFor ''[aria-label='Copy token']'',
         Printed ''Clipboard extraction failed for [aria-label='Copy token']: Timeout 2000ms exceeded.'',
         BodyText,
         Printed ''ERROR: All token extraction methods failed'',
         Screenshot ''/tmp/1password_automation/error_token_extraction.png''])"
  unfolding blank_page_def timeout_error_def
  by code_simp

text \<open>
  C6, amended: the page operations of \<open>extract_token\<close> come in the order of the methods
  (selector lookup, then copy button and clipboard, then page text, then the screenshot of
  the failure path); every token it returns passes the format validation of the module; it
  returns the token of the first method that gives one, with no operation of a later
  method; and when every method fails it prints the fixed error line, takes the screenshot
  and returns \<open>None\<close>, or raises what the screenshot raises.
\<close>

theorem extract_token_fallback_order:
  "sorted (methods_of_trace (snd (extract_token pg)))
   \<and> (\<forall>t. fst (extract_token pg) = Inr (Some t) \<longrightarrow> validate_token_format_browser (Some t))
   \<and> (case extract_token_via_css pg of
         (Some t, ev1) \<Rightarrow>
           extract_token pg = (Inr (Some t), ev1) \<and> set (methods_of_trace ev1) \<subseteq> {1}
       | (None, ev1) \<Rightarrow>
           (case extract_token_via_clipboard pg of
              (Some t, ev2) \<Rightarrow>
                extract_token pg = (Inr (Some t), ev1 @ ev2)
                \<and> set (methods_of_trace (ev1 @ ev2)) \<subseteq> {1, 2}
            | (None, ev2) \<Rightarrow>
                (case extract_token_via_page_text pg of
                   (Some t, ev3) \<Rightarrow>
                     extract_token pg = (Inr (Some t), ev1 @ ev2 @ ev3)
                     \<and> set (methods_of_trace (ev1 @ ev2 @ ev3)) \<subseteq> {1, 2, 3}
                 | (None, ev3) \<Rightarrow>
                     extract_token pg
                       = (case screenshot pg
                                 ''/tmp/1password_automation/error_token_extraction.png'' of
                            Raises e \<Rightarrow> Inl e
                          | Returns u \<Rightarrow> Inr None,
                          ev1 @ ev2 @ ev3 @ all_methods_failed))))"
proof -
  obtain t1 ev1 where c: "extract_token_via_css pg = (t1, ev1)"
    by (cases "extract_token_via_css pg")
  obtain t2 ev2 where b: "extract_token_via_clipboard pg = (t2, ev2)"
    by (cases "extract_token_via_clipboard pg")
  obtain t3 ev3 where p: "extract_token_via_page_text pg = (t3, ev3)"
    by (cases "extract_token_via_page_text pg")
  have m1: "set (methods_of_trace ev1) \<subseteq> {1}"
    using css_loop_methods [OF selectors_disjoint, of pg] c
    by (simp add: extract_token_via_css_def)
  have m2: "set (methods_of_trace ev2) \<subseteq> {2}"
    using clipboard_loop_methods [of copy_button_selectors pg] b
    by (simp add: extract_token_via_clipboard_def)
  have m3: "set (methods_of_trace ev3) \<subseteq> {3}"
    using page_text_methods [of pg] p by simp
  have v1: "\<And>t. t1 = Some t \<Longrightarrow> validate_token_format_browser (Some t)"
    using css_loop_valid [of pg token_selectors] c by (simp add: extract_token_via_css_def)
  have v2: "\<And>t. t2 = Some t \<Longrightarrow> validate_token_format_browser (Some t)"
    using clipboard_loop_valid [of pg copy_button_selectors] b
    by (simp add: extract_token_via_clipboard_def)
  have v3: "\<And>t. t3 = Some t \<Longrightarrow> validate_token_format_browser (Some t)"
    using page_text_valid [of pg] p by simp
  have s12: "sorted (methods_of_trace ev1 @ methods_of_trace ev2)"
    using m1 m2 by (intro sorted_two constant_sorted) auto
  have s123: "sorted (methods_of_trace ev1 @ methods_of_trace ev2 @ methods_of_trace ev3)"
    using m1 m2 m3
    by (intro sorted_two [of _ 1] sorted_two [of _ 2] constant_sorted [of _ 3]) auto
  have s1234: "sorted (methods_of_trace ev1 @ methods_of_trace ev2 @ methods_of_trace ev3 @ [4])"
    using m1 m2 m3
    by (intro sorted_two [of _ 1] sorted_two [of _ 2] sorted_two [of _ 3]) auto
  show ?thesis
  proof (cases t1)
    case (Some t)
    with v1 have "is_truthy_token t1" by (simp add: valid_truthy)
    then have "extract_token pg = (Inr (Some t), ev1)"
      using c Some by (simp add: extract_token_def)
    then show ?thesis
      using c Some m1 v1 constant_sorted [OF m1] by simp
  next
    case None
    note n1 = this
    then have f1: "\<not> is_truthy_token t1" by (simp add: is_truthy_token_def)
    show ?thesis
    proof (cases t2)
      case (Some t)
      with v2 have "is_truthy_token t2" by (simp add: valid_truthy)
      then have "extract_token pg = (Inr (Some t), ev1 @ ev2)"
        using c b f1 Some by (simp add: extract_token_def)
      moreover have "set (methods_of_trace (ev1 @ ev2)) \<subseteq> {1, 2}"
        using m1 m2 by (auto simp: methods_of_trace_append)
      ultimately show ?thesis
        using c b n1 Some v2 s12 by (simp add: methods_of_trace_append)
    next
      case None
      note n2 = this
      then have f2: "\<not> is_truthy_token t2" by (simp add: is_truthy_token_def)
      show ?thesis
      proof (cases t3)
        case (Some t)
        with v3 have "is_truthy_token t3" by (simp add: valid_truthy)
        then have "extract_token pg = (Inr (Some t), ev1 @ ev2 @ ev3)"
          using c b p f1 f2 Some by (simp add: extract_token_def)
        moreover have "set (methods_of_trace (ev1 @ ev2 @ ev3)) \<subseteq> {1, 2, 3}"
          using m1 m2 m3 by (auto simp: methods_of_trace_append)
        ultimately show ?thesis
          using c b p n1 n2 Some v3 s123 by (simp add: methods_of_trace_append)
      next
        case None
        then have f3: "\<not> is_truthy_token t3" by (simp add: is_truthy_token_def)
        have e: "extract_token pg
                   = (case screenshot pg
                             ''/tmp/1password_automation/error_token_extraction.png'' of
                        Raises e \<Rightarrow> Inl e
                      | Returns u \<Rightarrow> Inr None,
                      ev1 @ ev2 @ ev3 @ all_methods_failed)"
          using c b p f1 f2 f3 by (simp add: extract_token_def split: call.splits)
        have "fst (extract_token pg) \<noteq> Inr (Some t)" for t
          unfolding e by (simp split: call.splits)
        then show ?thesis
          using c b p n1 n2 None e s1234
          by (simp add: methods_of_trace_append all_methods_failed_methods)
      qed
    qed
  qed
qed

theorem extract_token_fallback_order_witness:
  "fst (extract_token code_page) = Inr (Some token_of_length_104)
   \<and> validate_token_format_browser (Some token_of_length_104)
   \<and> sorted (methods_of_trace (snd (extract_token code_page)))"
proof -
  have h: "fst (extract_token code_page) = Inr (Some token_of_length_104)"
    unfolding code_page_def blank_page_def timeout_error_def token_of_length_104_def
    by code_simp
  show ?thesis
    using h extract_token_fallback_order [of code_page] by blast
qed


section \<open>Properties of the orchestrator\<close>

lemma progress_events:
  "progress (st \<lparr> events := events st @ evs \<rparr>)
     = (fst (progress st), snd (progress st) + count_list evs CleanupStarted)"
  by (simp add: progress_def)

lemma progress_context:
  "state_transitions_c c = state_transitions_c (context_o st)
     \<Longrightarrow> progress (st \<lparr> context_o := c \<rparr>) = progress st"
  by (simp add: progress_def)

lemma progress_fs: "progress (st \<lparr> fs := w \<rparr>) = progress st"
  by (simp add: progress_def)

lemma progress_driver: "progress (st \<lparr> playwright_driver := b \<rparr>) = progress st"
  by (simp add: progress_def)

lemma quiet_check_auth_status: "quiet (check_auth_status env n)"
  by (simp add: quiet_def check_auth_status_def raise_def Let_def progress_def)

lemma quiet_init_session_manager: "quiet (init_session_manager env)"
  by (simp add: quiet_def init_session_manager_def progress_def split: option.splits)

lemma quiet_open_browser: "quiet (open_browser env)"
  by (simp add: quiet_def open_browser_def raise_def Let_def progress_def split: sum.splits)

lemma quiet_navigate_to_page: "quiet (navigate_to_page env n)"
  by (simp add: quiet_def navigate_to_page_def raise_def Let_def)

lemma quiet_fill_account_form: "quiet (fill_account_form env n)"
  by (simp add: quiet_def fill_account_form_def raise_def split: sum.splits)

lemma quiet_navigate_wizard: "quiet (navigate_wizard env n)"
  by (simp add: quiet_def navigate_wizard_def raise_def split: sum.splits)

lemma quiet_extract_service_token: "quiet (extract_service_token env n)"
  by (simp add: quiet_def extract_service_token_def raise_def Let_def progress_def
           split: sum.splits prod.splits)

lemma quiet_validate_token: "quiet validate_token"
  by (simp add: quiet_def validate_token_def raise_def)

lemma quiet_save_token_step: "quiet save_token_step"
  by (simp add: quiet_def save_token_step_def raise_def progress_def
           split: option.splits sum.splits prod.splits)

lemma quiet_test_token_with_cli: "quiet test_token_with_cli"
  by (simp add: quiet_def test_token_with_cli_def raise_def)

lemma test_token_with_cli_raises: "\<exists>e. fst (test_token_with_cli st) = Inl e"
  by (simp add: test_token_with_cli_def raise_def)

lemma retry_with_backoff_progress:
  assumes q: "\<And>n. quiet (operation n)"
  shows "progress (snd (retry_with_backoff cfg operation attempt st)) = progress st"
  using q
proof (induction cfg operation attempt st rule: retry_with_backoff.induct)
  case (1 cfg operation attempt st)
  obtain r st1 where op: "operation attempt st = (r, st1)" by force
  have "progress (snd (operation attempt st)) = progress st"
    using "1.prems" [of attempt] by (simp add: quiet_def)
  with op have p1: "progress st1 = progress st" by simp
  show ?case
  proof (cases r)
    case (Inr u)
    then show ?thesis using op p1 by (subst retry_with_backoff.simps) simp
  next
    case (Inl exc)
    show ?thesis
    proof (cases "\<not> retryable (get_retry_strategy exc)
                   \<or> resolve_max_attempts cfg (get_retry_strategy exc) \<le> 0
                   \<or> int (attempt + 1) \<ge> resolve_max_attempts cfg (get_retry_strategy exc)")
      case True
      then show ?thesis using op p1 Inl
        by (subst retry_with_backoff.simps) (auto simp add: Let_def)
    next
      case False
      have "progress (snd (retry_with_backoff cfg operation (attempt + 1)
                             (st1 \<lparr> events := events st1 @ [Slept] \<rparr>)))
              = progress (st1 \<lparr> events := events st1 @ [Slept] \<rparr>)"
        using "1.IH" [OF op [symmetric] Inl refl refl] False "1.prems" by simp
      also have "\<dots> = progress st" using p1 by (simp add: progress_events)
      finally show ?thesis using op Inl False
        by (subst retry_with_backoff.simps) (simp add: Let_def)
    qed
  qed
qed

lemma quiet_retry_with_backoff:
  assumes "\<And>n. quiet (operation n)"
  shows "quiet (\<lambda>st. retry_with_backoff (config st) operation 0 st)"
  unfolding quiet_def
proof
  fix st
  show "progress (snd (retry_with_backoff (config st) operation 0 st)) = progress st"
    using assms by (rule retry_with_backoff_progress)
qed

lemma never_raises_transition_state: "never_raises (transition_state s)"
  by (simp add: never_raises_def transition_state_def Let_def)

lemma never_raises_cleanup: "never_raises (cleanup env)"
  by (simp add: never_raises_def cleanup_def Let_def split: option.splits prod.splits)

lemma never_raises_seq: "never_raises m \<Longrightarrow> never_raises k \<Longrightarrow> never_raises (seq m k)"
  unfolding never_raises_def seq_def
proof
  fix st
  assume m: "\<forall>st. \<exists>st1. m st = (Inr (), st1)" and k: "\<forall>st. \<exists>st1. k st = (Inr (), st1)"
  from m obtain st1 where m1: "m st = (Inr (), st1)" by blast
  from k obtain st2 where "k st1 = (Inr (), st2)" by blast
  with m1 show "\<exists>st1. (case m st of (Inl e, st1) \<Rightarrow> (Inl e, st1) | (Inr u, st1) \<Rightarrow> k st1)
                        = (Inr (), st1)"
    by simp
qed

lemma ensures_seq:
  assumes m: "ensures P m Q E" and k: "ensures Q k R E"
  shows "ensures P (seq m k) R E"
  unfolding ensures_def
proof (intro allI impI)
  fix st
  assume p: "P st"
  obtain r st1 where r: "m st = (r, st1)" by force
  from m p have c: "case m st of (Inl e, st1) \<Rightarrow> E st1 | (Inr u, st1) \<Rightarrow> Q st1"
    by (simp add: ensures_def)
  show "case seq m k st of (Inl e, st1) \<Rightarrow> E st1 | (Inr u, st1) \<Rightarrow> R st1"
  proof (cases r)
    case (Inl e)
    with r c show ?thesis by (simp add: seq_def)
  next
    case (Inr u)
    with r c have "Q st1" by simp
    with k have "case k st1 of (Inl e, st2) \<Rightarrow> E st2 | (Inr u, st2) \<Rightarrow> R st2"
      by (simp add: ensures_def)
    with r Inr show ?thesis by (simp add: seq_def)
  qed
qed

lemma ensures_transition_state:
  "ensures (entered xs) (transition_state s) (entered (xs @ [s])) E"
  by (simp add: ensures_def entered_def transition_state_def Let_def progress_def)

lemma ensures_quiet:
  assumes "quiet m" and "prefix xs workflow_order" and "xs \<noteq> []"
  shows "ensures (entered xs) m (entered xs) stopped_early"
  unfolding ensures_def
proof (intro allI impI)
  fix st
  assume e: "entered xs st"
  obtain r st1 where m: "m st = (r, st1)" by force
  from assms(1) have "progress (snd (m st)) = progress st" by (simp add: quiet_def)
  with m have "progress st1 = progress st" by simp
  with e have e1: "entered xs st1" by (simp add: entered_def)
  then have "stopped_early st1" using assms(2,3) by (auto simp add: stopped_early_def entered_def)
  with e1 m show "case m st of (Inl e, st1) \<Rightarrow> stopped_early st1 | (Inr u, st1) \<Rightarrow> entered xs st1"
    by (cases r) simp_all
qed

lemma ensures_never_raises: "never_raises m \<Longrightarrow> ensures P m (\<lambda>st. True) E"
  unfolding ensures_def never_raises_def
proof (intro allI impI)
  fix st
  assume "\<forall>st. \<exists>st1. m st = (Inr (), st1)"
  then obtain st1 where "m st = (Inr (), st1)" by blast
  then show "case m st of (Inl e, st1) \<Rightarrow> E st1 | (Inr u, st1) \<Rightarrow> True" by simp
qed

lemma workflow_ensures: "ensures (entered []) (workflow env) (\<lambda>st. True) stopped_early"
  unfolding workflow_def
  apply (rule ensures_seq [OF ensures_transition_state])
  apply (rule ensures_seq [OF ensures_quiet])
     apply (rule quiet_retry_with_backoff, rule quiet_check_auth_status)
    apply (simp add: workflow_order_def)
   apply simp
  apply (rule ensures_seq [OF ensures_transition_state])
  apply (rule ensures_seq [OF ensures_quiet])
     apply (rule quiet_init_session_manager)
    apply (simp add: workflow_order_def)
   apply simp
  apply (rule ensures_seq [OF ensures_transition_state])
  apply (rule ensures_seq [OF ensures_quiet])
     apply (rule quiet_open_browser)
    apply (simp add: workflow_order_def)
   apply simp
  apply (rule ensures_seq [OF ensures_transition_state])
  apply (rule ensures_seq [OF ensures_quiet])
     apply (rule quiet_retry_with_backoff, rule quiet_navigate_to_page)
    apply (simp add: workflow_order_def)
   apply simp
  apply (rule ensures_seq [OF ensures_transition_state])
  apply (rule ensures_seq [OF ensures_quiet])
     apply (rule quiet_retry_with_backoff, rule quiet_fill_account_form)
    apply (simp add: workflow_order_def)
   apply simp
  apply (rule ensures_seq [OF ensures_transition_state])
  apply (rule ensures_seq [OF ensures_quiet])
     apply (rule quiet_retry_with_backoff, rule quiet_navigate_wizard)
    apply (simp add: workflow_order_def)
   apply simp
  apply (rule ensures_seq [OF ensures_transition_state])
  apply (rule ensures_seq [OF ensures_quiet])
     apply (rule quiet_retry_with_backoff, rule quiet_extract_service_token)
    apply (simp add: workflow_order_def)
   apply simp
  apply (rule ensures_seq [OF ensures_transition_state])
  apply (rule ensures_seq [OF ensures_quiet])
     apply (rule quiet_validate_token)
    apply (simp add: workflow_order_def)
   apply simp
  apply (rule ensures_seq [OF ensures_transition_state])
  apply (rule ensures_seq [OF ensures_quiet])
     apply (rule quiet_save_token_step)
    apply (simp add: workflow_order_def)
   apply simp
  apply (rule ensures_seq [OF ensures_transition_state])
  apply (rule ensures_seq [OF ensures_quiet])
     apply (rule quiet_test_token_with_cli)
    apply (simp add: workflow_order_def)
   apply simp
  apply (rule ensures_never_raises)
  apply (intro never_raises_seq never_raises_transition_state never_raises_cleanup)
  done

lemma workflow_raises_early:
  assumes "workflow env (new_orchestrator cfg w account vault_names hl) = (Inl e, st)"
  shows "stopped_early st"
proof -
  have "entered [] (new_orchestrator cfg w account vault_names hl)"
    by (simp add: entered_def progress_def new_orchestrator_def)
  then have "case workflow env (new_orchestrator cfg w account vault_names hl) of
          (Inl e, st1) \<Rightarrow> stopped_early st1 | (Inr u, st1) \<Rightarrow> True"
    by (rule workflow_ensures [of env, unfolded ensures_def, rule_format])
  with assms show ?thesis by simp
qed

lemma cleanup_effect:
  "\<exists>st1. cleanup env st = (Inr (), st1)
      \<and> state_transitions_c (context_o st1) = state_transitions_c (context_o st)
      \<and> current_state (context_o st1) = current_state (context_o st)
      \<and> count_list (events st1) CleanupStarted = count_list (events st) CleanupStarted + 1
      \<and> count_list (events st1) CleanupComplete = count_list (events st) CleanupComplete + 1"
  by (simp add: cleanup_def Let_def split: option.splits prod.splits)

lemma orchestrate_raise:
  assumes wf: "workflow env (new_orchestrator cfg w account vault_names hl) = (Inl e, st0)"
    and c: "cleanup env (snd (transition_state ERROR st0)) = (Inr (), st2)"
  shows "orchestrate env cfg w account vault_names hl =
           (\<lparr> success_r = False, service_account_name = account, token_r = None,
              error_message_r = Some (''Orchestration failed: '' @ exc_str e),
              duration_seconds = duration env, final_state = current_state (context_o st2),
              state_transitions = state_transitions_c (context_o st2),
              auth_status_r = auth_status (context_o st2), token_validated = False,
              token_saved = False, token_tested = False,
              session_manager_r = session_manager (context_o st2) \<rparr>, st2)"
  using wf c by (simp add: orchestrate_def)

lemma orchestrate_return:
  assumes "workflow env (new_orchestrator cfg w account vault_names hl) = (Inr u, st0)"
  shows "success_r (fst (orchestrate env cfg w account vault_names hl))"
  using assms by (simp add: orchestrate_def)

lemma ensures_top: "ensures P m (\<lambda>st. True) (\<lambda>st. True)"
  by (simp add: ensures_def split: prod.splits sum.splits)

lemma ensures_bot: "ensures (\<lambda>st. False) m Q E"
  by (simp add: ensures_def)

lemma ensures_test_token_with_cli:
  "ensures P test_token_with_cli (\<lambda>st. False) (\<lambda>st. True)"
  by (simp add: ensures_def test_token_with_cli_def raise_def)

lemma workflow_never_returns:
  "ensures (\<lambda>st. True) (workflow env) (\<lambda>st. False) (\<lambda>st. True)"
  unfolding workflow_def
  apply (rule ensures_seq [where Q = "\<lambda>st. True"], rule ensures_top)
  apply (rule ensures_seq [where Q = "\<lambda>st. True"], rule ensures_top)
  apply (rule ensures_seq [where Q = "\<lambda>st. True"], rule ensures_top)
  apply (rule ensures_seq [where Q = "\<lambda>st. True"], rule ensures_top)
  apply (rule ensures_seq [where Q = "\<lambda>st. True"], rule ensures_top)
  apply (rule ensures_seq [where Q = "\<lambda>st. True"], rule ensures_top)
  apply (rule ensures_seq [where Q = "\<lambda>st. True"], rule ensures_top)
  apply (rule ensures_seq [where Q = "\<lambda>st. True"], rule ensures_top)
  apply (rule ensures_seq [where Q = "\<lambda>st. True"], rule ensures_top)
  apply (rule ensures_seq [where Q = "\<lambda>st. True"], rule ensures_top)
  apply (rule ensures_seq [where Q = "\<lambda>st. True"], rule ensures_top)
  apply (rule ensures_seq [where Q = "\<lambda>st. True"], rule ensures_top)
  apply (rule ensures_seq [where Q = "\<lambda>st. True"], rule ensures_top)
  apply (rule ensures_seq [where Q = "\<lambda>st. True"], rule ensures_top)
  apply (rule ensures_seq [where Q = "\<lambda>st. True"], rule ensures_top)
  apply (rule ensures_seq [where Q = "\<lambda>st. True"], rule ensures_top)
  apply (rule ensures_seq [where Q = "\<lambda>st. True"], rule ensures_top)
  apply (rule ensures_seq [where Q = "\<lambda>st. True"], rule ensures_top)
  apply (rule ensures_seq [where Q = "\<lambda>st. True"], rule ensures_top)
  apply (rule ensures_seq [OF ensures_test_token_with_cli ensures_bot])
  done

text \<open>
  The call \<open>test_token()\<close> in \<open>_test_token_with_cli\<close> lacks the argument that \<open>test_token\<close>
  requires, so the step raises whenever it is reached, and no run returns success.
\<close>

lemma orchestrate_never_succeeds:
  "\<not> success_r (fst (orchestrate env cfg w account vault_names hl))"
proof -
  obtain x st0 where wf: "workflow env (new_orchestrator cfg w account vault_names hl) = (x, st0)"
    by force
  have "case workflow env (new_orchestrator cfg w account vault_names hl) of
          (Inl e, st1) \<Rightarrow> True | (Inr u, st1) \<Rightarrow> False"
    by (rule workflow_never_returns [of env, unfolded ensures_def, rule_format]) simp
  with wf obtain e where "x = Inl e" by (cases x) simp_all
  with wf show ?thesis by (simp add: orchestrate_def split: prod.splits)
qed

text \<open>
  C5, the failure path as the code has it. A run that does not succeed has entered a
  non-empty first part of CHECK_AUTH, ..., TEST_TOKEN, in order, and then ERROR, which is
  its final state; it has not entered CLEANUP; and it has started the cleanup routine
  exactly once, and completed it.
\<close>

theorem orchestrate_failure_path:
  assumes run: "orchestrate env cfg w account vault_names hl = (r, st)"
    and failed: "\<not> success_r r"
  shows "final_state r = ERROR
       \<and> last (state_transitions r) = ERROR
       \<and> butlast (state_transitions r) \<noteq> []
       \<and> prefix (butlast (state_transitions r)) workflow_order
       \<and> CLEANUP \<notin> set (state_transitions r)
       \<and> count_list (events st) CleanupStarted = 1
       \<and> count_list (events st) CleanupComplete \<ge> 1"
proof -
  obtain x st0 where wf: "workflow env (new_orchestrator cfg w account vault_names hl) = (x, st0)"
    by force
  have "\<exists>e. x = Inl e"
  proof (cases x)
    case (Inl e)
    then show ?thesis by simp
  next
    case (Inr u)
    with wf have "success_r (fst (orchestrate env cfg w account vault_names hl))"
      by (simp add: orchestrate_return)
    with run failed show ?thesis by simp
  qed
  then obtain e where x: "x = Inl e" ..
  from wf x have "stopped_early st0" by (simp add: workflow_raises_early)
  then obtain xs where xs: "state_transitions_c (context_o st0) = xs"
    and none: "count_list (events st0) CleanupStarted = 0"
    and pre: "prefix xs workflow_order" and ne: "xs \<noteq> []"
    by (auto simp add: stopped_early_def progress_def)
  define st1 where "st1 = snd (transition_state ERROR st0)"
  have t1: "state_transitions_c (context_o st1) = xs @ [ERROR]"
    and c1: "current_state (context_o st1) = ERROR"
    and e1: "count_list (events st1) CleanupStarted = 0"
    using xs none by (simp_all add: st1_def transition_state_def Let_def)
  from cleanup_effect [of env st1] obtain st2 where c: "cleanup env st1 = (Inr (), st2)"
    and t2: "state_transitions_c (context_o st2) = state_transitions_c (context_o st1)"
    and c2: "current_state (context_o st2) = current_state (context_o st1)"
    and e2: "count_list (events st2) CleanupStarted = count_list (events st1) CleanupStarted + 1"
    and f2: "count_list (events st2) CleanupComplete
               = count_list (events st1) CleanupComplete + 1"
    by blast
  from wf x c have o: "orchestrate env cfg w account vault_names hl =
           (\<lparr> success_r = False, service_account_name = account, token_r = None,
              error_message_r = Some (''Orchestration failed: '' @ exc_str e),
              duration_seconds = duration env, final_state = current_state (context_o st2),
              state_transitions = state_transitions_c (context_o st2),
              auth_status_r = auth_status (context_o st2), token_validated = False,
              token_saved = False, token_tested = False,
              session_manager_r = session_manager (context_o st2) \<rparr>, st2)"
    unfolding st1_def by (simp add: orchestrate_raise)
  with run have fs: "final_state r = current_state (context_o st2)"
    and ts: "state_transitions r = state_transitions_c (context_o st2)" and st: "st = st2"
    by auto
  from pre have "set xs \<subseteq> set workflow_order" by (rule set_mono_prefix)
  then have "CLEANUP \<notin> set xs" by (auto simp add: workflow_order_def)
  with fs ts st t1 t2 c1 c2 e1 e2 f2 pre ne show ?thesis by simp
qed

theorem orchestrate_failure_path_witness:
  "\<not> success_r (fst signed_out_run)
     \<and> final_state (fst signed_out_run) = ERROR
     \<and> state_transitions (fst signed_out_run) = [CHECK_AUTH, ERROR]
     \<and> CLEANUP \<notin> set (state_transitions (fst signed_out_run))
     \<and> count_list (events (snd signed_out_run)) CleanupStarted = 1"
proof -
  have run: "orchestrate signed_out [] fresh_world ''SPARC-Automation'' [''Automation''] False
               = (fst signed_out_run, snd signed_out_run)"
    by (simp add: signed_out_run_def)
  have failed: "\<not> success_r (fst signed_out_run)" by code_simp
  have ts: "state_transitions (fst signed_out_run) = [CHECK_AUTH, ERROR]" by code_simp
  from orchestrate_failure_path [OF run failed] failed ts show ?thesis by simp
qed

text \<open>
  C5, as the claim has it: the CLEANUP state is entered exactly once on the failure path
  too. With a signed-in user and a session directory that cannot be created, the run
  enters CHECK_AUTH, SESSION_INIT and ERROR, and never CLEANUP; the cleanup routine is
  called from the handler once, without a state of its own.
\<close>

theorem orchestrate_failure_never_enters_cleanup:
  "success_r (fst no_session_dir_run) = False
     \<and> error_message_r (fst no_session_dir_run)
         = Some ''Orchestration failed: [Errno 13] Permission denied''
     \<and> final_state (fst no_session_dir_run) = ERROR
     \<and> state_transitions (fst no_session_dir_run) = [CHECK_AUTH, SESSION_INIT, ERROR]
     \<and> count_list (state_transitions (fst no_session_dir_run)) CLEANUP = 0
     \<and> count_list (events (snd no_session_dir_run)) CleanupStarted = 1"
  by code_simp

end
